(* ===== verification/Prelude.thy ===== *)
theory Prelude
  imports Complex_Main "HOL-Library.List_Lexorder" "HOL-Library.Char_ord"
begin

text \<open>
  Shared vocabulary of the development: the Go values every component uses (instants,
  durations, strings as byte sequences, decimal numerals), the error values of the packages
  under \<open>src/internal\<close>, and the generic lemmas on results, lists and strings that carry the
  component proofs.

  Conventions. A Go function that returns \<open>(T, error)\<close> is a function into
  \<open>error + 'a\<close>, with \<open>Inl\<close> for a non-nil error; one that returns only \<open>error\<close> is a function
  into \<open>error option\<close>, with \<open>None\<close> for nil. Wrapping with \<open>fmt.Errorf("...: %w", err)\<close> adds
  only text to an error that callers classify with \<open>errors.Is\<close>, so the model keeps the wrapped
  error itself. Instants are nanoseconds since the zero \<open>time.Time\<close>, so \<open>IsZero\<close> is equality
  with 0 and \<open>UTC()\<close>, which changes the display location only, is the identity.
\<close>

named_theorems result_simps \<open>characterisations of successful and failing results\<close>

section \<open>Errors\<close>

datatype contract_error =
    ErrInvalidContract | ErrInvalidStateTransition
  | ErrDocumentTooLarge | ErrDuplicateField | ErrUnknownField | ErrTrailingData
  | ErrUnsupportedSchemaVersion | ErrInvalidJSON | ErrInvalidDecodeOptions

datatype store_error =
    ErrStoreOpen | ErrLockTimeout | ErrUnsupportedSchema | ErrIntegrity | ErrUnknownBucket
  | ErrInvalidKey | ErrInvalidTransaction | ErrAuditAppendOnly | ErrStoreFull
  | BoltMaxSizeReached | SysENOSPC

datatype audit_error = ErrInvalidEvent | ErrChainInvalid | ErrChainCapacity

datatype recovery_error =
    ErrInvalidOptions | ErrInvalidRequest | ErrCorruptJournal | ErrIdempotencyConflict
  | ErrCommandNotExecutable
  | ErrInvalidApprovalOptions | ErrInvalidApprovalDecision | ErrApprovalCommandNotFound
  | ErrApprovalConflict | ErrApprovalCommandExpired

datatype correlator_error =
    ErrCorrelatorOptions | ErrInvalidSignal | ErrCorruptIncident

datatype stabilization_error =
    ErrStabilizationOptions | ErrStabilizationRequest | ErrCorruptResult

datatype docker_error = ErrUnavailable | ErrTimeout

datatype delivery_error =
    ErrDeliveryOptions | ErrDeliveryRequest | ErrQueueFull | ErrDeliveryConflict | ErrCorruptQueue
  | ErrPayloadUnavailable

datatype webhook_error =
    ErrInvalidSecret | ErrInvalidHeaders | ErrUnsupportedSignatureVersion
  | ErrTimestampOutsideTolerance | ErrInvalidTolerance | ErrSignatureMismatch

datatype lifecycle_error =
    ErrLifecycleOptions | ErrLifecycleEvent | ErrPayloadNotFound | ErrCorruptPayload | errEventExists

datatype target_error =
    ErrTargetOptions | ErrInvalidTarget | ErrUnknownAdapter | ErrTargetNotAllowed | ErrDuplicateTarget
  | ErrTargetLimit

datatype runbook_error = ErrInvalidPair | ErrDuplicateRunbook | ErrRunbookOptions

datatype observer_error = ErrObserverOptions | ErrProbeFailed

datatype evidence_error = ErrEvidenceOptions | ErrRedactionFailed

datatype query_error = ErrInvalidQuery | ErrIncidentNotFound

text \<open>
  \<open>External\<close> is an error produced by code outside the repository or by an injected dependency
  (the Docker engine, an ID generator, the JSON encoder, the disk).
\<close>

datatype error =
    Contract contract_error
  | Store store_error
  | Audit audit_error
  | Recovery recovery_error
  | Correlator correlator_error
  | Stabilization stabilization_error
  | Docker docker_error
  | Delivery delivery_error
  | Webhook webhook_error
  | Lifecycle lifecycle_error
  | Target target_error
  | RunbookPair runbook_error
  | Observer observer_error
  | Evidence evidence_error
  | Query query_error
  | DeadlineExceeded
  | External string

section \<open>Results\<close>

text \<open>The idiom \<open>x, err := m; if err != nil { return err }; f(x)\<close>.\<close>

definition bindR :: "error + 'a \<Rightarrow> ('a \<Rightarrow> error + 'b) \<Rightarrow> error + 'b" where
  "bindR m f = (case m of Inl e \<Rightarrow> Inl e | Inr x \<Rightarrow> f x)"

lemma bindR_simps [simp]:
  "bindR (Inl e) f = Inl e"
  "bindR (Inr x) f = f x"
  by (simp_all add: bindR_def)

lemma bindR_eq_Inr [result_simps]:
  "bindR m f = Inr y \<longleftrightarrow> (\<exists>x. m = Inr x \<and> f x = Inr y)"
  by (cases m) auto

lemma bindR_eq_Inl [result_simps]:
  "bindR m f = Inl e \<longleftrightarrow> m = Inl e \<or> (\<exists>x. m = Inr x \<and> f x = Inl e)"
  by (cases m) auto

text \<open>The idiom of a sequence of checks that returns the first error.\<close>

fun first_error :: "error option list \<Rightarrow> error option" where
  "first_error [] = None"
| "first_error (Some e # _) = Some e"
| "first_error (None # rest) = first_error rest"

lemma first_error_None [result_simps]:
  "first_error es = None \<longleftrightarrow> (\<forall>e \<in> set es. e = None)"
  by (induction es rule: first_error.induct) auto

lemma first_error_append:
  "first_error (xs @ ys) = (case first_error xs of None \<Rightarrow> first_error ys | Some e \<Rightarrow> Some e)"
  by (induction xs rule: first_error.induct) auto

section \<open>Time\<close>

type_synonym Time = int
type_synonym Duration = int

abbreviation IsZero :: "Time \<Rightarrow> bool" where
  "IsZero t \<equiv> t = 0"

definition minInt64 :: int where "minInt64 = - (2 ^ 63)"
definition maxInt64 :: int where "maxInt64 = 2 ^ 63 - 1"

text \<open>Two's-complement wrap-around of 64-bit signed arithmetic.\<close>

definition wrap64 :: "int \<Rightarrow> int" where
  "wrap64 x = (x + 2 ^ 63) mod 2 ^ 64 - 2 ^ 63"

lemma wrap64_id: "minInt64 \<le> x \<Longrightarrow> x \<le> maxInt64 \<Longrightarrow> wrap64 x = x"
  by (simp add: wrap64_def minInt64_def maxInt64_def)

lemma wrap64_range: "minInt64 \<le> wrap64 x \<and> wrap64 x \<le> maxInt64"
  by (simp add: wrap64_def minInt64_def maxInt64_def)

text \<open>\<open>Time.Sub\<close> saturates at the ends of the \<open>Duration\<close> range.\<close>

definition timeSub :: "Time \<Rightarrow> Time \<Rightarrow> Duration" where
  "timeSub t u = max minInt64 (min maxInt64 (t - u))"

lemma timeSub_ge_iff:
  "d \<le> maxInt64 \<Longrightarrow> minInt64 < d \<Longrightarrow> d \<le> timeSub t u \<longleftrightarrow> u + d \<le> t"
  unfolding timeSub_def by linarith

text \<open>1970-01-01, and the seconds since then, rounded down (\<open>Time.Unix\<close>).\<close>

definition unixEpoch :: Time where "unixEpoch = 62135596800 * 10 ^ 9"

definition Unix :: "Time \<Rightarrow> int" where
  "Unix t = (t - unixEpoch) div 10 ^ 9"

definition Millisecond :: Duration where "Millisecond = 1000000"
definition Second :: Duration where "Second = 1000 * Millisecond"
definition Minute :: Duration where "Minute = 60 * Second"
definition Hour :: Duration where "Hour = 60 * Minute"

section \<open>Strings\<close>

text \<open>
  A Go string is a sequence of bytes. \<open>strings.TrimSpace\<close> removes the Unicode white space of
  both ends: the six ASCII characters and the UTF-8 encodings of U+0085, U+00A0, U+1680,
  U+2000 to U+200A, U+2028, U+2029, U+202F, U+205F and U+3000.
\<close>

definition spaceSeqs :: "string list" where
  "spaceSeqs =
     [[CHR 0x20], [CHR 0x09], [CHR 0x0A], [CHR 0x0B], [CHR 0x0C], [CHR 0x0D],
      [CHR 0xC2, CHR 0x85], [CHR 0xC2, CHR 0xA0], [CHR 0xE1, CHR 0x9A, CHR 0x80],
      [CHR 0xE2, CHR 0x80, CHR 0x80], [CHR 0xE2, CHR 0x80, CHR 0x81],
      [CHR 0xE2, CHR 0x80, CHR 0x82], [CHR 0xE2, CHR 0x80, CHR 0x83],
      [CHR 0xE2, CHR 0x80, CHR 0x84], [CHR 0xE2, CHR 0x80, CHR 0x85],
      [CHR 0xE2, CHR 0x80, CHR 0x86], [CHR 0xE2, CHR 0x80, CHR 0x87],
      [CHR 0xE2, CHR 0x80, CHR 0x88], [CHR 0xE2, CHR 0x80, CHR 0x89],
      [CHR 0xE2, CHR 0x80, CHR 0x8A], [CHR 0xE2, CHR 0x80, CHR 0xA8],
      [CHR 0xE2, CHR 0x80, CHR 0xA9], [CHR 0xE2, CHR 0x80, CHR 0xAF],
      [CHR 0xE2, CHR 0x81, CHR 0x9F], [CHR 0xE3, CHR 0x80, CHR 0x80]]"

fun stripOne :: "string list \<Rightarrow> string \<Rightarrow> string option" where
  "stripOne [] s = None"
| "stripOne (p # ps) s =
     (if p \<noteq> [] \<and> take (length p) s = p then Some (drop (length p) s) else stripOne ps s)"

lemma stripOne_shorter: "stripOne ps s = Some r \<Longrightarrow> length r < length s"
proof (induction ps)
  case Nil
  then show ?case by simp
next
  case (Cons p ps)
  show ?case
  proof (cases "p \<noteq> [] \<and> take (length p) s = p")
    case True
    then have "s \<noteq> []" by auto
    with True Cons.prems show ?thesis by auto
  next
    case False
    with Cons show ?thesis by auto
  qed
qed

function trimSeqs :: "string list \<Rightarrow> string \<Rightarrow> string" where
  "trimSeqs ps s = (case stripOne ps s of None \<Rightarrow> s | Some r \<Rightarrow> trimSeqs ps r)"
  by pat_completeness auto
termination
  by (relation "measure (\<lambda>(ps, s). length s)") (auto dest: stripOne_shorter)

declare trimSeqs.simps [simp del]

definition TrimSpace :: "string \<Rightarrow> string" where
  "TrimSpace s = rev (trimSeqs (map rev spaceSeqs) (rev (trimSeqs spaceSeqs s)))"

definition HasPrefix :: "string \<Rightarrow> string \<Rightarrow> bool" where
  "HasPrefix s p \<longleftrightarrow> take (length p) s = p"

fun containsSub :: "string \<Rightarrow> string \<Rightarrow> bool" where
  "containsSub [] sub = (sub = [])"
| "containsSub (c # cs) sub = (take (length sub) (c # cs) = sub \<or> containsSub cs sub)"

definition NUL :: char where "NUL = CHR 0x00"

lemma HasPrefix_append [simp]: "HasPrefix (p @ s) p"
  by (simp add: HasPrefix_def)

text \<open>
  \<open>validToken\<close> is declared identically in \<open>recovery/coordinator.go\<close> and
  \<open>delivery/delivery.go\<close>: non-empty, bounded, no white space at either end, no NUL byte.
\<close>

definition validToken :: "string \<Rightarrow> nat \<Rightarrow> bool" where
  "validToken value limit \<longleftrightarrow>
     value \<noteq> [] \<and> length value \<le> limit \<and> TrimSpace value = value \<and> NUL \<notin> set value"

lemma validToken_nonempty: "validToken v n \<Longrightarrow> v \<noteq> []"
  by (simp add: validToken_def)

lemma validToken_noNUL: "validToken v n \<Longrightarrow> NUL \<notin> set v"
  by (simp add: validToken_def)

subsection \<open>Decimal numerals\<close>

definition digitChar :: "nat \<Rightarrow> char" where
  "digitChar d = char_of (48 + d)"

fun decimal :: "nat \<Rightarrow> string" where
  "decimal n = (if n < 10 then [digitChar n] else decimal (n div 10) @ [digitChar (n mod 10)])"

declare decimal.simps [simp del]

text \<open>\<open>strconv.Itoa\<close>.\<close>

definition Itoa :: "int \<Rightarrow> string" where
  "Itoa i = (if i < 0 then CHR ''-'' # decimal (nat (- i)) else decimal (nat i))"

definition decimalValue :: "string \<Rightarrow> nat" where
  "decimalValue s = foldl (\<lambda>acc c. 10 * acc + (of_char c - 48)) 0 s"

lemma decimalValue_snoc [simp]:
  "decimalValue (s @ [c]) = 10 * decimalValue s + (of_char c - 48)"
  by (simp add: decimalValue_def)

lemma of_char_digitChar: "d < 10 \<Longrightarrow> of_char (digitChar d) = (48 + d :: nat)"
  by (simp add: digitChar_def)

lemma decimalValue_decimal: "decimalValue (decimal n) = n"
proof (induction n rule: decimal.induct)
  case (1 n)
  show ?case
  proof (cases "n < 10")
    case True
    then show ?thesis
      by (simp add: decimal.simps [of n] decimalValue_def of_char_digitChar)
  next
    case False
    with 1 have "decimalValue (decimal (n div 10)) = n div 10" by simp
    with False show ?thesis
      by (simp add: decimal.simps [of n] of_char_digitChar)
  qed
qed

lemma decimal_inj: "decimal m = decimal n \<Longrightarrow> m = n"
  by (metis decimalValue_decimal)

lemma decimal_digits: "c \<in> set (decimal n) \<Longrightarrow> \<exists>d<10. c = digitChar d"
proof (induction n rule: decimal.induct)
  case (1 n)
  show ?case
  proof (cases "n < 10")
    case True
    with 1 show ?thesis by (auto simp: decimal.simps [of n])
  next
    case False
    with 1 have "c \<in> set (decimal (n div 10)) \<or> c = digitChar (n mod 10)"
      by (auto simp: decimal.simps [of n])
    moreover have "n mod 10 < 10" by simp
    ultimately show ?thesis using 1 False by blast
  qed
qed

lemma digitChar_ge:
  assumes "d < 10"
  shows "48 \<le> (of_char (digitChar d) :: nat)"
  using assms by (simp add: of_char_digitChar)

lemma decimal_char_ge:
  assumes "c \<in> set (decimal n)"
  shows "48 \<le> (of_char c :: nat)"
  using decimal_digits [OF assms] digitChar_ge by auto

lemma decimal_no_minus: "CHR ''-'' \<notin> set (decimal n)"
  using decimal_char_ge [of "CHR ''-''" n] by auto

lemma decimal_noNUL: "NUL \<notin> set (decimal n)"
  using decimal_char_ge [of NUL n] by (auto simp: NUL_def)

lemma Itoa_noNUL: "NUL \<notin> set (Itoa i)"
  by (auto simp: Itoa_def decimal_noNUL) (simp add: NUL_def)

lemma Itoa_sign: "i < 0 \<longleftrightarrow> CHR ''-'' \<in> set (Itoa i)"
  by (simp add: Itoa_def decimal_no_minus)

lemma Itoa_inj:
  assumes "Itoa i = Itoa j"
  shows "i = j"
proof (cases "i < 0")
  case True
  then have "j < 0" using assms by (simp add: Itoa_sign)
  with True assms have "decimal (nat (- i)) = decimal (nat (- j))"
    by (simp add: Itoa_def)
  with True \<open>j < 0\<close> show ?thesis by (auto dest: decimal_inj)
next
  case False
  then have "\<not> j < 0" using assms by (simp add: Itoa_sign)
  with False assms have "decimal (nat i) = decimal (nat j)"
    by (simp add: Itoa_def)
  with False \<open>\<not> j < 0\<close> show ?thesis by (auto dest: decimal_inj)
qed

subsection \<open>Joining fields with a separator\<close>

text \<open>\<open>strings.Join(values, "\x00") + "\x00"\<close>: every field is followed by one NUL.\<close>

definition nulJoin :: "string list \<Rightarrow> string" where
  "nulJoin vs = concat (map (\<lambda>v. v @ [NUL]) vs)"

lemma nul_terminated_split:
  "NUL \<notin> set a \<Longrightarrow> NUL \<notin> set b \<Longrightarrow> a @ NUL # r = b @ NUL # s \<Longrightarrow> a = b \<and> r = s"
proof (induction a arbitrary: b)
  case Nil
  then show ?case by (cases b) simp_all
next
  case (Cons x a)
  then obtain b' where b: "b = x # b'" "NUL \<notin> set b'" "a @ NUL # r = b' @ NUL # s"
    by (cases b) auto
  from Cons.prems(1) have "NUL \<notin> set a" by simp
  from Cons.IH [OF this b(2,3)] b(1) show ?case by simp
qed

lemma nulJoin_inj:
  assumes "length vs = length ws"
    and "\<forall>v \<in> set vs. NUL \<notin> set v" and "\<forall>w \<in> set ws. NUL \<notin> set w"
    and "nulJoin vs = nulJoin ws"
  shows "vs = ws"
  using assms
proof (induction vs ws rule: list_induct2)
  case Nil
  then show ?case by simp
next
  case (Cons v vs w ws)
  from Cons.prems(3) have "v @ NUL # nulJoin vs = w @ NUL # nulJoin ws"
    by (simp add: nulJoin_def)
  moreover from Cons.prems(1,2) have "NUL \<notin> set v" and "NUL \<notin> set w" by simp_all
  ultimately have eq: "v = w" "nulJoin vs = nulJoin ws"
    using nul_terminated_split [of v w] by blast+
  from Cons.prems(1,2) have "vs = ws"
    by (intro Cons.IH eq(2)) simp_all
  with eq(1) show ?case by simp
qed

section \<open>Strictly sorted association lists\<close>

definition keys_sorted :: "('k::linorder \<times> 'v) list \<Rightarrow> bool" where
  "keys_sorted xs \<longleftrightarrow> sorted_wrt (<) (map fst xs)"

lemma keys_sorted_distinct: "keys_sorted xs \<Longrightarrow> distinct (map fst xs)"
  by (simp add: keys_sorted_def strict_sorted_iff)

lemma keys_sorted_Cons:
  "keys_sorted ((k, v) # xs) \<longleftrightarrow> (\<forall>x \<in> set xs. k < fst x) \<and> keys_sorted xs"
  by (auto simp: keys_sorted_def)

lemma keys_sorted_snoc:
  "keys_sorted xs \<Longrightarrow> (\<And>x. x \<in> set xs \<Longrightarrow> fst x < k) \<Longrightarrow> keys_sorted (xs @ [(k, v)])"
  by (auto simp: keys_sorted_def sorted_wrt_append)

lemma map_fst_unique:
  assumes "map fst xs = map fst ys"
    and "\<And>x y. x \<in> set xs \<Longrightarrow> y \<in> set ys \<Longrightarrow> fst x = fst y \<Longrightarrow> x = y"
  shows "xs = ys"
proof (rule nth_equalityI)
  show len: "length xs = length ys"
    using map_eq_imp_length_eq [OF assms(1)] .
  fix i
  assume i: "i < length xs"
  then have "fst (xs ! i) = fst (ys ! i)"
    using assms(1) len nth_map [of i xs fst] nth_map [of i ys fst] by simp
  with i len show "xs ! i = ys ! i"
    using assms(2) by simp
qed

text \<open>A strictly sorted association list is determined by its lookup function.\<close>

lemma keys_sorted_unique:
  assumes "keys_sorted xs" and "keys_sorted ys" and "map_of xs = map_of ys"
  shows "xs = ys"
proof -
  have dx: "distinct (map fst xs)" and dy: "distinct (map fst ys)"
    using assms(1,2) by (simp_all add: keys_sorted_distinct)
  have sets: "set xs = set ys"
    using map_of_inject_set [OF dx dy] assms(3) by simp
  then have "set (map fst xs) = set (map fst ys)" by simp
  then have keys: "map fst xs = map fst ys"
    using strict_sorted_equal assms(1,2) unfolding keys_sorted_def by blast
  show ?thesis
  proof (rule map_fst_unique [OF keys])
    fix x y
    assume x: "x \<in> set xs" and y: "y \<in> set ys" and f: "fst x = fst y"
    from x have "(fst x, snd x) \<in> set xs" by simp
    moreover from y f sets have "(fst x, snd y) \<in> set xs" by simp
    ultimately have "snd x = snd y" by (rule eq_key_imp_eq_value [OF dx])
    with f show "x = y" by (rule prod_eqI)
  qed
qed

end
