(* ===== verification/Contracts.thy ===== *)
theory Contracts
  imports Prelude
begin

text \<open>
  The versioned data contracts of \<open>src/internal/contract/contracts.go\<close>: one datatype per
  string enumeration, one record per struct, one function per \<open>Validate\<close> method and per
  lifecycle predicate. A Go enumeration is a string type, so every datatype has, beside the
  source's constants, a constructor for the strings outside them; the empty string (the zero
  value) is that constructor applied to the empty list. Record fields carry a prefix because
  Isabelle's field names are global.
\<close>

section \<open>Enumerations\<close>

definition SchemaVersionV1 :: string where "SchemaVersionV1 = ''v1''"

definition maxReferenceCount :: nat where "maxReferenceCount = 64"

datatype DeploymentProfile = DeploymentStandalone | DeploymentOther string

datatype AgentStatus =
  AgentStarting | AgentRunning | AgentStopping | AgentStopped | AgentFailed | AgentOther string

datatype Severity = SeverityInfo | SeverityWarning | SeverityCritical | SeverityOther string

datatype NormalizedState = StateHealthy | StateUnhealthy | StateUnknown | StateOther string

datatype RiskTier = RiskLow | RiskMedium | RiskHigh | RiskOther string

datatype ActionType =
  ActionDockerContainerRestart | ActionDockerComposeServiceRestart | ActionOther string

datatype ApprovalDecision = ApprovalGranted | ApprovalDenied | ApprovalOther string

datatype NotificationRecommendation =
  NotificationNone | NotificationNotify | NotificationPage | NotificationOther string

datatype IncidentState =
  IncidentOpen | IncidentAnalyzing | IncidentAwaitingApproval | IncidentRecovering
| IncidentStabilizing | IncidentClosed | IncidentFailed | IncidentOther string

datatype RecoveryCommandState =
  RecoveryPending | RecoveryApproved | RecoveryExecuting | RecoveryStabilizing
| RecoverySucceeded | RecoveryFailed | RecoveryDenied | RecoveryExpired | RecoveryOther string

datatype DeliveryPayloadType =
  DeliveryPayloadLifecycleEvent | DeliveryPayloadIncidentReport | DeliveryPayloadOther string

datatype DeliveryState =
  DeliveryPending | DeliveryDelivered | DeliveryExpired | DeliveryFailed | DeliveryOther string

datatype ConfidenceLabel = ConfidenceLow | ConfidenceMedium | ConfidenceHigh | ConfidenceOther string

datatype LifecycleEventType =
  LifecycleIncidentConfirmed | LifecycleAnalysisUnavailable | LifecyclePolicyDenied
| LifecycleApprovalRequested | LifecycleRecoveryStarted | LifecycleIncidentClosed
| LifecycleIncidentFailed | LifecycleOther string

section \<open>Structs\<close>

text \<open>
  A \<open>float64\<close> is a NaN, an infinity or a finite (rational) number; comparisons with a NaN are
  false.
\<close>

datatype float64 = NaN | PosInf | NegInf | Fin rat

fun float_less :: "float64 \<Rightarrow> float64 \<Rightarrow> bool" where
  "float_less NaN _ = False"
| "float_less _ NaN = False"
| "float_less PosInf _ = False"
| "float_less _ NegInf = False"
| "float_less NegInf _ = True"
| "float_less _ PosInf = True"
| "float_less (Fin a) (Fin b) = (a < b)"

record AgentInstance =
  ai_SchemaVersion :: string
  ai_InstanceID :: string
  ai_DeploymentProfile :: DeploymentProfile
  ai_HostID :: string
  ai_Capabilities :: "string list"
  ai_StartedAt :: Time
  ai_LastCycleAt :: Time
  ai_Status :: AgentStatus

record EvidencePolicy =
  ep_RedactionProfile :: string
  ep_MaxBytes :: int

record StabilizationPolicy =
  sp_RecoverySamples :: int
  sp_Window :: Duration

record ProbeRule =
  pr_RuleID :: string
  pr_SignalType :: string
  pr_Interval :: Duration
  pr_Timeout :: Duration
  pr_Threshold :: float64
  pr_ConsecutiveFailures :: int
  pr_RecoverySamples :: int
  pr_SLOWindow :: Duration
  pr_Severity :: Severity

record ServiceTarget =
  st_SchemaVersion :: string
  st_TargetID :: string
  st_AdapterType :: string
  st_Selector :: string
  st_ProbeRules :: "ProbeRule list"
  st_EvidencePolicy :: EvidencePolicy
  st_StabilizationPolicy :: StabilizationPolicy
  st_Enabled :: bool

record HealthObservation =
  ho_SchemaVersion :: string
  ho_ObservationID :: string
  ho_TargetID :: string
  ho_RuleID :: string
  ho_TargetSnapshotVersion :: nat
  ho_ObservedAt :: Time
  ho_NormalizedState :: NormalizedState
  ho_BoundedValues :: "(string \<times> float64) list"
  ho_EvidenceRefs :: "string list"
  ho_Sequence :: nat

record Incident =
  in_SchemaVersion :: string
  in_IncidentID :: string
  in_DedupeKey :: string
  in_TargetID :: string
  in_RuleIDs :: "string list"
  in_State :: IncidentState
  in_Severity :: Severity
  in_OpenedAt :: Time
  in_AnalysisRef :: string
  in_SelectedRunbookID :: string
  in_TerminalAt :: Time

record TargetConstraint =
  tc_Field :: string
  tc_Value :: string

record TypedAction =
  ta_ActionType :: ActionType
  ta_TargetSelector :: string
  ta_StopTimeout :: Duration
  ta_Cooldown :: Duration

record ApprovalPolicy =
  ap_Required :: bool

record RetryPolicy =
  rp_MaxAttempts :: int

record Runbook =
  rb_SchemaVersion :: string
  rb_RunbookID :: string
  rb_Version :: string
  rb_Digest :: string
  rb_AdapterType :: string
  rb_TargetConstraints :: "TargetConstraint list"
  rb_TypedActions :: "TypedAction list"
  rb_RiskTier :: RiskTier
  rb_AutoExecute :: bool
  rb_ApprovalPolicy :: ApprovalPolicy
  rb_Preconditions :: "string list"
  rb_RetryPolicy :: RetryPolicy
  rb_StabilizationPolicy :: StabilizationPolicy

record Hypothesis =
  hy_Summary :: string
  hy_EvidenceRefs :: "string list"

record AnalysisResult =
  ar_SchemaVersion :: string
  ar_IncidentID :: string
  ar_Hypotheses :: "Hypothesis list"
  ar_EvidenceRefs :: "string list"
  ar_ConfidenceLabels :: "ConfidenceLabel list"
  ar_NotificationRecommendation :: NotificationRecommendation
  ar_CandidateRunbookIDs :: "string list"
  ar_MissingEvidence :: "string list"

record RecoveryCommand =
  rc_SchemaVersion :: string
  rc_CommandID :: string
  rc_IncidentID :: string
  rc_RunbookID :: string
  rc_RunbookDigest :: string
  rc_TargetID :: string
  rc_ActionIndex :: int
  rc_RiskTier :: RiskTier
  rc_ApprovalID :: string
  rc_IssuedAt :: Time
  rc_ExpiresAt :: Time
  rc_IdempotencyKey :: string
  rc_State :: RecoveryCommandState

record Approval =
  av_SchemaVersion :: string
  av_ApprovalID :: string
  av_CommandID :: string
  av_Decision :: ApprovalDecision
  av_ApproverIdentity :: string
  av_Reason :: string
  av_CreatedAt :: Time
  av_ExpiresAt :: Time

record AuditEvent =
  ae_SchemaVersion :: string
  ae_EventID :: string
  ae_AggregateType :: string
  ae_AggregateID :: string
  ae_ActorIdentity :: string
  ae_Action :: string
  ae_Result :: string
  ae_ReasonCode :: string
  ae_OccurredAt :: Time
  ae_PreviousDigest :: string
  ae_Digest :: string

record ReportAction =
  ra_CommandID :: string
  ra_ActionType :: ActionType
  ra_Result :: string

record IncidentReport =
  ir_SchemaVersion :: string
  ir_ReportID :: string
  ir_IncidentID :: string
  ir_Hypotheses :: "Hypothesis list"
  ir_EvidenceRefs :: "string list"
  ir_Actions :: "ReportAction list"
  ir_Approvals :: "string list"
  ir_VerificationResult :: string
  ir_PreventionRecommendations :: "string list"
  ir_PostmortemDraft :: string
  ir_RunbookImprovementSuggestions :: "string list"
  ir_DeliveryStatus :: DeliveryState

record DeliveryQueueItem =
  dq_SchemaVersion :: string
  dq_DeliveryID :: string
  dq_PayloadType :: DeliveryPayloadType
  dq_PayloadRef :: string
  dq_WebhookID :: string
  dq_DestinationRef :: string
  dq_AttemptCount :: int
  dq_NextAttemptAt :: Time
  dq_ExpiresAt :: Time
  dq_State :: DeliveryState

record LifecycleEvent =
  le_SchemaVersion :: string
  le_EventID :: string
  le_EventType :: LifecycleEventType
  le_IncidentID :: string
  le_OccurredAt :: Time
  le_ReasonCode :: string
  le_EvidenceRefs :: "string list"

record WebhookEnvelope =
  we_SchemaVersion :: string
  we_EventID :: string
  we_EventType :: LifecycleEventType
  we_OccurredAt :: Time
  we_PayloadRef :: string

section \<open>Validation\<close>

definition invalid :: "string \<Rightarrow> error option" where
  "invalid name = Some (Contract ErrInvalidContract)"

definition validateVersion :: "string \<Rightarrow> error option" where
  "validateVersion version = (if version \<noteq> SchemaVersionV1 then invalid ''schema version'' else None)"

definition required :: "string \<Rightarrow> string \<Rightarrow> error option" where
  "required name val = (if val = '''' then Some (Contract ErrInvalidContract) else None)"

fun oneOf :: "'a \<Rightarrow> 'a list \<Rightarrow> bool" where
  "oneOf val [] = False"
| "oneOf val (candidate # rest) = (if val = candidate then True else oneOf val rest)"

definition validIncidentState :: "IncidentState \<Rightarrow> bool" where
  "validIncidentState s =
     oneOf s [IncidentOpen, IncidentAnalyzing, IncidentAwaitingApproval, IncidentRecovering,
              IncidentStabilizing, IncidentClosed, IncidentFailed]"

definition terminalIncident :: "IncidentState \<Rightarrow> bool" where
  "terminalIncident s \<longleftrightarrow> s = IncidentClosed \<or> s = IncidentFailed"

definition validRecoveryState :: "RecoveryCommandState \<Rightarrow> bool" where
  "validRecoveryState s =
     oneOf s [RecoveryPending, RecoveryApproved, RecoveryExecuting, RecoveryStabilizing,
              RecoverySucceeded, RecoveryFailed, RecoveryDenied, RecoveryExpired]"

definition validDeliveryState :: "DeliveryState \<Rightarrow> bool" where
  "validDeliveryState s =
     oneOf s [DeliveryPending, DeliveryDelivered, DeliveryExpired, DeliveryFailed]"

definition validLifecycleEvent :: "LifecycleEventType \<Rightarrow> bool" where
  "validLifecycleEvent t =
     oneOf t [LifecycleIncidentConfirmed, LifecycleAnalysisUnavailable, LifecyclePolicyDenied,
              LifecycleApprovalRequested, LifecycleRecoveryStarted, LifecycleIncidentClosed,
              LifecycleIncidentFailed]"

definition Incident_Validate :: "Incident \<Rightarrow> error option" where
  "Incident_Validate i = first_error
     [validateVersion (in_SchemaVersion i),
      required ''incident_id'' (in_IncidentID i),
      required ''target_id'' (in_TargetID i),
      (if \<not> validIncidentState (in_State i) \<or> IsZero (in_OpenedAt i) \<or> in_RuleIDs i = []
          \<or> length (in_RuleIDs i) > maxReferenceCount
       then invalid ''incident'' else None),
      (if terminalIncident (in_State i) \<noteq> (\<not> IsZero (in_TerminalAt i))
       then invalid ''incident terminal time'' else None)]"

definition AnalysisResult_Validate :: "AnalysisResult \<Rightarrow> error option" where
  "AnalysisResult_Validate a = first_error (
     [validateVersion (ar_SchemaVersion a),
      required ''incident_id'' (ar_IncidentID a),
      (if ar_Hypotheses a = [] \<or> length (ar_Hypotheses a) > maxReferenceCount
          \<or> length (ar_EvidenceRefs a) > maxReferenceCount
          \<or> length (ar_ConfidenceLabels a) > maxReferenceCount
          \<or> length (ar_CandidateRunbookIDs a) > maxReferenceCount
          \<or> length (ar_MissingEvidence a) > maxReferenceCount
          \<or> \<not> oneOf (ar_NotificationRecommendation a)
                [NotificationNone, NotificationNotify, NotificationPage]
       then invalid ''analysis result'' else None)]
     @ map (\<lambda>h. first_error
         [required ''hypothesis summary'' (hy_Summary h),
          (if length (hy_EvidenceRefs h) > maxReferenceCount
           then invalid ''hypothesis evidence refs'' else None)]) (ar_Hypotheses a)
     @ map (\<lambda>l. if \<not> oneOf l [ConfidenceLow, ConfidenceMedium, ConfidenceHigh]
                 then invalid ''confidence label'' else None) (ar_ConfidenceLabels a))"

definition RecoveryCommand_Validate :: "RecoveryCommand \<Rightarrow> error option" where
  "RecoveryCommand_Validate r = first_error
     [validateVersion (rc_SchemaVersion r),
      required ''command_id'' (rc_CommandID r),
      (if \<not> validRecoveryState (rc_State r) \<or> rc_ActionIndex r < 0 \<or> IsZero (rc_IssuedAt r)
          \<or> IsZero (rc_ExpiresAt r) \<or> \<not> rc_ExpiresAt r > rc_IssuedAt r
       then invalid ''recovery command'' else None)]"

definition IncidentReport_Validate :: "IncidentReport \<Rightarrow> error option" where
  "IncidentReport_Validate r = first_error (
     [validateVersion (ir_SchemaVersion r),
      required ''report_id'' (ir_ReportID r),
      required ''incident_id'' (ir_IncidentID r),
      (if ir_Hypotheses r = [] \<or> length (ir_Hypotheses r) > maxReferenceCount
          \<or> length (ir_EvidenceRefs r) > maxReferenceCount
          \<or> length (ir_Actions r) > maxReferenceCount
          \<or> length (ir_Approvals r) > maxReferenceCount
          \<or> ir_PreventionRecommendations r = []
          \<or> length (ir_PreventionRecommendations r) > maxReferenceCount
          \<or> ir_RunbookImprovementSuggestions r = []
          \<or> length (ir_RunbookImprovementSuggestions r) > maxReferenceCount
          \<or> \<not> validDeliveryState (ir_DeliveryStatus r)
       then invalid ''incident report'' else None),
      required ''verification result'' (ir_VerificationResult r),
      required ''postmortem draft'' (ir_PostmortemDraft r)]
     @ map (\<lambda>h. first_error (
         (if required ''report hypothesis summary'' (hy_Summary h) \<noteq> None
             \<or> length (hy_EvidenceRefs h) > maxReferenceCount
          then invalid ''report hypothesis'' else None)
         # map (required ''report hypothesis evidence reference'') (hy_EvidenceRefs h)))
       (ir_Hypotheses r)
     @ map (required ''report evidence reference'') (ir_EvidenceRefs r)
     @ map (\<lambda>a. first_error
         [required ''report action command id'' (ra_CommandID a),
          (if \<not> oneOf (ra_ActionType a)
                [ActionDockerContainerRestart, ActionDockerComposeServiceRestart]
           then invalid ''report action type'' else None),
          required ''report action result'' (ra_Result a)]) (ir_Actions r)
     @ map (required ''report approval'') (ir_Approvals r)
     @ map (required ''prevention recommendation'') (ir_PreventionRecommendations r)
     @ map (required ''runbook improvement suggestion'') (ir_RunbookImprovementSuggestions r))"

definition DeliveryQueueItem_Validate :: "DeliveryQueueItem \<Rightarrow> error option" where
  "DeliveryQueueItem_Validate d = first_error
     [validateVersion (dq_SchemaVersion d),
      required ''delivery_id'' (dq_DeliveryID d),
      required ''payload_ref'' (dq_PayloadRef d),
      required ''webhook_id'' (dq_WebhookID d),
      required ''destination_ref'' (dq_DestinationRef d),
      (if (dq_PayloadType d \<noteq> DeliveryPayloadLifecycleEvent
             \<and> dq_PayloadType d \<noteq> DeliveryPayloadIncidentReport)
          \<or> dq_AttemptCount d < 0 \<or> IsZero (dq_NextAttemptAt d) \<or> IsZero (dq_ExpiresAt d)
          \<or> \<not> dq_ExpiresAt d > dq_NextAttemptAt d \<or> \<not> validDeliveryState (dq_State d)
       then invalid ''delivery queue item'' else None)]"

definition LifecycleEvent_Validate :: "LifecycleEvent \<Rightarrow> error option" where
  "LifecycleEvent_Validate l = first_error (
     [validateVersion (le_SchemaVersion l),
      required ''event_id'' (le_EventID l),
      required ''incident_id'' (le_IncidentID l),
      (if \<not> validLifecycleEvent (le_EventType l) \<or> IsZero (le_OccurredAt l)
          \<or> length (le_EvidenceRefs l) > maxReferenceCount
       then invalid ''lifecycle event'' else None)]
     @ map (required ''lifecycle evidence reference'') (le_EvidenceRefs l))"

definition WebhookEnvelope_Validate :: "WebhookEnvelope \<Rightarrow> error option" where
  "WebhookEnvelope_Validate w = first_error
     [validateVersion (we_SchemaVersion w),
      required ''event_id'' (we_EventID w),
      required ''payload_ref'' (we_PayloadRef w),
      (if \<not> validLifecycleEvent (we_EventType w) \<or> IsZero (we_OccurredAt w)
       then invalid ''webhook envelope'' else None)]"

section \<open>Lifecycles\<close>

fun Incident_CanTransitionTo :: "IncidentState \<Rightarrow> IncidentState \<Rightarrow> bool" where
  "Incident_CanTransitionTo IncidentOpen n =
     (n = IncidentAnalyzing \<or> n = IncidentClosed \<or> n = IncidentFailed)"
| "Incident_CanTransitionTo IncidentAnalyzing n =
     (n = IncidentAwaitingApproval \<or> n = IncidentRecovering \<or> n = IncidentClosed
      \<or> n = IncidentFailed)"
| "Incident_CanTransitionTo IncidentAwaitingApproval n =
     (n = IncidentRecovering \<or> n = IncidentClosed \<or> n = IncidentFailed)"
| "Incident_CanTransitionTo IncidentRecovering n =
     (n = IncidentStabilizing \<or> n = IncidentFailed)"
| "Incident_CanTransitionTo IncidentStabilizing n = (n = IncidentClosed \<or> n = IncidentFailed)"
| "Incident_CanTransitionTo _ n = False"

definition Incident_ValidateTransition :: "IncidentState \<Rightarrow> IncidentState \<Rightarrow> error option" where
  "Incident_ValidateTransition i n =
     (if \<not> Incident_CanTransitionTo i n then Some (Contract ErrInvalidStateTransition) else None)"

fun Recovery_CanTransitionTo :: "RecoveryCommandState \<Rightarrow> RecoveryCommandState \<Rightarrow> bool" where
  "Recovery_CanTransitionTo RecoveryPending n =
     (n = RecoveryApproved \<or> n = RecoveryDenied \<or> n = RecoveryExpired)"
| "Recovery_CanTransitionTo RecoveryApproved n = (n = RecoveryExecuting \<or> n = RecoveryExpired)"
| "Recovery_CanTransitionTo RecoveryExecuting n = (n = RecoveryStabilizing \<or> n = RecoveryFailed)"
| "Recovery_CanTransitionTo RecoveryStabilizing n = (n = RecoverySucceeded \<or> n = RecoveryFailed)"
| "Recovery_CanTransitionTo _ n = False"

definition Recovery_ValidateTransition ::
    "RecoveryCommandState \<Rightarrow> RecoveryCommandState \<Rightarrow> error option" where
  "Recovery_ValidateTransition r n =
     (if \<not> Recovery_CanTransitionTo r n then Some (Contract ErrInvalidStateTransition) else None)"

section \<open>Library lemmas\<close>

lemmas contract_check_defs = invalid_def validateVersion_def required_def

lemma invalid_neq_None [simp]: "invalid n \<noteq> None"
  by (simp add: invalid_def)

lemma validateVersion_None [simp]: "validateVersion v = None \<longleftrightarrow> v = SchemaVersionV1"
  by (simp add: validateVersion_def)

lemma required_None [simp]: "required n v = None \<longleftrightarrow> v \<noteq> []"
  by (simp add: required_def)

lemma oneOf_set [simp]: "oneOf x xs \<longleftrightarrow> x \<in> set xs"
  by (induction xs) auto

lemma Incident_ValidateTransition_None [simp]:
  "Incident_ValidateTransition s t = None \<longleftrightarrow> Incident_CanTransitionTo s t"
  by (simp add: Incident_ValidateTransition_def)

lemma Recovery_ValidateTransition_None [simp]:
  "Recovery_ValidateTransition s t = None \<longleftrightarrow> Recovery_CanTransitionTo s t"
  by (simp add: Recovery_ValidateTransition_def)

lemma RecoveryCommand_Validate_iff:
  "RecoveryCommand_Validate r = None \<longleftrightarrow>
     rc_SchemaVersion r = SchemaVersionV1 \<and> rc_CommandID r \<noteq> [] \<and> validRecoveryState (rc_State r)
     \<and> 0 \<le> rc_ActionIndex r \<and> rc_IssuedAt r \<noteq> 0 \<and> rc_ExpiresAt r \<noteq> 0
     \<and> rc_IssuedAt r < rc_ExpiresAt r"
  by (auto simp: RecoveryCommand_Validate_def result_simps not_less split: if_splits)

lemma Incident_Validate_iff:
  "Incident_Validate i = None \<longleftrightarrow>
     in_SchemaVersion i = SchemaVersionV1 \<and> in_IncidentID i \<noteq> [] \<and> in_TargetID i \<noteq> []
     \<and> validIncidentState (in_State i) \<and> in_OpenedAt i \<noteq> 0 \<and> in_RuleIDs i \<noteq> []
     \<and> length (in_RuleIDs i) \<le> maxReferenceCount
     \<and> (terminalIncident (in_State i) \<longleftrightarrow> in_TerminalAt i \<noteq> 0)"
  by (auto simp: Incident_Validate_def result_simps split: if_splits)

lemma DeliveryQueueItem_Validate_iff:
  "DeliveryQueueItem_Validate d = None \<longleftrightarrow>
     dq_SchemaVersion d = SchemaVersionV1 \<and> dq_DeliveryID d \<noteq> [] \<and> dq_PayloadRef d \<noteq> []
     \<and> dq_WebhookID d \<noteq> [] \<and> dq_DestinationRef d \<noteq> []
     \<and> dq_PayloadType d \<in> {DeliveryPayloadLifecycleEvent, DeliveryPayloadIncidentReport}
     \<and> 0 \<le> dq_AttemptCount d \<and> dq_NextAttemptAt d \<noteq> 0 \<and> dq_ExpiresAt d \<noteq> 0
     \<and> dq_NextAttemptAt d < dq_ExpiresAt d \<and> validDeliveryState (dq_State d)"
  by (auto simp: DeliveryQueueItem_Validate_def result_simps not_less split: if_splits)

text \<open>
  The contract of a lifecycle: every allowed transition increases a rank below a bound. A run
  is a list in which every two neighbours are an allowed transition (\<open>successively\<close>); it
  visits no state twice, its length is bounded, and no state is reachable from a later one.
\<close>

locale ranked_lifecycle =
  fixes trans :: "'s \<Rightarrow> 's \<Rightarrow> bool" and rank :: "'s \<Rightarrow> nat" and bound :: nat
  assumes rank_increases: "trans s t \<Longrightarrow> rank s < rank t"
    and rank_bound: "rank s < bound"
begin

lemma run_rank_sorted:
  assumes "successively trans xs"
  shows "sorted_wrt (<) (map rank xs)"
proof -
  have "successively (\<lambda>s t. rank s < rank t) xs"
    using assms rank_increases by (auto intro: successively_mono)
  then have "successively (<) (map rank xs)"
    by (simp add: successively_map)
  then show ?thesis
    by (simp add: successively_conv_sorted_wrt)
qed

lemma run_bounded:
  assumes "successively trans xs"
  shows "length xs \<le> bound \<and> distinct xs"
proof -
  have d: "distinct (map rank xs)"
    using run_rank_sorted [OF assms] by (simp add: strict_sorted_iff)
  have "set (map rank xs) \<subseteq> {..<bound}"
    using rank_bound by auto
  then have "card (set (map rank xs)) \<le> bound"
    using card_mono [of "{..<bound}"] by fastforce
  with d have "length xs \<le> bound"
    using distinct_card [OF d] by simp
  with d show ?thesis by (auto simp: distinct_map)
qed

lemma reachable_rank: "trans\<^sup>*\<^sup>* s t \<Longrightarrow> rank s \<le> rank t"
  by (induction rule: rtranclp_induct) (auto dest: rank_increases)

lemma no_return: "trans\<^sup>+\<^sup>+ s t \<Longrightarrow> \<not> trans\<^sup>*\<^sup>* t s"
  by (metis leD order.strict_trans1 rank_increases reachable_rank tranclpD)

end

fun incidentRank :: "IncidentState \<Rightarrow> nat" where
  "incidentRank IncidentOpen = 0"
| "incidentRank IncidentAnalyzing = 1"
| "incidentRank IncidentAwaitingApproval = 2"
| "incidentRank IncidentRecovering = 3"
| "incidentRank IncidentStabilizing = 4"
| "incidentRank _ = 5"

fun recoveryRank :: "RecoveryCommandState \<Rightarrow> nat" where
  "recoveryRank RecoveryPending = 0"
| "recoveryRank RecoveryApproved = 1"
| "recoveryRank RecoveryExecuting = 2"
| "recoveryRank RecoveryStabilizing = 3"
| "recoveryRank _ = 4"

interpretation incident: ranked_lifecycle Incident_CanTransitionTo incidentRank 6
proof
  show "Incident_CanTransitionTo s t \<Longrightarrow> incidentRank s < incidentRank t" for s t
    by (cases s) auto
  show "incidentRank s < 6" for s by (cases s) auto
qed

interpretation recovery: ranked_lifecycle Recovery_CanTransitionTo recoveryRank 5
proof
  show "Recovery_CanTransitionTo s t \<Longrightarrow> recoveryRank s < recoveryRank t" for s t
    by (cases s) auto
  show "recoveryRank s < 5" for s by (cases s) auto
qed

lemma Recovery_CanTransitionTo_Succeeded:
  "Recovery_CanTransitionTo s RecoverySucceeded \<longleftrightarrow> s = RecoveryStabilizing"
  by (cases s) auto

fun_cases Incident_step_elims: "Incident_CanTransitionTo s t"
fun_cases Recovery_step_elims: "Recovery_CanTransitionTo s t"

text \<open>
  C12: incident lifecycle. No run of the transitions that \<open>IncidentState.CanTransitionTo\<close>
  allows visits a state twice or is longer than six states; a step leaves only valid,
  non-terminal states and enters valid ones, and every valid non-terminal state may still fail.
\<close>

theorem incident_lifecycle:
  "(successively Incident_CanTransitionTo xs \<longrightarrow> length xs \<le> 6 \<and> distinct xs)
   \<and> (Incident_CanTransitionTo s t \<longrightarrow>
        validIncidentState s \<and> validIncidentState t \<and> \<not> terminalIncident s)
   \<and> (validIncidentState s \<and> \<not> terminalIncident s \<longrightarrow>
        Incident_CanTransitionTo s IncidentFailed)"
proof (intro conjI impI)
  assume "successively Incident_CanTransitionTo xs"
  then show "length xs \<le> 6" and "distinct xs"
    using incident.run_bounded by blast+
qed (cases s; auto simp: validIncidentState_def terminalIncident_def)+

theorem incident_lifecycle_witness:
  "length [IncidentOpen, IncidentAnalyzing, IncidentClosed] \<le> 6
   \<and> \<not> terminalIncident IncidentOpen
   \<and> Incident_CanTransitionTo IncidentOpen IncidentFailed"
  using incident_lifecycle [of "[IncidentOpen, IncidentAnalyzing, IncidentClosed]"
      IncidentOpen IncidentAnalyzing]
  by (simp add: validIncidentState_def)

text \<open>
  Recovery command lifecycle. The only run of \<open>RecoveryCommandState.CanTransitionTo\<close>
  that leads a pending command to success passes through approval, execution and
  stabilization in this order, and no run is longer than five states.
\<close>

theorem recovery_lifecycle:
  "(successively Recovery_CanTransitionTo (RecoveryPending # xs @ [RecoverySucceeded]) \<longleftrightarrow>
      xs = [RecoveryApproved, RecoveryExecuting, RecoveryStabilizing])
   \<and> (successively Recovery_CanTransitionTo ys \<longrightarrow> length ys \<le> 5 \<and> distinct ys)"
proof (intro conjI impI iffI)
  assume run: "successively Recovery_CanTransitionTo (RecoveryPending # xs @ [RecoverySucceeded])"
  then have "length (RecoveryPending # xs @ [RecoverySucceeded]) \<le> 5"
    using recovery.run_bounded by blast
  then have "length xs \<le> 3" by simp
  then consider "xs = []" | a where "xs = [a]" | a b where "xs = [a, b]"
    | a b c where "xs = [a, b, c]"
    by (cases xs; cases "tl xs"; cases "tl (tl xs)"; cases "tl (tl (tl xs))") auto
  then show "xs = [RecoveryApproved, RecoveryExecuting, RecoveryStabilizing]"
    using run by cases (auto simp: Recovery_CanTransitionTo_Succeeded)
next
  assume "successively Recovery_CanTransitionTo ys"
  then show "length ys \<le> 5" and "distinct ys"
    using recovery.run_bounded by blast+
qed auto

theorem recovery_lifecycle_witness:
  "length [RecoveryPending, RecoveryApproved, RecoveryExecuting, RecoveryFailed] \<le> 5"
  using recovery_lifecycle
    [of "[]" "[RecoveryPending, RecoveryApproved, RecoveryExecuting, RecoveryFailed]"]
  by simp

end
