(* ===== verification/Json_Decode.thy ===== *)
theory Json_Decode
  imports Contracts
begin

text \<open>
  Strict decoding of versioned JSON contracts (\<open>src/internal/contract/decode.go\<close>).

  The JSON library (\<open>encoding/json\<close>) is a parameter: \<open>json_lib\<close> gives the tokens that a
  \<open>json.Decoder\<close> over a document yields and the \<open>schema_version\<close> that \<open>json.Unmarshal\<close> reads
  from it, and \<open>json_type\<close> gives the encoding and the strict decoding of one Go type. The scan
  for duplicate fields, the order of the checks and the classification of errors are the
  repository's own and are written out. The scan is compared with a declarative reading of
  the tokens as a JSON tree.
\<close>

section \<open>The JSON library\<close>

text \<open>A \<open>json.Token\<close>: a delimiter, a string, or another scalar (number, boolean, null).\<close>

datatype token = Delim char | StringToken string | OtherToken string

text \<open>
  What follows the last token of a document: the end of the input (\<open>io.EOF\<close>) or bytes that
  are not JSON at this place.
\<close>

datatype stream_end = EOF | Malformed

text \<open>A \<open>json.Decoder\<close> is the tokens it has still to deliver.\<close>

type_synonym decoder = "token list \<times> stream_end"

text \<open>
  \<open>jl_text\<close> tells the strings the encoder can represent: valid UTF-8. \<open>encoding/json\<close> replaces
  other bytes when it encodes and when it decodes.
\<close>

record json_lib =
  jl_tokens :: "string \<Rightarrow> decoder"
  jl_header :: "string \<Rightarrow> string option"
  jl_text :: "string \<Rightarrow> bool"

text \<open>
  \<open>jt_decode\<close> is \<open>Decoder.Decode\<close> with \<open>DisallowUnknownFields\<close>: the text of its error, or the
  value and the decoder behind it.
\<close>

record 't json_type =
  jt_marshal :: "'t \<Rightarrow> error + string"
  jt_decode :: "string \<Rightarrow> string + ('t \<times> decoder)"

fun Token :: "decoder \<Rightarrow> (stream_end + token) \<times> decoder" where
  "Token ([], e) = (Inl e, ([], e))"
| "Token (t # ts, e) = (Inr t, (ts, e))"

text \<open>\<open>Decoder.More\<close>: there is a next byte and it does not close the current value.\<close>

fun More :: "decoder \<Rightarrow> bool" where
  "More ([], e) \<longleftrightarrow> e = Malformed"
| "More (t # ts, e) \<longleftrightarrow> t \<noteq> Delim CHR ''}'' \<and> t \<noteq> Delim CHR '']''"

section \<open>Scanning for duplicate fields\<close>

abbreviation errJSON :: error where
  "errJSON \<equiv> Contract ErrInvalidJSON"

fun closeDelimiter :: "decoder \<Rightarrow> char \<Rightarrow> error + decoder" where
  "closeDelimiter d want =
     (case Token d of
        (Inr (Delim c), d') \<Rightarrow> if c = want then Inr d' else Inl errJSON
      | _ \<Rightarrow> Inl errJSON)"

text \<open>
  \<open>scanValue\<close> and the loops of its two cases. The first argument bounds the recursion;
  \<open>None\<close> means it was too small, which \<open>scan_enough_fuel\<close> excludes for the bound that
  \<open>scanDocument\<close> passes.
\<close>

fun scanValue :: "nat \<Rightarrow> decoder \<Rightarrow> (error + decoder) option"
  and scanFields :: "nat \<Rightarrow> string list \<Rightarrow> decoder \<Rightarrow> (error + decoder) option"
  and scanItems :: "nat \<Rightarrow> decoder \<Rightarrow> (error + decoder) option" where
  "scanValue 0 d = None"
| "scanValue (Suc n) d =
     (case Token d of
        (Inl _, _) \<Rightarrow> Some (Inl errJSON)
      | (Inr (Delim c), d') \<Rightarrow>
          if c = CHR ''{'' then scanFields n [] d'
          else if c = CHR ''['' then scanItems n d'
          else Some (Inl errJSON)
      | (Inr _, d') \<Rightarrow> Some (Inr d'))"
| "scanFields 0 seen d = None"
| "scanFields (Suc n) seen d =
     (if More d then
        (case Token d of
           (Inr (StringToken key), d') \<Rightarrow>
             if key \<in> set seen then Some (Inl (Contract ErrDuplicateField))
             else (case scanValue n d' of
                     None \<Rightarrow> None
                   | Some (Inl e) \<Rightarrow> Some (Inl e)
                   | Some (Inr d'') \<Rightarrow> scanFields n (key # seen) d'')
         | _ \<Rightarrow> Some (Inl errJSON))
      else Some (closeDelimiter d CHR ''}''))"
| "scanItems 0 d = None"
| "scanItems (Suc n) d =
     (if More d then
        (case scanValue n d of
           None \<Rightarrow> None
         | Some (Inl e) \<Rightarrow> Some (Inl e)
         | Some (Inr d') \<Rightarrow> scanItems n d')
      else Some (closeDelimiter d CHR '']''))"

definition ensureEnd :: "decoder \<Rightarrow> error option" where
  "ensureEnd d =
     (case fst (Token d) of
        Inl EOF \<Rightarrow> None
      | Inl Malformed \<Rightarrow> Some errJSON
      | Inr _ \<Rightarrow> Some (Contract ErrTrailingData))"

definition scanDocument :: "json_lib \<Rightarrow> string \<Rightarrow> error option" where
  "scanDocument lib document =
     (let d = jl_tokens lib document in
      case scanValue (Suc (2 * length (fst d))) d of
        None \<Rightarrow> Some errJSON
      | Some (Inl e) \<Rightarrow> Some e
      | Some (Inr d') \<Rightarrow> ensureEnd d')"

section \<open>Decode\<close>

definition MaxDocumentBytes :: int where "MaxDocumentBytes = 64 * 1024"

record 't DecodeOptions =
  do_MaxBytes :: int
  do_SchemaVersion :: string
  do_Validate :: "('t \<Rightarrow> error option) option"

definition decodeLimit :: "'t DecodeOptions \<Rightarrow> int" where
  "decodeLimit options =
     (if do_MaxBytes options = 0 then MaxDocumentBytes else do_MaxBytes options)"

definition Decode :: "json_lib \<Rightarrow> 't json_type \<Rightarrow> string \<Rightarrow> 't DecodeOptions \<Rightarrow> error + 't" where
  "Decode lib ty document options =
     (let maxBytes = decodeLimit options in
      if maxBytes < 0 \<or> do_SchemaVersion options = [] then Inl (Contract ErrInvalidDecodeOptions)
      else case do_Validate options of
        None \<Rightarrow> Inl (Contract ErrInvalidDecodeOptions)
      | Some validate \<Rightarrow>
          if int (length document) > maxBytes then Inl (Contract ErrDocumentTooLarge)
          else case scanDocument lib document of
            Some e \<Rightarrow> Inl e
          | None \<Rightarrow>
            (case jl_header lib document of
               None \<Rightarrow> Inl errJSON
             | Some version \<Rightarrow>
               if version \<noteq> do_SchemaVersion options
               then Inl (Contract ErrUnsupportedSchemaVersion)
               else case jt_decode ty document of
                 Inl msg \<Rightarrow>
                   if HasPrefix msg ''json: unknown field '' then Inl (Contract ErrUnknownField)
                   else Inl errJSON
               | Inr (v, d) \<Rightarrow>
                   (case ensureEnd d of
                      Some e \<Rightarrow> Inl e
                    | None \<Rightarrow>
                        (case validate v of Some e \<Rightarrow> Inl e | None \<Rightarrow> Inr v))))"

section \<open>JSON trees\<close>

text \<open>The declarative reading: a document is the token sequence of one JSON tree.\<close>

datatype json_tree =
    JString string
  | JOther string
  | JObject "(string \<times> json_tree) list"
  | JArray "json_tree list"

fun flatten :: "json_tree \<Rightarrow> token list" where
  "flatten (JString s) = [StringToken s]"
| "flatten (JOther s) = [OtherToken s]"
| "flatten (JObject fs) =
     Delim CHR ''{'' # concat (map (\<lambda>(k, t). StringToken k # flatten t) fs) @ [Delim CHR ''}'']"
| "flatten (JArray ts) =
     Delim CHR ''['' # concat (map flatten ts) @ [Delim CHR '']'']"

fun uniqueFields :: "json_tree \<Rightarrow> bool" where
  "uniqueFields (JString s) = True"
| "uniqueFields (JOther s) = True"
| "uniqueFields (JObject fs) =
     (distinct (map fst fs) \<and> (\<forall>(k, t) \<in> set fs. uniqueFields t))"
| "uniqueFields (JArray ts) = (\<forall>t \<in> set ts. uniqueFields t)"

abbreviation flattenFields :: "(string \<times> json_tree) list \<Rightarrow> token list" where
  "flattenFields fs \<equiv> concat (map (\<lambda>(k, t). StringToken k # flatten t) fs)"

abbreviation flattenItems :: "json_tree list \<Rightarrow> token list" where
  "flattenItems ts \<equiv> concat (map flatten ts)"

section \<open>The scan decides the declarative reading\<close>

lemma Token_Inr:
  "Token d = (Inr t, d') \<longleftrightarrow> fst d = t # fst d' \<and> snd d' = snd d"
  by (cases d rule: Token.cases; cases d') auto

lemma Token_Inl:
  "Token d = (Inl e, d') \<longleftrightarrow> fst d = [] \<and> snd d = e \<and> d' = d"
  by (cases d rule: Token.cases; cases d') auto

lemma closeDelimiter_Inr:
  "closeDelimiter d c = Inr d' \<longleftrightarrow> fst d = Delim c # fst d' \<and> snd d' = snd d"
  by (cases d rule: Token.cases; cases d') (auto split: token.splits)

lemma ensureEnd_None [simp]: "ensureEnd d = None \<longleftrightarrow> d = ([], EOF)"
  by (cases d rule: Token.cases) (auto simp: ensureEnd_def split: stream_end.splits)

lemma not_More_head:
  "\<not> More d \<Longrightarrow> fst d = t # ts \<Longrightarrow> t = Delim CHR ''}'' \<or> t = Delim CHR '']''"
  by (cases d rule: More.cases) auto

text \<open>Enough fuel: a bound above twice the number of tokens is never exhausted.\<close>

definition shrinks :: "decoder \<Rightarrow> (error + decoder) option \<Rightarrow> bool" where
  "shrinks d result \<longleftrightarrow>
     (\<exists>r. result = Some r \<and> (\<forall>d'. r = Inr d' \<longrightarrow> length (fst d') < length (fst d)))"

lemma shrinks_simps [simp]:
  "shrinks d (Some (Inl e))"
  "shrinks d (Some (Inr d')) \<longleftrightarrow> length (fst d') < length (fst d)"
  "\<not> shrinks d None"
  by (simp_all add: shrinks_def del: split_paired_All split_paired_Ex)

lemma shrinksE:
  assumes "shrinks d result"
  obtains e where "result = Some (Inl e)"
  | d' where "result = Some (Inr d')" "length (fst d') < length (fst d)"
  using assms unfolding shrinks_def by (metis sumE)

lemma shrinks_trans: "shrinks d' r \<Longrightarrow> length (fst d') \<le> length (fst d) \<Longrightarrow> shrinks d r"
  by (fastforce simp: shrinks_def)

lemma closeDelimiter_shrinks: "shrinks d (Some (closeDelimiter d c))"
  by (auto simp: shrinks_def closeDelimiter_Inr simp del: closeDelimiter.simps)

lemma scanFields_shrinks:
  assumes len: "2 * length (fst d) + 1 < Suc n"
    and scanned: "\<And>d'. 2 * length (fst d') < n \<Longrightarrow> shrinks d' (scanValue n d')"
    and fields: "\<And>seen d'. 2 * length (fst d') + 1 < n \<Longrightarrow> shrinks d' (scanFields n seen d')"
  shows "shrinks d (scanFields (Suc n) seen d)"
proof (cases "More d")
  case False
  then show ?thesis using closeDelimiter_shrinks by (simp del: closeDelimiter.simps)
next
  case More: True
  show ?thesis
  proof (cases "\<exists>key d'. Token d = (Inr (StringToken key), d') \<and> key \<notin> set seen")
    case False
    with More show ?thesis by (cases d rule: Token.cases) (auto split: token.splits)
  next
    case True
    then obtain key d' where d': "Token d = (Inr (StringToken key), d')" "key \<notin> set seen"
      by blast
    then have l: "length (fst d') < length (fst d)" by (simp add: Token_Inr)
    with len have "shrinks d' (scanValue n d')" by (intro scanned) simp
    then show ?thesis
    proof (cases rule: shrinksE)
      case (1 e)
      with More d' show ?thesis by simp
    next
      case (2 d'')
      with l len have l'': "2 * length (fst d'') + 1 < n" "length (fst d'') \<le> length (fst d)"
        by auto
      from shrinks_trans [OF fields [OF l''(1), of "key # seen"] l''(2)] More d' 2
      show ?thesis by simp
    qed
  qed
qed

lemma scanItems_shrinks:
  assumes len: "2 * length (fst d) + 1 < Suc n"
    and scanned: "\<And>d'. 2 * length (fst d') < n \<Longrightarrow> shrinks d' (scanValue n d')"
    and items: "\<And>d'. 2 * length (fst d') + 1 < n \<Longrightarrow> shrinks d' (scanItems n d')"
  shows "shrinks d (scanItems (Suc n) d)"
proof (cases "More d")
  case False
  then show ?thesis using closeDelimiter_shrinks by (simp del: closeDelimiter.simps)
next
  case More: True
  from len have "shrinks d (scanValue n d)" by (intro scanned) simp
  then show ?thesis
  proof (cases rule: shrinksE)
    case (1 e)
    with More show ?thesis by simp
  next
    case (2 d')
    with len have l': "2 * length (fst d') + 1 < n" "length (fst d') \<le> length (fst d)"
      by auto
    from shrinks_trans [OF items [OF l'(1)] l'(2)] More 2 show ?thesis by simp
  qed
qed

lemma scan_enough_fuel:
  "(\<forall>d. 2 * length (fst d) < n \<longrightarrow> shrinks d (scanValue n d))
   \<and> (\<forall>seen d. 2 * length (fst d) + 1 < n \<longrightarrow> shrinks d (scanFields n seen d))
   \<and> (\<forall>d. 2 * length (fst d) + 1 < n \<longrightarrow> shrinks d (scanItems n d))"
  (is "?V n \<and> ?F n \<and> ?I n")
proof (induction n)
  case (Suc n)
  then have V: "?V n" and F: "?F n" and I: "?I n" by blast+
  have "shrinks d (scanValue (Suc n) d)" if len: "2 * length (fst d) < Suc n" for d
  proof (cases d rule: Token.cases)
    case (2 t ts e)
    with len have l: "2 * length (fst (ts, e)) + 1 < n" by simp
    with F I have "shrinks (ts, e) (scanFields n [] (ts, e))" "shrinks (ts, e) (scanItems n (ts, e))"
      by blast+
    then have "shrinks d (scanFields n [] (ts, e))" "shrinks d (scanItems n (ts, e))"
      using 2 by (auto elim!: shrinks_trans)
    with 2 show ?thesis by (cases t) auto
  qed simp
  moreover have "shrinks d (scanFields (Suc n) seen d)" if "2 * length (fst d) + 1 < Suc n" for seen d
    using V F by (intro scanFields_shrinks that) blast+
  moreover have "shrinks d (scanItems (Suc n) d)" if "2 * length (fst d) + 1 < Suc n" for d
    using V I by (intro scanItems_shrinks that) blast+
  ultimately show ?case by blast
qed simp

text \<open>Acceptance yields a tree with unique field names in every object.\<close>

lemma scan_sound:
  "(\<forall>d d'. scanValue n d = Some (Inr d') \<longrightarrow>
      (\<exists>t. fst d = flatten t @ fst d' \<and> snd d' = snd d \<and> uniqueFields t))
   \<and> (\<forall>seen d d'. scanFields n seen d = Some (Inr d') \<longrightarrow>
      (\<exists>fs. fst d = flattenFields fs @ Delim CHR ''}'' # fst d' \<and> snd d' = snd d
         \<and> uniqueFields (JObject fs) \<and> set (map fst fs) \<inter> set seen = {}))
   \<and> (\<forall>d d'. scanItems n d = Some (Inr d') \<longrightarrow>
      (\<exists>ts. fst d = flattenItems ts @ Delim CHR '']'' # fst d' \<and> snd d' = snd d
         \<and> uniqueFields (JArray ts)))"
  (is "?V n \<and> ?F n \<and> ?I n")
proof (induction n)
  case (Suc n)
  then have V: "?V n" and F: "?F n" and I: "?I n" by blast+
  have "?V (Suc n)"
  proof (intro allI impI)
    fix d d'
    assume ok: "scanValue (Suc n) d = Some (Inr d')"
    then obtain t d1 where tok: "Token d = (Inr t, d1)"
      by (auto split: sum.splits prod.splits)
    show "\<exists>t. fst d = flatten t @ fst d' \<and> snd d' = snd d \<and> uniqueFields t"
    proof (cases t)
      case (Delim c)
      then consider "c = CHR ''{''" "scanFields n [] d1 = Some (Inr d')"
        | "c = CHR ''[''" "scanItems n d1 = Some (Inr d')"
        using ok tok by (auto split: if_splits)
      then show ?thesis
      proof cases
        case 1
        then obtain fs where "fst d1 = flattenFields fs @ Delim CHR ''}'' # fst d'"
          "snd d' = snd d1" "uniqueFields (JObject fs)"
          using F by blast
        with 1 Delim tok show ?thesis
          by (intro exI [of _ "JObject fs"]) (simp add: Token_Inr)
      next
        case 2
        then obtain ts where "fst d1 = flattenItems ts @ Delim CHR '']'' # fst d'"
          "snd d' = snd d1" "uniqueFields (JArray ts)"
          using I by blast
        with 2 Delim tok show ?thesis
          by (intro exI [of _ "JArray ts"]) (simp add: Token_Inr)
      qed
    next
      case (StringToken s)
      with ok tok show ?thesis by (intro exI [of _ "JString s"]) (simp add: Token_Inr)
    next
      case (OtherToken s)
      with ok tok show ?thesis by (intro exI [of _ "JOther s"]) (simp add: Token_Inr)
    qed
  qed
  moreover have "?F (Suc n)"
  proof (intro allI impI)
    fix seen d d'
    assume ok: "scanFields (Suc n) seen d = Some (Inr d')"
    show "\<exists>fs. fst d = flattenFields fs @ Delim CHR ''}'' # fst d' \<and> snd d' = snd d
         \<and> uniqueFields (JObject fs) \<and> set (map fst fs) \<inter> set seen = {}"
    proof (cases "More d")
      case False
      with ok have "closeDelimiter d CHR ''}'' = Inr d'" by (simp del: closeDelimiter.simps)
      then show ?thesis
        by (intro exI [of _ "[]"]) (simp add: closeDelimiter_Inr del: closeDelimiter.simps)
    next
      case True
      with ok obtain key d1 d2 where step: "Token d = (Inr (StringToken key), d1)"
        "key \<notin> set seen" "scanValue n d1 = Some (Inr d2)"
        "scanFields n (key # seen) d2 = Some (Inr d')"
        by (auto split: sum.splits prod.splits token.splits if_splits option.splits)
      obtain t where t: "fst d1 = flatten t @ fst d2" "snd d2 = snd d1" "uniqueFields t"
        using V step(3) by blast
      obtain fs where fs: "fst d2 = flattenFields fs @ Delim CHR ''}'' # fst d'"
        "snd d' = snd d2" "uniqueFields (JObject fs)" "set (map fst fs) \<inter> set (key # seen) = {}"
        using F step(4) by blast
      have "key \<notin> set (map fst fs)" and "set (map fst fs) \<inter> set seen = {}"
        using fs(4) by auto
      with step t fs show ?thesis
        by (intro exI [of _ "(key, t) # fs"]) (simp add: Token_Inr)
    qed
  qed
  moreover have "?I (Suc n)"
  proof (intro allI impI)
    fix d d'
    assume ok: "scanItems (Suc n) d = Some (Inr d')"
    show "\<exists>ts. fst d = flattenItems ts @ Delim CHR '']'' # fst d' \<and> snd d' = snd d
         \<and> uniqueFields (JArray ts)"
    proof (cases "More d")
      case False
      with ok have "closeDelimiter d CHR '']'' = Inr d'" by (simp del: closeDelimiter.simps)
      then show ?thesis
        by (intro exI [of _ "[]"]) (simp add: closeDelimiter_Inr del: closeDelimiter.simps)
    next
      case True
      with ok obtain d1 where step: "scanValue n d = Some (Inr d1)"
        "scanItems n d1 = Some (Inr d')"
        by (auto split: sum.splits option.splits simp del: scanValue.simps)
      obtain t where t: "fst d = flatten t @ fst d1" "snd d1 = snd d" "uniqueFields t"
        using V step(1) by blast
      obtain ts where "fst d1 = flattenItems ts @ Delim CHR '']'' # fst d'"
        "snd d' = snd d1" "uniqueFields (JArray ts)"
        using I step(2) by blast
      with t show ?thesis by (intro exI [of _ "t # ts"]) simp
    qed
  qed
  ultimately show ?case by blast
qed simp

text \<open>A tree is accepted exactly when its field names are unique, and refused otherwise.\<close>

lemma flatten_not_close:
  "flatten t = x # xs \<Longrightarrow> x \<noteq> Delim CHR ''}'' \<and> x \<noteq> Delim CHR '']''"
  by (cases t) auto

lemma More_flatten: "More (flatten t @ ts, e)"
  by (cases t) auto

lemma flatten_nonempty: "0 < length (flatten t)"
  by (cases t) auto

definition verdict :: "bool \<Rightarrow> decoder \<Rightarrow> (error + decoder) option" where
  "verdict ok d = Some (if ok then Inr d else Inl (Contract ErrDuplicateField))"

lemma scanItems_complete:
  assumes "\<And>t n rest. t \<in> set ts \<Longrightarrow> 2 * length (flatten t) < n \<Longrightarrow>
      scanValue n (flatten t @ rest, e) = verdict (uniqueFields t) (rest, e)"
    and "2 * length (flattenItems ts) + 1 < n"
  shows "scanItems n (flattenItems ts @ Delim CHR '']'' # rest, e)
    = verdict (\<forall>t \<in> set ts. uniqueFields t) (rest, e)"
  using assms
proof (induction ts arbitrary: n)
  case Nil
  then show ?case by (cases n) (auto simp: verdict_def)
next
  case (Cons t ts)
  from Cons.prems(2) obtain m where n: "n = Suc m" by (cases n) auto
  have "scanValue m (flatten t @ flattenItems ts @ Delim CHR '']'' # rest, e)
    = verdict (uniqueFields t) (flattenItems ts @ Delim CHR '']'' # rest, e)"
    using Cons.prems n by simp
  moreover have "scanItems m (flattenItems ts @ Delim CHR '']'' # rest, e)
    = verdict (\<forall>t \<in> set ts. uniqueFields t) (rest, e)"
  proof (rule Cons.IH)
    show "2 * length (flattenItems ts) + 1 < m"
      using Cons.prems(2) n flatten_nonempty [of t] by (simp del: length_greater_0_conv)
  qed (simp add: Cons.prems(1))
  ultimately show ?case using n More_flatten by (simp add: verdict_def)
qed

lemma scanFields_complete:
  assumes "\<And>k t n rest. (k, t) \<in> set fs \<Longrightarrow> 2 * length (flatten t) < n \<Longrightarrow>
      scanValue n (flatten t @ rest, e) = verdict (uniqueFields t) (rest, e)"
    and "2 * length (flattenFields fs) + 1 < n"
  shows "scanFields n seen (flattenFields fs @ Delim CHR ''}'' # rest, e)
    = verdict (uniqueFields (JObject fs) \<and> set (map fst fs) \<inter> set seen = {}) (rest, e)"
  using assms
proof (induction fs arbitrary: n seen)
  case Nil
  then show ?case by (cases n) (auto simp: verdict_def)
next
  case (Cons f fs)
  obtain k t where f: "f = (k, t)" by (cases f)
  from Cons.prems(2) obtain m where n: "n = Suc m" by (cases n) auto
  have "scanValue m (flatten t @ flattenFields fs @ Delim CHR ''}'' # rest, e)
    = verdict (uniqueFields t) (flattenFields fs @ Delim CHR ''}'' # rest, e)"
    using Cons.prems n f by (intro Cons.prems(1) [of k]) simp_all
  moreover have "scanFields m (k # seen) (flattenFields fs @ Delim CHR ''}'' # rest, e)
    = verdict (uniqueFields (JObject fs) \<and> set (map fst fs) \<inter> set (k # seen) = {}) (rest, e)"
  proof (rule Cons.IH)
    show "2 * length (flattenFields fs) + 1 < m" using Cons.prems(2) n f by simp
  qed (use Cons.prems(1) in \<open>meson list.set_intros(2)\<close>)
  ultimately show ?case using n f by (auto simp: verdict_def)
qed

lemma scanValue_complete:
  "2 * length (flatten t) < n \<Longrightarrow>
     scanValue n (flatten t @ rest, e) = verdict (uniqueFields t) (rest, e)"
proof (induction t arbitrary: n rest)
  case (JObject fs)
  then obtain m where n: "n = Suc m" by (cases n) auto
  have "scanFields m [] (flattenFields fs @ Delim CHR ''}'' # rest, e)
    = verdict (uniqueFields (JObject fs) \<and> set (map fst fs) \<inter> set [] = {}) (rest, e)"
  proof (rule scanFields_complete)
    show "2 * length (flattenFields fs) + 1 < m" using JObject.prems n by simp
  qed (auto intro!: JObject.IH simp: snds.simps)
  with n show ?case by simp
next
  case (JArray ts)
  then obtain m where n: "n = Suc m" by (cases n) auto
  have "scanItems m (flattenItems ts @ Delim CHR '']'' # rest, e)
    = verdict (\<forall>t \<in> set ts. uniqueFields t) (rest, e)"
  proof (rule scanItems_complete)
    show "2 * length (flattenItems ts) + 1 < m" using JArray.prems n by simp
  qed (rule JArray.IH)
  with n show ?case by simp
qed (auto simp: verdict_def Suc_lessI elim!: less_natE)

lemma scanDocument_tree:
  assumes "jl_tokens lib document = (flatten t, EOF)"
  shows "scanDocument lib document
    = (if uniqueFields t then None else Some (Contract ErrDuplicateField))"
  using assms scanValue_complete [of t "Suc (2 * length (flatten t))" "[]" EOF]
  by (simp add: scanDocument_def verdict_def Let_def del: scanValue.simps)

lemma scanDocument_None:
  "scanDocument lib document = None \<longleftrightarrow>
     (\<exists>t. jl_tokens lib document = (flatten t, EOF) \<and> uniqueFields t)"
proof
  assume "scanDocument lib document = None"
  then have "scanValue (Suc (2 * length (fst (jl_tokens lib document)))) (jl_tokens lib document)
    = Some (Inr ([], EOF))"
    by (auto simp: scanDocument_def Let_def split: option.splits sum.splits
        simp del: scanValue.simps)
  with scan_sound obtain t where "fst (jl_tokens lib document) = flatten t @ fst ([], EOF)"
    "snd ([] :: token list, EOF) = snd (jl_tokens lib document)" "uniqueFields t"
    by blast
  then show "\<exists>t. jl_tokens lib document = (flatten t, EOF) \<and> uniqueFields t"
    by (intro exI [of _ t]) (simp add: prod_eq_iff)
next
  assume "\<exists>t. jl_tokens lib document = (flatten t, EOF) \<and> uniqueFields t"
  then show "scanDocument lib document = None" using scanDocument_tree by fastforce
qed

section \<open>What Decode accepts\<close>

lemma Decode_Inr:
  "Decode lib ty document options = Inr v \<longleftrightarrow>
     (\<exists>validate. do_Validate options = Some validate \<and> validate v = None)
     \<and> do_SchemaVersion options \<noteq> [] \<and> int (length document) \<le> decodeLimit options
     \<and> (\<exists>t. jl_tokens lib document = (flatten t, EOF) \<and> uniqueFields t)
     \<and> jl_header lib document = Some (do_SchemaVersion options)
     \<and> jt_decode ty document = Inr (v, ([], EOF))"
  (is "_ \<longleftrightarrow> ?rhs")
proof
  assume ok: "Decode lib ty document options = Inr v"
  then obtain validate where val: "do_Validate options = Some validate"
    and pos: "\<not> decodeLimit options < 0" and ver: "do_SchemaVersion options \<noteq> []"
    by (auto simp: Decode_def Let_def split: if_splits option.splits)
  from ok val pos ver have len: "int (length document) \<le> decodeLimit options"
    and scan: "scanDocument lib document = None"
    and head: "jl_header lib document = Some (do_SchemaVersion options)"
    by (auto simp: Decode_def Let_def split: if_splits option.splits)
  from ok val pos ver len scan head have "jt_decode ty document = Inr (v, ([], EOF))"
    and "validate v = None"
    by (auto simp: Decode_def Let_def split: if_splits option.splits sum.splits)
  with val ver len scan head show ?rhs by (simp add: scanDocument_None)
next
  assume rhs: ?rhs
  then have "scanDocument lib document = None" by (simp add: scanDocument_None)
  moreover from rhs have "\<not> decodeLimit options < 0" by auto
  ultimately show "Decode lib ty document options = Inr v"
    using rhs by (auto simp: Decode_def Let_def ensureEnd_def)
qed

text \<open>
  What the callers rely on of \<open>encoding/json\<close> for the values \<open>ok\<close> of a type (those whose
  strings are valid UTF-8, since the encoder replaces other bytes): the encoding of a value is
  one JSON tree without repeated fields, carries the value's schema version, and decodes to
  the value.
\<close>

definition json_codec ::
    "json_lib \<Rightarrow> 't json_type \<Rightarrow> ('t \<Rightarrow> string) \<Rightarrow> ('t \<Rightarrow> bool) \<Rightarrow> bool" where
  "json_codec lib ty version ok \<longleftrightarrow>
     (\<forall>v document. ok v \<and> jt_marshal ty v = Inr document \<longrightarrow>
        (\<exists>t. jl_tokens lib document = (flatten t, EOF) \<and> uniqueFields t)
        \<and> jl_header lib document = Some (version v)
        \<and> jt_decode ty document = Inr (v, ([], EOF)))"

lemma json_codec_mono:
  "json_codec lib ty version ok \<Longrightarrow> (\<And>v. ok' v \<Longrightarrow> ok v) \<Longrightarrow> json_codec lib ty version ok'"
  unfolding json_codec_def by blast

lemma Decode_marshal:
  assumes "json_codec lib ty version ok" and "ok v" and "jt_marshal ty v = Inr document"
    and "do_Validate options = Some validate" and "validate v = None"
    and "version v = do_SchemaVersion options" and "do_SchemaVersion options \<noteq> []"
    and "int (length document) \<le> decodeLimit options"
  shows "Decode lib ty document options = Inr v"
  using assms unfolding json_codec_def by (auto simp: Decode_Inr)

text \<open>
  A concrete library for evaluation: the encoder knows a table of values and their documents,
  and every document reads as an object that carries schema version v1.
\<close>

definition tableLib :: json_lib where
  "tableLib =
     \<lparr>jl_tokens = (\<lambda>_. (flatten (JObject [(''schema_version'', JString ''v1'')]), EOF)),
      jl_header = (\<lambda>_. Some ''v1''), jl_text = (\<lambda>_. True)\<rparr>"

definition tableType :: "('t \<times> string) list \<Rightarrow> 't json_type" where
  "tableType table =
     \<lparr>jt_marshal = (\<lambda>v. case map_of table v of
          None \<Rightarrow> Inl (External ''json: unsupported value'') | Some document \<Rightarrow> Inr document),
      jt_decode = (\<lambda>document. case map_of (map prod.swap table) document of
          None \<Rightarrow> Inl ''unexpected end of JSON input'' | Some v \<Rightarrow> Inr (v, ([], EOF)))\<rparr>"

lemma tableType_codec:
  assumes "distinct (map snd table)" and "\<And>v. v \<in> set (map fst table) \<Longrightarrow> version v = ''v1''"
  shows "json_codec tableLib (tableType table) version (\<lambda>_. True)"
proof -
  have "jt_decode (tableType table) document = Inr (v, ([], EOF)) \<and> version v = ''v1''"
    if "map_of table v = Some document" for v document
  proof -
    from that have m: "(v, document) \<in> set table" by (rule map_of_SomeD)
    have "distinct (map fst (map prod.swap table))"
      using assms(1) by (simp add: comp_def)
    moreover from m have "(document, v) \<in> set (map prod.swap table)" by force
    ultimately have "map_of (map prod.swap table) document = Some v"
      by (rule map_of_is_SomeI)
    moreover have "v \<in> set (map fst table)" using m by force
    ultimately show ?thesis using assms(2) by (simp add: tableType_def)
  qed
  moreover have "\<exists>t. jl_tokens tableLib document = (flatten t, EOF) \<and> uniqueFields t" for document
    by (rule exI [of _ "JObject [(''schema_version'', JString ''v1'')]"]) (simp add: tableLib_def)
  moreover have "jl_header tableLib document = Some ''v1''" for document
    by (simp add: tableLib_def)
  moreover have "map_of table v = Some document" if "jt_marshal (tableType table) v = Inr document"
    for v document
    using that by (simp add: tableType_def split: option.splits)
  ultimately show ?thesis
    unfolding json_codec_def by metis
qed

lemma table_document: "jt_marshal (tableType table) v = Inr document \<Longrightarrow> document \<in> set (map snd table)"
  by (force simp: tableType_def dest: map_of_SomeD split: option.splits)

section \<open>Properties\<close>

text \<open>
  C16: duplicate-field scan. \<open>scanDocument\<close> accepts a document if and only if its tokens are
  exactly one JSON tree in which no object, at any depth, repeats a field name; a document that
  is one tree but repeats a field is refused with \<open>ErrDuplicateField\<close>; and the bound on the
  recursion is never the reason for a refusal.
\<close>

theorem scanDocument_decides:
  "(scanDocument lib document = None \<longleftrightarrow>
      (\<exists>t. jl_tokens lib document = (flatten t, EOF) \<and> uniqueFields t))
   \<and> (jl_tokens lib document = (flatten t, EOF) \<and> \<not> uniqueFields t \<longrightarrow>
        scanDocument lib document = Some (Contract ErrDuplicateField))
   \<and> scanValue (Suc (2 * length (fst (jl_tokens lib document)))) (jl_tokens lib document) \<noteq> None"
proof (intro conjI)
  show "scanValue (Suc (2 * length (fst (jl_tokens lib document)))) (jl_tokens lib document) \<noteq> None"
    using scan_enough_fuel [of "Suc (2 * length (fst (jl_tokens lib document)))"]
    by (metis lessI shrinks_simps(3))
qed (simp_all add: scanDocument_None scanDocument_tree)

theorem scanDocument_decides_witness:
  "scanDocument \<lparr>jl_tokens = \<lambda>_. (flatten (JArray [JObject [(''a'', JOther ''1''),
      (''a'', JOther ''2'')]]), EOF), jl_header = \<lambda>_. None, jl_text = \<lambda>_. True\<rparr> ''x''
     = Some (Contract ErrDuplicateField)"
  using scanDocument_decides [of "\<lparr>jl_tokens = \<lambda>_. (flatten (JArray [JObject [(''a'', JOther ''1''),
      (''a'', JOther ''2'')]]), EOF), jl_header = \<lambda>_. None, jl_text = \<lambda>_. True\<rparr>" "''x''"
      "JArray [JObject [(''a'', JOther ''1''), (''a'', JOther ''2'')]]"]
  by simp

text \<open>
  C17: strict decoding. \<open>Decode\<close> returns a value exactly when the options are complete, the
  document is within the size limit (the default limit when none is set) and is one JSON tree
  without repeated fields, its schema version is the expected one, the strict decoder returns
  this value and reaches the end of the input, and the domain validation accepts the value.
\<close>

theorem Decode_accepts_iff:
  "Decode lib ty document options = Inr v \<longleftrightarrow>
     (\<exists>validate. do_Validate options = Some validate \<and> validate v = None)
     \<and> do_SchemaVersion options \<noteq> []
     \<and> int (length document)
         \<le> (if do_MaxBytes options = 0 then 64 * 1024 else do_MaxBytes options)
     \<and> (\<exists>t. jl_tokens lib document = (flatten t, EOF) \<and> uniqueFields t)
     \<and> jl_header lib document = Some (do_SchemaVersion options)
     \<and> jt_decode ty document = Inr (v, ([], EOF))"
  unfolding Decode_Inr decodeLimit_def MaxDocumentBytes_def by (rule refl)

end
