(* ===== verification/Local_Store.thy ===== *)
theory Local_Store
  imports Prelude "HOL-Library.Word"
begin

unbundle bit_operations_syntax

text \<open>
  The daemon-owned local state store (\<open>src/internal/store/store.go\<close>): the closed set of
  buckets, transactions, the append-only audit bucket, the schema version and its migrations,
  and the integrity check.

  The embedded database bbolt is a parameter, the record \<open>engine\<close> over an abstract type of
  database contents; the locale \<open>bbolt\<close> lists the documented laws the store relies on, and
  \<open>mem_engine\<close> is a reference engine that satisfies them. A read-write transaction is a
  function on the contents that may fail; \<open>Update\<close> keeps the old contents unless the callback
  and the commit both succeed. A nil store, transaction or callback is not modelled.
\<close>

section \<open>Buckets\<close>

datatype Bucket =
    BucketConfigurationVersions | BucketIncidents | BucketAnalysisReferences
  | BucketApprovals | BucketCommandJournal | BucketAudit | BucketStabilizationResults
  | BucketDeliveryQueue | BucketServiceTargets | BucketRunbooks | BucketIngressReceipts
  | BucketLifecycleEvents | BucketIncidentReports
  | BucketOther string

fun bucketName :: "Bucket \<Rightarrow> string" where
  "bucketName BucketConfigurationVersions = ''configuration_versions''"
| "bucketName BucketIncidents = ''incidents''"
| "bucketName BucketAnalysisReferences = ''analysis_references''"
| "bucketName BucketApprovals = ''approvals''"
| "bucketName BucketCommandJournal = ''command_journal''"
| "bucketName BucketAudit = ''audit''"
| "bucketName BucketStabilizationResults = ''stabilization_results''"
| "bucketName BucketDeliveryQueue = ''delivery_queue''"
| "bucketName BucketServiceTargets = ''service_targets''"
| "bucketName BucketRunbooks = ''runbooks''"
| "bucketName BucketIngressReceipts = ''ingress_receipts''"
| "bucketName BucketLifecycleEvents = ''lifecycle_events''"
| "bucketName BucketIncidentReports = ''incident_reports''"
| "bucketName (BucketOther s) = s"

definition initialDataBuckets :: "Bucket list" where
  "initialDataBuckets =
     [BucketConfigurationVersions, BucketIncidents, BucketAnalysisReferences, BucketApprovals,
      BucketCommandJournal, BucketAudit, BucketStabilizationResults, BucketDeliveryQueue]"

definition dataBuckets :: "Bucket list" where
  "dataBuckets =
     initialDataBuckets @ [BucketServiceTargets, BucketRunbooks, BucketIngressReceipts,
       BucketLifecycleEvents, BucketIncidentReports]"

definition metadataBucket :: string where "metadataBucket = ''metadata''"
definition schemaVersionKey :: string where "schemaVersionKey = ''schema_version''"

section \<open>The database engine\<close>

text \<open>
  The calls of bbolt that the store makes. \<open>eng_each\<close> lists the pairs \<open>Bucket.ForEach\<close> visits,
  in its order; \<open>eng_buckets\<close> the bucket names \<open>Tx.ForEach\<close> visits; \<open>eng_check\<close> the errors
  \<open>Tx.Check\<close> reports; \<open>eng_begin\<close> and \<open>eng_commit\<close> the errors of opening and committing a
  transaction.
\<close>

record 'db engine =
  eng_begin :: "'db \<Rightarrow> error option"
  eng_commit :: "'db \<Rightarrow> error option"
  eng_bucket :: "'db \<Rightarrow> string \<Rightarrow> bool"
  eng_buckets :: "'db \<Rightarrow> string list"
  eng_create :: "'db \<Rightarrow> string \<Rightarrow> error + 'db"
  eng_get :: "'db \<Rightarrow> string \<Rightarrow> string \<Rightarrow> string option"
  eng_put :: "'db \<Rightarrow> string \<Rightarrow> string \<Rightarrow> string \<Rightarrow> error + 'db"
  eng_delete :: "'db \<Rightarrow> string \<Rightarrow> string \<Rightarrow> error + 'db"
  eng_each :: "'db \<Rightarrow> string \<Rightarrow> (string \<times> string) list"
  eng_check :: "'db \<Rightarrow> error list"

section \<open>Transactions\<close>

fun normalizeError :: "error \<Rightarrow> error" where
  "normalizeError (Store BoltMaxSizeReached) = Store ErrStoreFull"
| "normalizeError (Store SysENOSPC) = Store ErrStoreFull"
| "normalizeError e = e"

definition normalized :: "error + 'a \<Rightarrow> error + 'a" where
  "normalized r = (case r of Inl e \<Rightarrow> Inl (normalizeError e) | Inr x \<Rightarrow> Inr x)"

text \<open>
  \<open>bbolt.DB.Update\<close>: the callback runs on the transaction's view of the contents; an error of
  the callback or of the commit discards every write.
\<close>

definition dbUpdate :: "'db engine \<Rightarrow> ('db \<Rightarrow> error + ('a \<times> 'db)) \<Rightarrow> 'db \<Rightarrow> (error + 'a) \<times> 'db" where
  "dbUpdate eng fn db =
     (case eng_begin eng db of
        Some e \<Rightarrow> (Inl e, db)
      | None \<Rightarrow>
          (case fn db of
             Inl e \<Rightarrow> (Inl e, db)
           | Inr (a, db') \<Rightarrow>
               (case eng_commit eng db' of
                  Some e \<Rightarrow> (Inl e, db)
                | None \<Rightarrow> (Inr a, db'))))"

definition dbView :: "'db engine \<Rightarrow> ('db \<Rightarrow> error + 'a) \<Rightarrow> 'db \<Rightarrow> error + 'a" where
  "dbView eng fn db = (case eng_begin eng db of Some e \<Rightarrow> Inl e | None \<Rightarrow> fn db)"

definition Update :: "'db engine \<Rightarrow> ('db \<Rightarrow> error + ('a \<times> 'db)) \<Rightarrow> 'db \<Rightarrow> (error + 'a) \<times> 'db" where
  "Update eng fn db = (case dbUpdate eng fn db of (r, db') \<Rightarrow> (normalized r, db'))"

definition View :: "'db engine \<Rightarrow> ('db \<Rightarrow> error + 'a) \<Rightarrow> 'db \<Rightarrow> error + 'a" where
  "View eng fn db = normalized (dbView eng fn db)"

text \<open>\<open>Tx.bucket\<close> returns the handle of an explicit bucket, here its name.\<close>

definition tx_bucket :: "'db engine \<Rightarrow> 'db \<Rightarrow> Bucket \<Rightarrow> error + string" where
  "tx_bucket eng db b =
     (if b \<notin> set dataBuckets then Inl (Store ErrUnknownBucket)
      else if \<not> eng_bucket eng db (bucketName b) then Inl (Store ErrIntegrity)
      else Inr (bucketName b))"

definition tx_Put :: "'db engine \<Rightarrow> Bucket \<Rightarrow> string \<Rightarrow> string \<Rightarrow> 'db \<Rightarrow> error + 'db" where
  "tx_Put eng b key v db =
     bindR (tx_bucket eng db b) (\<lambda>name.
       if b = BucketAudit then Inl (Store ErrAuditAppendOnly)
       else if key = [] then Inl (Store ErrInvalidKey)
       else normalized (eng_put eng db name key v))"

definition tx_Get :: "'db engine \<Rightarrow> Bucket \<Rightarrow> string \<Rightarrow> 'db \<Rightarrow> error + string option" where
  "tx_Get eng b key db =
     bindR (tx_bucket eng db b) (\<lambda>name.
       if key = [] then Inl (Store ErrInvalidKey) else Inr (eng_get eng db name key))"

definition tx_Delete :: "'db engine \<Rightarrow> Bucket \<Rightarrow> string \<Rightarrow> 'db \<Rightarrow> error + 'db" where
  "tx_Delete eng b key db =
     bindR (tx_bucket eng db b) (\<lambda>name.
       if b = BucketAudit then Inl (Store ErrAuditAppendOnly)
       else if key = [] then Inl (Store ErrInvalidKey)
       else normalized (eng_delete eng db name key))"

definition tx_AppendAudit :: "'db engine \<Rightarrow> string \<Rightarrow> string \<Rightarrow> 'db \<Rightarrow> error + 'db" where
  "tx_AppendAudit eng key v db =
     bindR (tx_bucket eng db BucketAudit) (\<lambda>name.
       if key = [] then Inl (Store ErrInvalidKey)
       else if eng_get eng db name key \<noteq> None then Inl (Store ErrAuditAppendOnly)
       else normalized (eng_put eng db name key v))"

text \<open>
  A \<open>ForEach\<close> callback that updates captured variables is a function on their values; the
  iteration stops at the first error.
\<close>

fun foldR :: "('s \<Rightarrow> 'k \<Rightarrow> 'v \<Rightarrow> error + 's) \<Rightarrow> 's \<Rightarrow> ('k \<times> 'v) list \<Rightarrow> error + 's" where
  "foldR fn s [] = Inr s"
| "foldR fn s ((k, v) # rest) = bindR (fn s k v) (\<lambda>s'. foldR fn s' rest)"

definition tx_ForEach ::
    "'db engine \<Rightarrow> Bucket \<Rightarrow> ('s \<Rightarrow> string \<Rightarrow> string \<Rightarrow> error + 's) \<Rightarrow> 's \<Rightarrow> 'db \<Rightarrow> error + 's" where
  "tx_ForEach eng b fn s db =
     bindR (tx_bucket eng db b) (\<lambda>name. foldR fn s (eng_each eng db name))"

section \<open>Schema version\<close>

text \<open>The version is stored in four bytes, most significant first.\<close>

definition byteWord :: "char \<Rightarrow> 32 word" where
  "byteWord c = of_nat (of_char c :: nat)"

definition decodeVersion :: "string \<Rightarrow> 32 word" where
  "decodeVersion e =
     push_bit 24 (byteWord (e ! 0)) OR push_bit 16 (byteWord (e ! 1))
     OR push_bit 8 (byteWord (e ! 2)) OR byteWord (e ! 3)"

definition byteOf :: "32 word \<Rightarrow> char" where
  "byteOf w = char_of (unat w)"

definition encodeVersion :: "32 word \<Rightarrow> string" where
  "encodeVersion version =
     [byteOf (drop_bit 24 version), byteOf (drop_bit 16 version),
      byteOf (drop_bit 8 version), byteOf version]"

definition readSchemaVersion :: "'db engine \<Rightarrow> 'db \<Rightarrow> error + 32 word" where
  "readSchemaVersion eng db =
     (if \<not> eng_bucket eng db metadataBucket then
        (if eng_buckets eng db = [] then Inr 0 else Inl (Store ErrIntegrity))
      else case eng_get eng db metadataBucket schemaVersionKey of
        None \<Rightarrow> Inl (Store ErrIntegrity)
      | Some encoded \<Rightarrow>
          if length encoded \<noteq> 4 then Inl (Store ErrIntegrity)
          else Inr (decodeVersion encoded))"

definition writeSchemaVersion :: "'db engine \<Rightarrow> 32 word \<Rightarrow> 'db \<Rightarrow> error + 'db" where
  "writeSchemaVersion eng version db =
     (if \<not> eng_bucket eng db metadataBucket \<or> version = 0 then Inl (Store ErrIntegrity)
      else eng_put eng db metadataBucket schemaVersionKey (encodeVersion version))"

definition ensureDataBuckets :: "'db engine \<Rightarrow> 'db \<Rightarrow> error option" where
  "ensureDataBuckets eng db =
     (if list_all (\<lambda>b. eng_bucket eng db (bucketName b)) dataBuckets then None
      else Some (Store ErrIntegrity))"

definition SchemaVersion :: "'db engine \<Rightarrow> 'db \<Rightarrow> error + 32 word" where
  "SchemaVersion eng db = View eng (readSchemaVersion eng) db"

section \<open>Migrations\<close>

definition CurrentSchemaVersion :: "32 word" where "CurrentSchemaVersion = 6"

text \<open>\<open>mg_apply\<close> is \<open>None\<close> for a nil function.\<close>

record 'db migration =
  mg_from :: "32 word"
  mg_to :: "32 word"
  mg_apply :: "('db \<Rightarrow> error + 'db) option"

fun createBuckets :: "'db engine \<Rightarrow> Bucket list \<Rightarrow> 'db \<Rightarrow> error + 'db" where
  "createBuckets eng [] db = Inr db"
| "createBuckets eng (b # bs) db =
     bindR (eng_create eng db (bucketName b)) (createBuckets eng bs)"

definition applyInitialMigration :: "'db engine \<Rightarrow> 'db \<Rightarrow> error + 'db" where
  "applyInitialMigration eng db =
     bindR (eng_create eng db metadataBucket) (createBuckets eng initialDataBuckets)"

definition applyServiceTargetMigration :: "'db engine \<Rightarrow> 'db \<Rightarrow> error + 'db" where
  "applyServiceTargetMigration eng db = eng_create eng db (bucketName BucketServiceTargets)"

definition applyRunbookMigration :: "'db engine \<Rightarrow> 'db \<Rightarrow> error + 'db" where
  "applyRunbookMigration eng db = eng_create eng db (bucketName BucketRunbooks)"

definition applyIngressReceiptMigration :: "'db engine \<Rightarrow> 'db \<Rightarrow> error + 'db" where
  "applyIngressReceiptMigration eng db = eng_create eng db (bucketName BucketIngressReceipts)"

definition applyLifecycleEventMigration :: "'db engine \<Rightarrow> 'db \<Rightarrow> error + 'db" where
  "applyLifecycleEventMigration eng db = eng_create eng db (bucketName BucketLifecycleEvents)"

definition applyIncidentReportMigration :: "'db engine \<Rightarrow> 'db \<Rightarrow> error + 'db" where
  "applyIncidentReportMigration eng db = eng_create eng db (bucketName BucketIncidentReports)"

definition defaultMigrations :: "'db engine \<Rightarrow> 'db migration list" where
  "defaultMigrations eng =
     [\<lparr>mg_from = 0, mg_to = 1, mg_apply = Some (applyInitialMigration eng)\<rparr>,
      \<lparr>mg_from = 1, mg_to = 2, mg_apply = Some (applyServiceTargetMigration eng)\<rparr>,
      \<lparr>mg_from = 2, mg_to = 3, mg_apply = Some (applyRunbookMigration eng)\<rparr>,
      \<lparr>mg_from = 3, mg_to = 4, mg_apply = Some (applyIngressReceiptMigration eng)\<rparr>,
      \<lparr>mg_from = 4, mg_to = 5, mg_apply = Some (applyLifecycleEventMigration eng)\<rparr>,
      \<lparr>mg_from = 5, mg_to = CurrentSchemaVersion, mg_apply = Some (applyIncidentReportMigration eng)\<rparr>]"

fun migrationTargetFrom :: "32 word \<Rightarrow> 'db migration list \<Rightarrow> error + 32 word" where
  "migrationTargetFrom target [] = Inr target"
| "migrationTargetFrom target (c # cs) =
     (if mg_apply c = None \<or> mg_to c \<le> mg_from c then Inl (Store ErrUnsupportedSchema)
      else migrationTargetFrom (if mg_to c > target then mg_to c else target) cs)"

definition migrationTarget :: "'db migration list \<Rightarrow> error + 32 word" where
  "migrationTarget migrations =
     (if migrations = [] then Inl (Store ErrUnsupportedSchema)
      else migrationTargetFrom 0 migrations)"

fun findMigration ::
    "32 word \<Rightarrow> 'db migration option \<Rightarrow> 'db migration list \<Rightarrow> error + 'db migration option" where
  "findMigration version found [] = Inr found"
| "findMigration version found (c # cs) =
     (if mg_from c \<noteq> version then findMigration version found cs
      else case found of
        Some _ \<Rightarrow> Inl (Store ErrUnsupportedSchema)
      | None \<Rightarrow> findMigration version (Some c) cs)"

text \<open>The migration step to take: its target version and its (non-nil) function.\<close>

definition nextMigration ::
    "'db migration list \<Rightarrow> 32 word \<Rightarrow> error + (32 word \<times> ('db \<Rightarrow> error + 'db))" where
  "nextMigration migrations version =
     bindR (findMigration version None migrations) (\<lambda>found.
       case found of
         None \<Rightarrow> Inl (Store ErrUnsupportedSchema)
       | Some next \<Rightarrow>
           (case mg_apply next of
              None \<Rightarrow> Inl (Store ErrUnsupportedSchema)
            | Some run \<Rightarrow>
                if mg_to next \<le> version then Inl (Store ErrUnsupportedSchema)
                else Inr (mg_to next, run)))"

lemma nextMigration_increases:
  "nextMigration migrations version = Inr (to, run) \<Longrightarrow> version < to"
  by (cases "findMigration version None migrations")
    (auto simp: nextMigration_def split: option.splits if_splits)

function migrateFrom ::
    "'db engine \<Rightarrow> 'db migration list \<Rightarrow> 32 word \<Rightarrow> 32 word \<Rightarrow> 'db \<Rightarrow> error + 'db" where
  "migrateFrom eng migrations target version db =
     (if version < target then
        (case nextMigration migrations version of
           Inl e \<Rightarrow> Inl e
         | Inr (to, run) \<Rightarrow>
             (case run db of
                Inl e \<Rightarrow> Inl e
              | Inr db' \<Rightarrow>
                  (case writeSchemaVersion eng to db' of
                     Inl e \<Rightarrow> Inl e
                   | Inr db'' \<Rightarrow> migrateFrom eng migrations target to db'')))
      else (case ensureDataBuckets eng db of Some e \<Rightarrow> Inl e | None \<Rightarrow> Inr db))"
  by pat_completeness auto
termination
proof (relation "measure (\<lambda>(eng, migrations, target, version, db). 2 ^ 32 - unat version)", simp)
  fix eng :: "'db engine" and migrations target version db to run db' db'' p
  assume "nextMigration migrations version = Inr p" and "(to, run) = p"
  then have "unat version < unat to"
    by (metis nextMigration_increases word_less_nat_alt)
  moreover have "unat to < 2 ^ LENGTH(32)" by (rule unsigned_less)
  ultimately show "((eng, migrations, target, to, db''), (eng, migrations, target, version, db))
      \<in> measure (\<lambda>(eng, migrations, target, version, db). 2 ^ 32 - unat version)"
    by simp
qed

declare migrateFrom.simps [simp del]

definition migrate :: "'db engine \<Rightarrow> 'db migration list \<Rightarrow> 'db \<Rightarrow> (error + unit) \<times> 'db" where
  "migrate eng migrations db =
     (case migrationTarget migrations of
        Inl e \<Rightarrow> (Inl e, db)
      | Inr target \<Rightarrow>
          (case dbUpdate eng (\<lambda>tx.
                  bindR (readSchemaVersion eng tx) (\<lambda>version.
                    if version > target then Inl (Store ErrUnsupportedSchema)
                    else bindR (migrateFrom eng migrations target version tx) (\<lambda>tx'. Inr ((), tx'))))
                db of
             (r, db') \<Rightarrow> (normalized r, db')))"

text \<open>
  \<open>CheckIntegrity\<close> reports an unsupported schema or a failed check as such and any other
  error as a failed check.
\<close>

definition CheckIntegrity :: "'db engine \<Rightarrow> 'db \<Rightarrow> error option" where
  "CheckIntegrity eng db =
     (case dbView eng (\<lambda>tx.
             bindR (readSchemaVersion eng tx) (\<lambda>version.
               if version \<noteq> CurrentSchemaVersion then Inl (Store ErrUnsupportedSchema)
               else case ensureDataBuckets eng tx of
                 Some e \<Rightarrow> Inl e
               | None \<Rightarrow> if eng_check eng tx \<noteq> [] then Inl (Store ErrIntegrity) else Inr ())) db of
        Inr _ \<Rightarrow> None
      | Inl e \<Rightarrow>
          if e = Store ErrUnsupportedSchema \<or> e = Store ErrIntegrity then Some e
          else Some (Store ErrIntegrity))"

text \<open>The part of \<open>openWithMigrations\<close> behind the file: migrate, then check.\<close>

definition openMigrated :: "'db engine \<Rightarrow> 'db \<Rightarrow> (error + unit) \<times> 'db" where
  "openMigrated eng db =
     (case migrate eng (defaultMigrations eng) db of
        (Inl e, db') \<Rightarrow> (Inl e, db')
      | (Inr _, db') \<Rightarrow>
          (case CheckIntegrity eng db' of
             Some e \<Rightarrow> (Inl e, db')
           | None \<Rightarrow> (Inr (), db')))"

section \<open>The laws of the engine\<close>

text \<open>
  What the store relies on of bbolt: a read sees the writes of its transaction and nothing
  else changes, creating a bucket loses nothing, and iteration visits the pairs of a bucket
  once each, in byte order of the keys. \<open>inv\<close> is the engine's own well-formedness.
\<close>

locale bbolt =
  fixes eng :: "'db engine" and inv :: "'db \<Rightarrow> bool"
  assumes get_no_bucket: "inv db \<Longrightarrow> \<not> eng_bucket eng db n \<Longrightarrow> eng_get eng db n k = None"
    and create_inv: "inv db \<Longrightarrow> eng_create eng db n = Inr db' \<Longrightarrow> inv db'"
    and create_bucket: "inv db \<Longrightarrow> eng_create eng db n = Inr db' \<Longrightarrow>
          eng_bucket eng db' m \<longleftrightarrow> m = n \<or> eng_bucket eng db m"
    and create_get: "inv db \<Longrightarrow> eng_create eng db n = Inr db' \<Longrightarrow>
          eng_get eng db' m k = eng_get eng db m k"
    and put_inv: "inv db \<Longrightarrow> eng_put eng db n k v = Inr db' \<Longrightarrow> inv db'"
    and put_bucket: "inv db \<Longrightarrow> eng_put eng db n k v = Inr db' \<Longrightarrow>
          eng_bucket eng db' m \<longleftrightarrow> eng_bucket eng db m"
    and put_get: "inv db \<Longrightarrow> eng_put eng db n k v = Inr db' \<Longrightarrow>
          eng_get eng db' m j = (if m = n \<and> j = k then Some v else eng_get eng db m j)"
    and delete_inv: "inv db \<Longrightarrow> eng_delete eng db n k = Inr db' \<Longrightarrow> inv db'"
    and delete_bucket: "inv db \<Longrightarrow> eng_delete eng db n k = Inr db' \<Longrightarrow>
          eng_bucket eng db' m \<longleftrightarrow> eng_bucket eng db m"
    and delete_get: "inv db \<Longrightarrow> eng_delete eng db n k = Inr db' \<Longrightarrow>
          eng_get eng db' m j = (if m = n \<and> j = k then None else eng_get eng db m j)"
    and each_sorted: "inv db \<Longrightarrow> keys_sorted (eng_each eng db n)"
    and each_get: "inv db \<Longrightarrow> map_of (eng_each eng db n) = eng_get eng db n"
    and buckets_set: "inv db \<Longrightarrow> set (eng_buckets eng db) = {n. eng_bucket eng db n}"

lemma bucketName_inj:
  "b \<in> set dataBuckets \<Longrightarrow> c \<in> set dataBuckets \<Longrightarrow> bucketName b = bucketName c \<longleftrightarrow> b = c"
  by (auto simp: dataBuckets_def initialDataBuckets_def)

lemma bucketName_not_metadata: "b \<in> set dataBuckets \<Longrightarrow> bucketName b \<noteq> metadataBucket"
  by (auto simp: dataBuckets_def initialDataBuckets_def metadataBucket_def)

lemma normalized_Inr [simp]: "normalized r = Inr x \<longleftrightarrow> r = Inr x"
  by (cases r) (simp_all add: normalized_def)

lemma tx_bucket_Inr [simp]:
  "tx_bucket eng db b = Inr n \<longleftrightarrow>
     b \<in> set dataBuckets \<and> eng_bucket eng db (bucketName b) \<and> n = bucketName b"
  by (auto simp: tx_bucket_def)

lemma Update_Inr: "Update eng fn db = (Inr a, db') \<Longrightarrow> fn db = Inr (a, db')"
  by (auto simp: Update_def dbUpdate_def normalized_def split: option.splits sum.splits prod.splits)

lemma Update_Inl: "Update eng fn db = (Inl e, db') \<Longrightarrow> db' = db"
  by (auto simp: Update_def dbUpdate_def normalized_def split: option.splits sum.splits prod.splits)

lemma Update_cases:
  obtains (failed) e where "Update eng fn db = (Inl e, db)"
  | (committed) a db' where "fn db = Inr (a, db')" "Update eng fn db = (Inr a, db')"
proof (cases "Update eng fn db")
  case (Pair r db')
  show ?thesis
  proof (cases r)
    case (Inl e)
    with Pair have "Update eng fn db = (Inl e, db')" by simp
    moreover from this have "db' = db" by (rule Update_Inl)
    ultimately show ?thesis using failed by simp
  next
    case (Inr a)
    with Pair have "Update eng fn db = (Inr a, db')" by simp
    with Update_Inr [OF this] show ?thesis by (intro committed)
  qed
qed

lemma View_Inr: "View eng fn db = Inr a \<Longrightarrow> fn db = Inr a"
  by (auto simp: View_def dbView_def normalized_def split: option.splits sum.splits)

text \<open>What a bucket holds, as a map from keys to values.\<close>

abbreviation holds :: "'db engine \<Rightarrow> 'db \<Rightarrow> Bucket \<Rightarrow> string \<Rightarrow> string option" where
  "holds eng db b \<equiv> eng_get eng db (bucketName b)"

text \<open>Two contents that agree on a bucket.\<close>

definition same_bucket :: "'db engine \<Rightarrow> Bucket \<Rightarrow> 'db \<Rightarrow> 'db \<Rightarrow> bool" where
  "same_bucket eng b db db' \<longleftrightarrow>
     holds eng db' b = holds eng db b
     \<and> (eng_bucket eng db' (bucketName b) \<longleftrightarrow> eng_bucket eng db (bucketName b))"

lemma same_bucket_refl [simp]: "same_bucket eng b db db"
  by (simp add: same_bucket_def)

lemma same_bucket_trans:
  "same_bucket eng b db db' \<Longrightarrow> same_bucket eng b db' db'' \<Longrightarrow> same_bucket eng b db db''"
  by (simp add: same_bucket_def)

lemma same_bucket_Get: "same_bucket eng b db db' \<Longrightarrow> tx_Get eng b k db' = tx_Get eng b k db"
  by (simp add: same_bucket_def tx_Get_def tx_bucket_def)

context bbolt
begin

lemma same_bucket_each:
  assumes "same_bucket eng b db db'" and "inv db" and "inv db'"
  shows "eng_each eng db' (bucketName b) = eng_each eng db (bucketName b)"
  using assms by (intro keys_sorted_unique) (simp_all add: each_sorted each_get same_bucket_def)

lemma same_bucket_ForEach:
  assumes "same_bucket eng b db db'" and "inv db" and "inv db'"
  shows "tx_ForEach eng b fn s db' = tx_ForEach eng b fn s db"
  using same_bucket_each [OF assms] assms(1)
  by (simp add: tx_ForEach_def tx_bucket_def same_bucket_def)

lemma each_holds:
  assumes "inv db"
  shows "(k, v) \<in> set (eng_each eng db (bucketName b)) \<longleftrightarrow> holds eng db b k = Some v"
  using keys_sorted_distinct [OF each_sorted [OF assms]] each_get [OF assms, of "bucketName b"]
    map_of_eq_Some_iff [of "eng_each eng db (bucketName b)" k v]
  by simp

lemma tx_Put_ok:
  assumes "tx_Put eng b key v db = Inr db'" and "inv db"
  shows "inv db'" and "b \<in> set dataBuckets" and "b \<noteq> BucketAudit" and "key \<noteq> []"
    and "eng_bucket eng db' = eng_bucket eng db"
    and "eng_get eng db' m j
      = (if m = bucketName b \<and> j = key then Some v else eng_get eng db m j)"
proof -
  have put: "eng_put eng db (bucketName b) key v = Inr db'"
    and "b \<in> set dataBuckets" "b \<noteq> BucketAudit" "key \<noteq> []"
    using assms(1) by (auto simp: tx_Put_def result_simps split: if_splits)
  then show "b \<in> set dataBuckets" "b \<noteq> BucketAudit" "key \<noteq> []" by blast+
  show "inv db'" by (rule put_inv [OF assms(2) put])
  show "eng_bucket eng db' = eng_bucket eng db"
    by (rule ext) (rule put_bucket [OF assms(2) put])
  show "eng_get eng db' m j
      = (if m = bucketName b \<and> j = key then Some v else eng_get eng db m j)"
    by (rule put_get [OF assms(2) put])
qed

lemma tx_Put_holds:
  assumes "tx_Put eng b key v db = Inr db'" and "inv db"
  shows "holds eng db' b = (holds eng db b)(key \<mapsto> v)"
  using tx_Put_ok(6) [OF assms] by auto

lemma tx_Put_other:
  assumes "tx_Put eng b key v db = Inr db'" and "inv db" and "c \<noteq> b" and "c \<in> set dataBuckets"
  shows "same_bucket eng c db db'"
proof -
  have "bucketName c \<noteq> bucketName b"
    using bucketName_inj tx_Put_ok(2) [OF assms(1,2)] assms(3,4) by blast
  then have "holds eng db' c = holds eng db c"
    using tx_Put_ok(6) [OF assms(1,2)] by auto
  then show ?thesis
    using tx_Put_ok(5) [OF assms(1,2)] by (simp add: same_bucket_def)
qed

lemma tx_Put_Get:
  assumes "tx_Put eng b key v db = Inr db'" and "inv db" and "j \<noteq> []"
  shows "tx_Get eng b j db' = (if j = key then Inr (Some v) else tx_Get eng b j db)"
proof -
  have "eng_bucket eng db (bucketName b)"
    using assms(1) by (auto simp: tx_Put_def result_simps)
  then show ?thesis
    using tx_Put_ok(2,4,5) [OF assms(1,2)] tx_Put_ok(6) [OF assms(1,2)] assms(3)
    by (simp add: tx_Get_def tx_bucket_def)
qed

lemma tx_Delete_ok:
  assumes "tx_Delete eng b key db = Inr db'" and "inv db"
  shows "inv db'" and "b \<in> set dataBuckets" and "b \<noteq> BucketAudit"
    and "eng_bucket eng db' = eng_bucket eng db"
    and "eng_get eng db' m j
      = (if m = bucketName b \<and> j = key then None else eng_get eng db m j)"
proof -
  have del: "eng_delete eng db (bucketName b) key = Inr db'"
    and "b \<in> set dataBuckets" "b \<noteq> BucketAudit"
    using assms(1) by (auto simp: tx_Delete_def result_simps split: if_splits)
  then show "b \<in> set dataBuckets" "b \<noteq> BucketAudit" by blast+
  show "inv db'" by (rule delete_inv [OF assms(2) del])
  show "eng_bucket eng db' = eng_bucket eng db"
    by (rule ext) (rule delete_bucket [OF assms(2) del])
  show "eng_get eng db' m j
      = (if m = bucketName b \<and> j = key then None else eng_get eng db m j)"
    by (rule delete_get [OF assms(2) del])
qed

lemma tx_Delete_other:
  assumes "tx_Delete eng b key db = Inr db'" and "inv db" and "c \<noteq> b" and "c \<in> set dataBuckets"
  shows "same_bucket eng c db db'"
proof -
  have "bucketName c \<noteq> bucketName b"
    using bucketName_inj tx_Delete_ok(2) [OF assms(1,2)] assms(3,4) by blast
  then have "holds eng db' c = holds eng db c"
    using tx_Delete_ok(5) [OF assms(1,2)] by auto
  then show ?thesis
    using tx_Delete_ok(4) [OF assms(1,2)] by (simp add: same_bucket_def)
qed

lemma tx_AppendAudit_ok:
  assumes "tx_AppendAudit eng key v db = Inr db'" and "inv db"
  shows "inv db'" and "key \<noteq> []" and "holds eng db BucketAudit key = None"
    and "eng_bucket eng db' = eng_bucket eng db"
    and "eng_get eng db' m j
      = (if m = bucketName BucketAudit \<and> j = key then Some v else eng_get eng db m j)"
proof -
  have put: "eng_put eng db (bucketName BucketAudit) key v = Inr db'"
    and "key \<noteq> []" "holds eng db BucketAudit key = None"
    using assms(1)
    by (auto simp: tx_AppendAudit_def result_simps simp del: bucketName.simps split: if_splits)
  then show "key \<noteq> []" "holds eng db BucketAudit key = None" by blast+
  show "inv db'" by (rule put_inv [OF assms(2) put])
  show "eng_bucket eng db' = eng_bucket eng db"
    by (rule ext) (rule put_bucket [OF assms(2) put])
  show "eng_get eng db' m j
      = (if m = bucketName BucketAudit \<and> j = key then Some v else eng_get eng db m j)"
    by (rule put_get [OF assms(2) put])
qed

lemma tx_AppendAudit_other:
  assumes "tx_AppendAudit eng key v db = Inr db'" and "inv db" and "c \<noteq> BucketAudit"
    and "c \<in> set dataBuckets"
  shows "same_bucket eng c db db'"
proof -
  have "BucketAudit \<in> set dataBuckets" by (simp add: dataBuckets_def initialDataBuckets_def)
  then have "bucketName c \<noteq> bucketName BucketAudit"
    using bucketName_inj assms(3,4) by blast
  then have "holds eng db' c = holds eng db c"
    using tx_AppendAudit_ok(5) [OF assms(1,2)] by auto
  then show ?thesis
    using tx_AppendAudit_ok(4) [OF assms(1,2)] by (simp add: same_bucket_def)
qed

end

section \<open>A reference engine\<close>

text \<open>
  Buckets in byte order of their names, each holding its pairs in byte order of their keys.
  It never runs out of space; a write to a missing bucket fails.
\<close>

type_synonym mem_db = "(string \<times> (string \<times> string) list) list"

fun upsert :: "'k::linorder \<Rightarrow> 'v \<Rightarrow> ('k \<times> 'v) list \<Rightarrow> ('k \<times> 'v) list" where
  "upsert k v [] = [(k, v)]"
| "upsert k v ((j, w) # rest) =
     (if k = j then (k, v) # rest
      else if k < j then (k, v) # (j, w) # rest
      else (j, w) # upsert k v rest)"

definition mem_engine :: "mem_db engine" where
  "mem_engine =
     \<lparr>eng_begin = (\<lambda>_. None),
      eng_commit = (\<lambda>_. None),
      eng_bucket = (\<lambda>db n. map_of db n \<noteq> None),
      eng_buckets = (\<lambda>db. map fst db),
      eng_create = (\<lambda>db n. Inr (if map_of db n = None then upsert n [] db else db)),
      eng_get = (\<lambda>db n k. case map_of db n of None \<Rightarrow> None | Some b \<Rightarrow> map_of b k),
      eng_put = (\<lambda>db n k v. case map_of db n of
          None \<Rightarrow> Inl (External ''bucket not found'')
        | Some b \<Rightarrow> Inr (upsert n (upsert k v b) db)),
      eng_delete = (\<lambda>db n k. case map_of db n of
          None \<Rightarrow> Inl (External ''bucket not found'')
        | Some b \<Rightarrow> Inr (upsert n (filter (\<lambda>p. fst p \<noteq> k) b) db)),
      eng_each = (\<lambda>db n. case map_of db n of None \<Rightarrow> [] | Some b \<Rightarrow> b),
      eng_check = (\<lambda>_. [])\<rparr>"

lemmas mem_engine_simps [simp] =
  mem_engine_def [THEN arg_cong, of eng_begin, simplified]
  mem_engine_def [THEN arg_cong, of eng_commit, simplified]
  mem_engine_def [THEN arg_cong, of eng_bucket, simplified]
  mem_engine_def [THEN arg_cong, of eng_buckets, simplified]
  mem_engine_def [THEN arg_cong, of eng_create, simplified]
  mem_engine_def [THEN arg_cong, of eng_get, simplified]
  mem_engine_def [THEN arg_cong, of eng_put, simplified]
  mem_engine_def [THEN arg_cong, of eng_delete, simplified]
  mem_engine_def [THEN arg_cong, of eng_each, simplified]
  mem_engine_def [THEN arg_cong, of eng_check, simplified]

definition mem_inv :: "mem_db \<Rightarrow> bool" where
  "mem_inv db \<longleftrightarrow> keys_sorted db \<and> (\<forall>p \<in> set db. keys_sorted (snd p))"

lemma keys_upsert: "fst ` set (upsert k v xs) = insert k (fst ` set xs)"
  by (induction k v xs rule: upsert.induct) auto

lemma set_upsert: "set (upsert k v xs) \<subseteq> insert (k, v) (set xs)"
  by (induction k v xs rule: upsert.induct) auto

lemma keys_sorted_upsert: "keys_sorted xs \<Longrightarrow> keys_sorted (upsert k v xs)"
proof (induction k v xs rule: upsert.induct)
  case (2 k v j w rest)
  show ?case
  proof (cases "k = j \<or> k < j")
    case True
    with 2(2) show ?thesis by (auto simp: keys_sorted_Cons)
  next
    case False
    then have "j < k" by auto
    moreover from 2(2) have "\<forall>x \<in> set rest. j < fst x" and "keys_sorted rest"
      by (simp_all add: keys_sorted_Cons)
    ultimately have "\<forall>x \<in> set (upsert k v rest). j < fst x"
      using keys_upsert [of k v rest] by (metis image_iff insert_iff)
    with False 2(1) \<open>keys_sorted rest\<close> show ?thesis by (simp add: keys_sorted_Cons)
  qed
qed (simp add: keys_sorted_def)

lemma map_of_upsert:
  "keys_sorted xs \<Longrightarrow> map_of (upsert k v xs) = (map_of xs)(k \<mapsto> v)"
proof (induction k v xs rule: upsert.induct)
  case (2 k v j w rest)
  then have "keys_sorted rest" by (simp add: keys_sorted_Cons)
  with 2(1) show ?case by (auto simp: fun_eq_iff)
qed simp

lemma keys_sorted_filter: "keys_sorted xs \<Longrightarrow> keys_sorted (filter P xs)"
  by (induction xs) (auto simp: keys_sorted_def)

lemma mem_inv_upsert: "mem_inv db \<Longrightarrow> keys_sorted b \<Longrightarrow> mem_inv (upsert n b db)"
  using set_upsert [of n b db] by (auto simp: mem_inv_def keys_sorted_upsert)

lemma mem_inv_bucket: "mem_inv db \<Longrightarrow> map_of db n = Some b \<Longrightarrow> keys_sorted b"
  by (fastforce simp: mem_inv_def dest: map_of_SomeD)

lemma mem_inv_sorted: "mem_inv db \<Longrightarrow> keys_sorted db"
  by (simp add: mem_inv_def)

lemma map_of_filter_key: "map_of (filter (\<lambda>p. fst p \<noteq> k) xs) = (map_of xs)(k := None)"
  by (induction xs) (auto simp: fun_eq_iff)

interpretation mem: bbolt mem_engine mem_inv
proof
  fix db db' :: mem_db and n m k j v :: string
  assume inv: "mem_inv db"
  show "\<not> eng_bucket mem_engine db n \<Longrightarrow> eng_get mem_engine db n k = None" by simp
  show "keys_sorted (eng_each mem_engine db n)"
    using inv by (auto simp: mem_inv_bucket keys_sorted_def [of "[]"] split: option.splits)
  show "map_of (eng_each mem_engine db n) = eng_get mem_engine db n"
    by (auto simp: fun_eq_iff split: option.splits)
  show "set (eng_buckets mem_engine db) = {n. eng_bucket mem_engine db n}"
    using dom_map_of_conv_image_fst [of db] by (simp add: dom_def)
  show "eng_create mem_engine db n = Inr db' \<Longrightarrow> mem_inv db'"
    using inv by (auto simp: mem_inv_upsert keys_sorted_def [of "[]"] split: if_splits)
  show "eng_create mem_engine db n = Inr db' \<Longrightarrow>
      eng_bucket mem_engine db' m \<longleftrightarrow> m = n \<or> eng_bucket mem_engine db m"
    using mem_inv_sorted [OF inv] by (auto simp: map_of_upsert split: if_splits)
  show "eng_create mem_engine db n = Inr db' \<Longrightarrow>
      eng_get mem_engine db' m k = eng_get mem_engine db m k"
    using mem_inv_sorted [OF inv] by (auto simp: map_of_upsert split: if_splits option.splits)
  show "eng_put mem_engine db n k v = Inr db' \<Longrightarrow> mem_inv db'"
    using inv by (auto simp: mem_inv_upsert keys_sorted_upsert mem_inv_bucket split: option.splits)
  show "eng_put mem_engine db n k v = Inr db' \<Longrightarrow>
      eng_bucket mem_engine db' m \<longleftrightarrow> eng_bucket mem_engine db m"
    using mem_inv_sorted [OF inv] by (auto simp: map_of_upsert split: option.splits if_splits)
  show "eng_put mem_engine db n k v = Inr db' \<Longrightarrow>
      eng_get mem_engine db' m j = (if m = n \<and> j = k then Some v else eng_get mem_engine db m j)"
    using mem_inv_sorted [OF inv] mem_inv_bucket [OF inv, of n]
    by (auto simp: map_of_upsert split: option.splits if_splits)
  show "eng_delete mem_engine db n k = Inr db' \<Longrightarrow> mem_inv db'"
    using inv by (auto simp: mem_inv_upsert keys_sorted_filter mem_inv_bucket split: option.splits)
  show "eng_delete mem_engine db n k = Inr db' \<Longrightarrow>
      eng_bucket mem_engine db' m \<longleftrightarrow> eng_bucket mem_engine db m"
    using mem_inv_sorted [OF inv] by (auto simp: map_of_upsert split: option.splits if_splits)
  show "eng_delete mem_engine db n k = Inr db' \<Longrightarrow>
      eng_get mem_engine db' m j = (if m = n \<and> j = k then None else eng_get mem_engine db m j)"
    using mem_inv_sorted [OF inv]
    by (auto simp: map_of_upsert map_of_filter_key split: option.splits if_splits)
qed

section \<open>Schema versions and migrations\<close>

lemma byteWord_byteOf: "byteWord (byteOf w) = take_bit 8 w"
proof -
  have "byteWord (byteOf w) = of_nat (take_bit 8 (unat w))"
    by (simp add: byteWord_def byteOf_def take_bit_eq_mod)
  also have "\<dots> = take_bit 8 w"
    by (simp flip: unsigned_take_bit_eq)
  finally show ?thesis .
qed

lemma decode_encodeVersion: "decodeVersion (encodeVersion version) = version"
proof (rule bit_word_eqI)
  fix n
  assume "n < LENGTH(32)"
  then consider "n < 8" | m where "n = 8 + m" "m < 8" | m where "n = 16 + m" "m < 8"
    | m where "n = 24 + m" "m < 8"
    by (atomize_elim) (simp, presburger)
  then show "bit (decodeVersion (encodeVersion version)) n \<longleftrightarrow> bit version n"
    unfolding decodeVersion_def encodeVersion_def
    by cases (auto simp: byteWord_byteOf bit_simps)
qed

text \<open>
  A migration keeps what the store holds: no bucket disappears and no pair outside the
  metadata bucket changes.
\<close>

definition keeps_data :: "'db engine \<Rightarrow> 'db \<Rightarrow> 'db \<Rightarrow> bool" where
  "keeps_data eng db db' \<longleftrightarrow>
     (\<forall>n. eng_bucket eng db n \<longrightarrow> eng_bucket eng db' n)
     \<and> (\<forall>n k. n \<noteq> metadataBucket \<longrightarrow> eng_get eng db' n k = eng_get eng db n k)"

lemma keeps_data_refl [simp]: "keeps_data eng db db"
  by (simp add: keeps_data_def)

lemma keeps_data_trans:
  "keeps_data eng db db' \<Longrightarrow> keeps_data eng db' db'' \<Longrightarrow> keeps_data eng db db''"
  by (simp add: keeps_data_def)

lemma ensureDataBuckets_None [simp]:
  "ensureDataBuckets eng db = None \<longleftrightarrow> (\<forall>b \<in> set dataBuckets. eng_bucket eng db (bucketName b))"
  by (simp add: ensureDataBuckets_def list_all_iff)

lemma findMigration_set:
  "findMigration version found migrations = Inr (Some m) \<Longrightarrow> m \<in> set migrations \<or> found = Some m"
  by (induction version found migrations rule: findMigration.induct)
    (auto split: if_splits option.splits)

lemma nextMigration_set:
  assumes "nextMigration migrations version = Inr (to, run)"
  shows "\<exists>m \<in> set migrations. mg_to m = to \<and> mg_apply m = Some run"
  using assms findMigration_set [of version None migrations]
  by (cases "findMigration version None migrations")
    (auto simp: nextMigration_def split: option.splits if_splits)

lemma migrationTargetFrom_bound:
  "migrationTargetFrom t migrations = Inr target \<Longrightarrow>
     t \<le> target \<and> (\<forall>m \<in> set migrations. mg_to m \<le> target)"
  by (induction t migrations rule: migrationTargetFrom.induct) (auto split: if_splits)

lemma defaultMigrations_target: "migrationTarget (defaultMigrations eng) = Inr 6"
  by (simp add: migrationTarget_def defaultMigrations_def CurrentSchemaVersion_def
      word_le_nat_alt word_less_nat_alt)

context bbolt
begin

definition keeping :: "('db \<Rightarrow> error + 'db) \<Rightarrow> bool" where
  "keeping run \<longleftrightarrow> (\<forall>db db'. inv db \<longrightarrow> run db = Inr db' \<longrightarrow> inv db' \<and> keeps_data eng db db')"

lemma keeping_create: "keeping (\<lambda>db. eng_create eng db n)"
  unfolding keeping_def keeps_data_def using create_inv create_bucket create_get by blast

lemma keeping_seq:
  assumes "keeping f" and "keeping g"
  shows "keeping (\<lambda>db. bindR (f db) g)"
  unfolding keeping_def
proof (intro allI impI)
  fix db db'
  assume inv: "inv db" and "bindR (f db) g = Inr db'"
  then obtain db1 where run: "f db = Inr db1" "g db1 = Inr db'" by (auto simp: result_simps)
  have db1: "inv db1" "keeps_data eng db db1"
    using assms(1) run(1) inv by (auto simp: keeping_def)
  have "inv db'" "keeps_data eng db1 db'"
    using assms(2) run(2) db1(1) by (auto simp: keeping_def)
  with keeps_data_trans [OF db1(2)] show "inv db' \<and> keeps_data eng db db'" by simp
qed

lemma keeping_createBuckets: "keeping (createBuckets eng bs)"
proof (induction bs)
  case Nil
  then show ?case by (simp add: keeping_def)
next
  case (Cons b bs)
  have "createBuckets eng (b # bs)
      = (\<lambda>db. bindR (eng_create eng db (bucketName b)) (createBuckets eng bs))"
    by (rule ext) simp
  then show ?case using keeping_seq [OF keeping_create Cons] by simp
qed

lemma keeping_defaults:
  assumes "m \<in> set (defaultMigrations eng)" and "mg_apply m = Some run"
  shows "keeping run"
proof -
  have "applyInitialMigration eng
      = (\<lambda>db. bindR (eng_create eng db metadataBucket) (createBuckets eng initialDataBuckets))"
    by (rule ext) (simp add: applyInitialMigration_def)
  then have "keeping (applyInitialMigration eng)"
    using keeping_seq [OF keeping_create keeping_createBuckets] by simp
  with assms show ?thesis
    by (auto simp: defaultMigrations_def keeping_create
        applyServiceTargetMigration_def [abs_def] applyRunbookMigration_def [abs_def]
        applyIngressReceiptMigration_def [abs_def] applyLifecycleEventMigration_def [abs_def]
        applyIncidentReportMigration_def [abs_def])
qed

lemma writeSchemaVersion_ok:
  assumes "writeSchemaVersion eng version db = Inr db'" and "inv db"
  shows "inv db'" and "keeps_data eng db db'" and "readSchemaVersion eng db' = Inr version"
proof -
  have meta: "eng_bucket eng db metadataBucket"
    and put: "eng_put eng db metadataBucket schemaVersionKey (encodeVersion version) = Inr db'"
    using assms(1) by (auto simp: writeSchemaVersion_def split: if_splits)
  show "inv db'" by (rule put_inv [OF assms(2) put])
  show "keeps_data eng db db'"
    unfolding keeps_data_def using put_bucket [OF assms(2) put] put_get [OF assms(2) put] by simp
  have "eng_bucket eng db' metadataBucket"
    using put_bucket [OF assms(2) put] meta by simp
  moreover have "eng_get eng db' metadataBucket schemaVersionKey = Some (encodeVersion version)"
    using put_get [OF assms(2) put] by simp
  moreover have "length (encodeVersion version) = 4" by (simp add: encodeVersion_def)
  ultimately show "readSchemaVersion eng db' = Inr version"
    by (simp add: readSchemaVersion_def decode_encodeVersion)
qed

lemma migrateFrom_ok:
  assumes "migrateFrom eng migrations target version db = Inr db'"
    and "inv db" and "readSchemaVersion eng db = Inr version" and "version \<le> target"
    and "\<And>m run. m \<in> set migrations \<Longrightarrow> mg_apply m = Some run \<Longrightarrow> keeping run"
    and "\<And>m. m \<in> set migrations \<Longrightarrow> mg_to m \<le> target"
  shows "inv db' \<and> keeps_data eng db db' \<and> readSchemaVersion eng db' = Inr target
    \<and> ensureDataBuckets eng db' = None"
  using assms(1-4)
proof (induction "2 ^ 32 - unat version" arbitrary: version db rule: less_induct)
  case less
  show ?case
  proof (cases "version < target")
    case False
    with less.prems show ?thesis
      by (auto simp: migrateFrom.simps [of eng migrations target version] split: option.splits)
  next
    case True
    then obtain to run db1 db2 where step: "nextMigration migrations version = Inr (to, run)"
      "run db = Inr db1" "writeSchemaVersion eng to db1 = Inr db2"
      "migrateFrom eng migrations target to db2 = Inr db'"
      using less.prems(1) by (auto simp: migrateFrom.simps [of eng migrations target version]
          split: sum.splits)
    obtain m where m: "m \<in> set migrations" "mg_to m = to" "mg_apply m = Some run"
      using nextMigration_set [OF step(1)] by blast
    have db1: "inv db1" "keeps_data eng db db1"
      using assms(5) [OF m(1,3)] step(2) less.prems(2) unfolding keeping_def by blast+
    note db2 = writeSchemaVersion_ok [OF step(3) db1(1)]
    have "unat version < unat to"
      using nextMigration_increases [OF step(1)] by (simp add: word_less_nat_alt)
    moreover have "unat to < 2 ^ LENGTH(32)" by (rule unsigned_less)
    ultimately have "2 ^ 32 - unat to < 2 ^ 32 - unat version" by simp
    from less.hyps [OF this step(4) db2(1) db2(3)] assms(6) [OF m(1)] m(2)
    have "inv db' \<and> keeps_data eng db2 db' \<and> readSchemaVersion eng db' = Inr target
      \<and> ensureDataBuckets eng db' = None" by simp
    with keeps_data_trans [OF db1(2) keeps_data_trans [OF db2(2)]] show ?thesis by blast
  qed
qed

lemma openMigrated_ok:
  assumes "openMigrated eng db = (Inr (), db')" and "inv db"
  shows "inv db' \<and> keeps_data eng db db' \<and> readSchemaVersion eng db' = Inr 6
    \<and> (\<forall>b \<in> set dataBuckets. eng_bucket eng db' (bucketName b))"
proof -
  obtain version where version: "readSchemaVersion eng db = Inr version" "version \<le> 6"
    "migrateFrom eng (defaultMigrations eng) 6 version db = Inr db'"
    using assms(1)
    by (auto simp: openMigrated_def migrate_def defaultMigrations_target dbUpdate_def
        result_simps not_less split: prod.splits sum.splits option.splits if_splits)
  have "mg_to m \<le> 6" if "m \<in> set (defaultMigrations eng)" for m
    using that defaultMigrations_target [of eng] migrationTargetFrom_bound [of 0]
    by (auto simp: migrationTarget_def split: if_splits)
  from migrateFrom_ok [OF version(3) assms(2) version(1,2) keeping_defaults this]
  show ?thesis by simp
qed

end

text \<open>An engine that never refuses a transaction or a write for want of space.\<close>

locale roomy_bbolt = bbolt +
  assumes begin_ok: "inv db \<Longrightarrow> eng_begin eng db = None"
    and commit_ok: "inv db \<Longrightarrow> eng_commit eng db = None"
    and check_ok: "inv db \<Longrightarrow> eng_check eng db = []"
    and create_room: "inv db \<Longrightarrow> \<exists>db'. eng_create eng db n = Inr db'"
    and put_room: "inv db \<Longrightarrow> eng_bucket eng db n \<Longrightarrow> k \<noteq> [] \<Longrightarrow>
          \<exists>db'. eng_put eng db n k v = Inr db'"
    and delete_room: "inv db \<Longrightarrow> eng_bucket eng db n \<Longrightarrow> k \<noteq> [] \<Longrightarrow>
          \<exists>db'. eng_delete eng db n k = Inr db'"
begin

lemma Update_room:
  assumes "fn db = Inr (a, db')" and "inv db" and "inv db'"
  shows "Update eng fn db = (Inr a, db')"
  using assms by (simp add: Update_def dbUpdate_def begin_ok commit_ok normalized_def)

lemma View_room: "inv db \<Longrightarrow> fn db = Inr a \<Longrightarrow> View eng fn db = Inr a"
  by (simp add: View_def dbView_def begin_ok)

lemma tx_Put_room:
  assumes "inv db" and "b \<in> set dataBuckets" and "b \<noteq> BucketAudit" and "key \<noteq> []"
    and "eng_bucket eng db (bucketName b)"
  shows "\<exists>db'. tx_Put eng b key v db = Inr db'"
proof -
  obtain db' where "eng_put eng db (bucketName b) key v = Inr db'"
    using put_room [OF assms(1,5,4)] by blast
  with assms show ?thesis by (simp add: tx_Put_def tx_bucket_def normalized_def)
qed

lemma createBuckets_room:
  "inv db \<Longrightarrow> \<exists>db'. createBuckets eng bs db = Inr db' \<and> inv db'
     \<and> (\<forall>n. eng_bucket eng db' n \<longleftrightarrow> n \<in> bucketName ` set bs \<or> eng_bucket eng db n)"
proof (induction bs arbitrary: db)
  case (Cons b bs)
  obtain db1 where db1: "eng_create eng db (bucketName b) = Inr db1"
    using create_room [OF Cons.prems] by blast
  obtain db' where db': "createBuckets eng bs db1 = Inr db'" "inv db'"
    "\<forall>n. eng_bucket eng db' n \<longleftrightarrow> n \<in> bucketName ` set bs \<or> eng_bucket eng db1 n"
    using Cons.IH [OF create_inv [OF Cons.prems db1]] by blast
  from db'(3) create_bucket [OF Cons.prems db1] db1 db'(1,2) show ?case by auto
qed simp

lemma migrateFrom_step:
  assumes "version < target" and "nextMigration migrations version = Inr (to, run)"
    and "run db = Inr db1" and "inv db1" and "eng_bucket eng db1 metadataBucket" and "to \<noteq> 0"
  shows "\<exists>db2. migrateFrom eng migrations target version db = migrateFrom eng migrations target to db2
    \<and> inv db2 \<and> eng_bucket eng db2 = eng_bucket eng db1"
proof -
  obtain db2 where db2: "eng_put eng db1 metadataBucket schemaVersionKey (encodeVersion to) = Inr db2"
    using put_room [OF assms(4,5)] by (auto simp: schemaVersionKey_def)
  have "eng_bucket eng db2 = eng_bucket eng db1"
    using put_bucket [OF assms(4) db2] by (auto simp: fun_eq_iff)
  moreover have "inv db2" by (rule put_inv [OF assms(4) db2])
  ultimately show ?thesis
    using assms db2 by (intro exI [of _ db2])
      (simp add: migrateFrom.simps [of eng migrations target version] writeSchemaVersion_def)
qed

lemma migrateFrom_create:
  assumes "version < target"
    and "nextMigration migrations version = Inr (to, \<lambda>db. eng_create eng db n)"
    and "inv db" and "eng_bucket eng db metadataBucket" and "to \<noteq> 0"
  obtains db2 where
    "migrateFrom eng migrations target version db = migrateFrom eng migrations target to db2"
    "inv db2" "\<forall>m. eng_bucket eng db2 m \<longleftrightarrow> m = n \<or> eng_bucket eng db m"
proof -
  obtain db1 where db1: "eng_create eng db n = Inr db1"
    using create_room [OF assms(3)] by blast
  note b = create_bucket [OF assms(3) db1]
  have "eng_bucket eng db1 metadataBucket" using b assms(4) by simp
  from migrateFrom_step [OF assms(1,2) db1 create_inv [OF assms(3) db1] this assms(5)]
  show ?thesis using that b by metis
qed

lemma defaultMigrations_next:
  "nextMigration (defaultMigrations eng) 0 = Inr (1, applyInitialMigration eng)"
  "nextMigration (defaultMigrations eng) 1 = Inr (2, \<lambda>db. eng_create eng db (bucketName BucketServiceTargets))"
  "nextMigration (defaultMigrations eng) 2 = Inr (3, \<lambda>db. eng_create eng db (bucketName BucketRunbooks))"
  "nextMigration (defaultMigrations eng) 3 = Inr (4, \<lambda>db. eng_create eng db (bucketName BucketIngressReceipts))"
  "nextMigration (defaultMigrations eng) 4 = Inr (5, \<lambda>db. eng_create eng db (bucketName BucketLifecycleEvents))"
  "nextMigration (defaultMigrations eng) 5 = Inr (6, \<lambda>db. eng_create eng db (bucketName BucketIncidentReports))"
  by (simp_all add: nextMigration_def defaultMigrations_def CurrentSchemaVersion_def
      word_le_nat_alt applyServiceTargetMigration_def [abs_def] applyRunbookMigration_def [abs_def]
      applyIngressReceiptMigration_def [abs_def] applyLifecycleEventMigration_def [abs_def]
      applyIncidentReportMigration_def [abs_def])

lemma migrateFrom_empty:
  assumes "inv db"
  shows "\<exists>db'. migrateFrom eng (defaultMigrations eng) 6 0 db = Inr db'"
proof -
  let ?D = "defaultMigrations eng"
  obtain m0 where m0: "eng_create eng db metadataBucket = Inr m0"
    using create_room [OF assms] by blast
  obtain db0 where db0: "createBuckets eng initialDataBuckets m0 = Inr db0" "inv db0"
    "\<forall>n. eng_bucket eng db0 n \<longleftrightarrow> n \<in> bucketName ` set initialDataBuckets \<or> eng_bucket eng m0 n"
    using createBuckets_room [OF create_inv [OF assms m0]] by blast
  have meta0: "eng_bucket eng db0 metadataBucket"
    using db0(3) create_bucket [OF assms m0] by simp
  have run0: "applyInitialMigration eng db = Inr db0"
    using m0 db0(1) by (simp add: applyInitialMigration_def)
  obtain db1 where db1: "migrateFrom eng ?D 6 0 db = migrateFrom eng ?D 6 1 db1" "inv db1"
    "eng_bucket eng db1 = eng_bucket eng db0"
    using migrateFrom_step [OF _ defaultMigrations_next(1) run0 db0(2) meta0, of 6] by auto
  obtain db2 where db2: "migrateFrom eng ?D 6 1 db1 = migrateFrom eng ?D 6 2 db2" "inv db2"
    "\<forall>m. eng_bucket eng db2 m \<longleftrightarrow> m = bucketName BucketServiceTargets \<or> eng_bucket eng db1 m"
    by (rule migrateFrom_create [OF _ defaultMigrations_next(2) db1(2), of 6])
      (simp_all add: db1(3) meta0 word_less_nat_alt)
  obtain db3 where db3: "migrateFrom eng ?D 6 2 db2 = migrateFrom eng ?D 6 3 db3" "inv db3"
    "\<forall>m. eng_bucket eng db3 m \<longleftrightarrow> m = bucketName BucketRunbooks \<or> eng_bucket eng db2 m"
    by (rule migrateFrom_create [OF _ defaultMigrations_next(3) db2(2), of 6])
      (simp_all add: db2(3) db1(3) meta0 word_less_nat_alt)
  obtain db4 where db4: "migrateFrom eng ?D 6 3 db3 = migrateFrom eng ?D 6 4 db4" "inv db4"
    "\<forall>m. eng_bucket eng db4 m \<longleftrightarrow> m = bucketName BucketIngressReceipts \<or> eng_bucket eng db3 m"
    by (rule migrateFrom_create [OF _ defaultMigrations_next(4) db3(2), of 6])
      (simp_all add: db3(3) db2(3) db1(3) meta0 word_less_nat_alt)
  obtain db5 where db5: "migrateFrom eng ?D 6 4 db4 = migrateFrom eng ?D 6 5 db5" "inv db5"
    "\<forall>m. eng_bucket eng db5 m \<longleftrightarrow> m = bucketName BucketLifecycleEvents \<or> eng_bucket eng db4 m"
    by (rule migrateFrom_create [OF _ defaultMigrations_next(5) db4(2), of 6])
      (simp_all add: db4(3) db3(3) db2(3) db1(3) meta0 word_less_nat_alt)
  obtain db6 where db6: "migrateFrom eng ?D 6 5 db5 = migrateFrom eng ?D 6 6 db6" "inv db6"
    "\<forall>m. eng_bucket eng db6 m \<longleftrightarrow> m = bucketName BucketIncidentReports \<or> eng_bucket eng db5 m"
    by (rule migrateFrom_create [OF _ defaultMigrations_next(6) db5(2), of 6])
      (simp_all add: db5(3) db4(3) db3(3) db2(3) db1(3) meta0 word_less_nat_alt)
  have "eng_bucket eng db6 (bucketName b)" if "b \<in> set dataBuckets" for b
    using that unfolding dataBuckets_def
    by (auto simp: db6(3) db5(3) db4(3) db3(3) db2(3) db1(3) db0(3) simp del: bucketName.simps)
  then have "ensureDataBuckets eng db6 = None" by simp
  then have "migrateFrom eng ?D 6 6 db6 = Inr db6"
    by (simp add: migrateFrom.simps [of eng ?D 6 6] del: ensureDataBuckets_None)
  with db1(1) db2(1) db3(1) db4(1) db5(1) db6(1) show ?thesis by simp
qed

lemma openMigrated_empty:
  assumes "inv db" and "eng_buckets eng db = []"
  shows "\<exists>db'. openMigrated eng db = (Inr (), db')"
proof -
  obtain db' where db': "migrateFrom eng (defaultMigrations eng) 6 0 db = Inr db'"
    using migrateFrom_empty [OF assms(1)] by blast
  have "\<not> eng_bucket eng db metadataBucket"
    using buckets_set [OF assms(1)] assms(2) by auto
  then have version: "readSchemaVersion eng db = Inr 0"
    using assms(2) by (simp add: readSchemaVersion_def)
  have "mg_to m \<le> 6" if "m \<in> set (defaultMigrations eng)" for m
    using that defaultMigrations_target [of eng] migrationTargetFrom_bound [of 0]
    by (auto simp: migrationTarget_def split: if_splits)
  from migrateFrom_ok [OF db' assms(1) version _ keeping_defaults this]
  have ok: "inv db'" "readSchemaVersion eng db' = Inr 6" "ensureDataBuckets eng db' = None"
    by simp_all
  have "migrate eng (defaultMigrations eng) db = (Inr (), db')"
    using assms(1) ok(1) version db'
    by (simp add: migrate_def defaultMigrations_target dbUpdate_def begin_ok commit_ok
        normalized_def)
  moreover have "CheckIntegrity eng db' = None"
    using ok begin_ok [OF ok(1)] check_ok [OF ok(1)]
    by (simp add: CheckIntegrity_def dbView_def CurrentSchemaVersion_def
        del: ensureDataBuckets_None)
  ultimately show ?thesis by (simp add: openMigrated_def)
qed

end

interpretation mem: roomy_bbolt mem_engine mem_inv
  by unfold_locales (auto split: option.splits)

section \<open>Sequences of transaction operations\<close>

text \<open>Every way a callback can write: the three write operations of \<open>Tx\<close>, in any order.\<close>

datatype tx_write = WPut Bucket string string | WDelete Bucket string | WAppendAudit string string

fun tx_apply :: "'db engine \<Rightarrow> tx_write \<Rightarrow> 'db \<Rightarrow> error + 'db" where
  "tx_apply eng (WPut b key v) db = tx_Put eng b key v db"
| "tx_apply eng (WDelete b key) db = tx_Delete eng b key db"
| "tx_apply eng (WAppendAudit key v) db = tx_AppendAudit eng key v db"

fun tx_applyAll :: "'db engine \<Rightarrow> tx_write list \<Rightarrow> 'db \<Rightarrow> error + (unit \<times> 'db)" where
  "tx_applyAll eng [] db = Inr ((), db)"
| "tx_applyAll eng (w # ws) db = bindR (tx_apply eng w db) (tx_applyAll eng ws)"

fun runTransactions :: "'db engine \<Rightarrow> tx_write list list \<Rightarrow> 'db \<Rightarrow> 'db" where
  "runTransactions eng [] db = db"
| "runTransactions eng (ws # rest) db =
     runTransactions eng rest (snd (Update eng (tx_applyAll eng ws) db))"

context bbolt
begin

lemma tx_apply_audit:
  assumes "tx_apply eng w db = Inr db'" and "inv db"
  shows "inv db' \<and> holds eng db BucketAudit \<subseteq>\<^sub>m holds eng db' BucketAudit"
proof (cases w)
  case (WPut b key v)
  with assms have put: "tx_Put eng b key v db = Inr db'" by simp
  have "same_bucket eng BucketAudit db db'"
    using tx_Put_ok(3) [OF put assms(2)]
    by (intro tx_Put_other [OF put assms(2)]) (auto simp: dataBuckets_def initialDataBuckets_def)
  with tx_Put_ok(1) [OF put assms(2)] show ?thesis by (simp add: same_bucket_def)
next
  case (WDelete b key)
  with assms have del: "tx_Delete eng b key db = Inr db'" by simp
  have "same_bucket eng BucketAudit db db'"
    using tx_Delete_ok(3) [OF del assms(2)]
    by (intro tx_Delete_other [OF del assms(2)]) (auto simp: dataBuckets_def initialDataBuckets_def)
  with tx_Delete_ok(1) [OF del assms(2)] show ?thesis by (simp add: same_bucket_def)
next
  case (WAppendAudit key v)
  with assms have app: "tx_AppendAudit eng key v db = Inr db'" by simp
  have "holds eng db BucketAudit \<subseteq>\<^sub>m holds eng db' BucketAudit"
    unfolding map_le_def
    using tx_AppendAudit_ok(3) [OF app assms(2)] tx_AppendAudit_ok(5) [OF app assms(2)]
    by auto
  with tx_AppendAudit_ok(1) [OF app assms(2)] show ?thesis by simp
qed

lemma tx_applyAll_audit:
  "tx_applyAll eng ws db = Inr (u, db') \<Longrightarrow> inv db \<Longrightarrow>
     inv db' \<and> holds eng db BucketAudit \<subseteq>\<^sub>m holds eng db' BucketAudit"
proof (induction ws arbitrary: db)
  case (Cons w ws)
  then obtain db1 where db1: "tx_apply eng w db = Inr db1" "tx_applyAll eng ws db1 = Inr (u, db')"
    by (auto simp: result_simps)
  from tx_apply_audit [OF db1(1) Cons.prems(2)] Cons.IH [OF db1(2)] show ?case
    using map_le_trans by blast
qed simp

lemma runTransactions_audit:
  "inv db \<Longrightarrow> inv (runTransactions eng txs db)
     \<and> holds eng db BucketAudit \<subseteq>\<^sub>m holds eng (runTransactions eng txs db) BucketAudit"
proof (induction txs arbitrary: db)
  case (Cons ws rest)
  show ?case
  proof (cases rule: Update_cases [of eng "tx_applyAll eng ws" db])
    case (failed e)
    with Cons show ?thesis by simp
  next
    case (committed a db')
    from tx_applyAll_audit [OF committed(1) Cons.prems] Cons.IH [of db'] committed(2)
    show ?thesis using map_le_trans by fastforce
  qed
qed simp

end

section \<open>Properties\<close>

text \<open>
  C15: opening and migrating. When opening a store succeeds its schema version is 6, every
  explicit bucket exists, and every pair that the file held before, in whatever older version,
  is still there; a file of a newer schema is refused and left untouched.
\<close>

theorem open_store:
  assumes "bbolt eng dbinv" and "dbinv db"
  shows "(openMigrated eng db = (Inr (), db') \<longrightarrow>
       readSchemaVersion eng db' = Inr CurrentSchemaVersion
       \<and> (\<forall>b \<in> set dataBuckets. eng_bucket eng db' (bucketName b))
       \<and> (\<forall>n k. n \<noteq> metadataBucket \<longrightarrow> eng_get eng db' n k = eng_get eng db n k))
     \<and> (readSchemaVersion eng db = Inr v \<and> CurrentSchemaVersion < v \<and> eng_begin eng db = None \<longrightarrow>
       openMigrated eng db = (Inl (Store ErrUnsupportedSchema), db))"
proof (intro conjI [OF impI impI])
  assume "openMigrated eng db = (Inr (), db')"
  from bbolt.openMigrated_ok [OF assms(1) this assms(2)]
  show "readSchemaVersion eng db' = Inr CurrentSchemaVersion
       \<and> (\<forall>b \<in> set dataBuckets. eng_bucket eng db' (bucketName b))
       \<and> (\<forall>n k. n \<noteq> metadataBucket \<longrightarrow> eng_get eng db' n k = eng_get eng db n k)"
    by (simp add: keeps_data_def CurrentSchemaVersion_def)
next
  assume "readSchemaVersion eng db = Inr v \<and> CurrentSchemaVersion < v \<and> eng_begin eng db = None"
  then show "openMigrated eng db = (Inl (Store ErrUnsupportedSchema), db)"
    by (simp add: openMigrated_def migrate_def defaultMigrations_target dbUpdate_def
        CurrentSchemaVersion_def normalized_def)
qed

theorem open_store_witness:
  "\<exists>db'. openMigrated mem_engine [] = (Inr (), db')
     \<and> readSchemaVersion mem_engine db' = Inr CurrentSchemaVersion"
proof -
  have inv: "mem_inv []" by (simp add: mem_inv_def keys_sorted_def)
  obtain db' where "openMigrated mem_engine [] = (Inr (), db')"
    using mem.openMigrated_empty [OF inv] by auto
  with open_store [OF mem.bbolt_axioms inv, of db'] show ?thesis by blast
qed

text \<open>
  A fresh store always opens. On an engine that never refuses a write for want of space,
  opening an empty file runs all six migrations and the integrity check and succeeds.
\<close>

theorem open_empty_store:
  assumes "roomy_bbolt eng dbinv" and "dbinv db" and "eng_buckets eng db = []"
  shows "\<exists>db'. openMigrated eng db = (Inr (), db')"
  by (rule roomy_bbolt.openMigrated_empty [OF assms])

theorem open_empty_store_witness: "\<exists>db'. openMigrated mem_engine [] = (Inr (), db')"
  by (rule open_empty_store [OF mem.roomy_bbolt_axioms])
    (simp_all add: mem_inv_def keys_sorted_def)

text \<open>
  Schema version encoding: the four bytes that \<open>writeSchemaVersion\<close> stores are read back
  as the same 32-bit version, whatever it is.
\<close>

theorem schema_version_roundtrip:
  assumes "bbolt eng dbinv" and "dbinv db" and "writeSchemaVersion eng v db = Inr db'"
  shows "readSchemaVersion eng db' = Inr v"
  by (rule bbolt.writeSchemaVersion_ok(3) [OF assms(1,3,2)])

theorem schema_version_roundtrip_witness:
  "readSchemaVersion mem_engine
     [(''metadata'', [(''schema_version'', encodeVersion 0xDEADBEEF)])] = Inr 0xDEADBEEF"
proof -
  have "writeSchemaVersion mem_engine 0xDEADBEEF [(''metadata'', [])]
    = Inr [(''metadata'', [(''schema_version'', encodeVersion 0xDEADBEEF)])]"
    by (simp add: writeSchemaVersion_def metadataBucket_def schemaVersionKey_def)
  moreover have "mem_inv [(''metadata'', [])]" by (simp add: mem_inv_def keys_sorted_def)
  ultimately show ?thesis using schema_version_roundtrip [OF mem.bbolt_axioms] by blast
qed

text \<open>
  C14: audit records are append-only. Whatever sequence of transactions runs, each any sequence
  of \<open>Put\<close>, \<open>Delete\<close> and \<open>AppendAudit\<close> calls on any buckets, and whether they commit or roll
  back, every audit record that was stored is still stored under its key with its value.
\<close>

theorem audit_append_only:
  assumes "bbolt eng dbinv" and "dbinv db" and "holds eng db BucketAudit key = Some v"
  shows "holds eng (runTransactions eng txs db) BucketAudit key = Some v"
  using bbolt.runTransactions_audit [OF assms(1,2), of txs] assms(3)
  by (metis domI map_le_def)

theorem audit_append_only_witness:
  "holds mem_engine (runTransactions mem_engine
      [[WPut BucketAudit ''1'' ''x''], [WDelete BucketAudit ''1''], [WAppendAudit ''1'' ''x'']]
      [(''audit'', [(''1'', ''event'')])]) BucketAudit ''1'' = Some ''event''"
  by (rule audit_append_only [OF mem.bbolt_axioms])
    (simp_all add: mem_inv_def keys_sorted_def)

end
