(* ===== verification/Journal.thy ===== *)
theory Journal
  imports Json_Decode Local_Store
begin

text \<open>
  The durable recovery journal (\<open>src/internal/recovery/journal.go\<close>, with
  \<open>transitionToDenied\<close>, \<open>transitionToExpired\<close> and \<open>findRecordByCommandID\<close> of
  \<open>approval.go\<close>): the journal record, its validation, the stable keys, and every transaction on
  the command journal. The encoder of records and the hash are parameters, the record
  \<open>journal_lib\<close>. The lemmas follow the phase a key has in the store: no transaction lowers it,
  and starting an execution needs an approved record and leaves an executing one.
\<close>

section \<open>Records\<close>

text \<open>\<open>docker.Snapshot\<close> and \<open>docker.AdapterType\<close>.\<close>

record DockerSnapshot =
  ds_TargetID :: string
  ds_Running :: bool
  ds_Healthy :: bool

definition zeroSnapshot :: DockerSnapshot where
  "zeroSnapshot = \<lparr>ds_TargetID = [], ds_Running = False, ds_Healthy = False\<rparr>"

definition AdapterType :: string where "AdapterType = ''docker''"

definition maxCommandIDLength :: nat where "maxCommandIDLength = 128"
definition maxIdempotencyKeyLength :: nat where "maxIdempotencyKeyLength = 256"
definition maxJournalDocumentBytes :: int where "maxJournalDocumentBytes = 128 * 1024"
definition journalRecordPrefix :: string where "journalRecordPrefix = ''command/''"
definition idempotencyIndexPrefix :: string where "idempotencyIndexPrefix = ''idempotency/''"

datatype journalPhase =
    phasePending | phaseAwaitingApproval | phaseApproved | phaseExecuting | phaseStabilizing
  | phaseCompleted | phaseVerifyAndNotify | phaseOther string

record reconciliation =
  rn_ObservedAt :: Time
  rn_Verified :: bool
  rn_Snapshot :: DockerSnapshot

record journalRecord =
  jr_SchemaVersion :: string
  jr_Command :: RecoveryCommand
  jr_Target :: ServiceTarget
  jr_Action :: TypedAction
  jr_Phase :: journalPhase
  jr_Reconciliation :: "reconciliation option"

record storedRecord =
  sr_key :: string
  sr_record :: journalRecord

record journal_lib =
  jo_json :: json_lib
  jo_record :: "journalRecord json_type"
  jo_sha :: "string \<Rightarrow> string"

section \<open>Keys\<close>

definition stableKey :: "journal_lib \<Rightarrow> string \<Rightarrow> string list \<Rightarrow> string" where
  "stableKey lib prefix values = prefix @ jo_sha lib (nulJoin values)"

definition recordIdentity :: "RecoveryCommand \<Rightarrow> string list" where
  "recordIdentity command =
     [rc_IncidentID command, rc_RunbookID command, rc_RunbookDigest command, rc_TargetID command,
      Itoa (rc_ActionIndex command)]"

definition recordKey :: "journal_lib \<Rightarrow> RecoveryCommand \<Rightarrow> string" where
  "recordKey lib command = stableKey lib journalRecordPrefix (recordIdentity command)"

definition idempotencyIndexKey :: "journal_lib \<Rightarrow> string \<Rightarrow> string" where
  "idempotencyIndexKey lib key = stableKey lib idempotencyIndexPrefix [key]"

section \<open>Validation\<close>

definition validRiskTier :: "RiskTier \<Rightarrow> bool" where
  "validRiskTier risk \<longleftrightarrow> risk = RiskLow \<or> risk = RiskMedium \<or> risk = RiskHigh"

definition validAction :: "TypedAction \<Rightarrow> string \<Rightarrow> bool" where
  "validAction action selector \<longleftrightarrow>
     \<not> (ta_TargetSelector action \<noteq> selector \<or> ta_StopTimeout action \<le> 0 \<or> ta_Cooldown action < 0)
     \<and> (ta_ActionType action = ActionDockerContainerRestart
        \<or> ta_ActionType action = ActionDockerComposeServiceRestart)"

fun validRecordPhase :: "journalPhase \<Rightarrow> RecoveryCommandState \<Rightarrow> bool" where
  "validRecordPhase phasePending state = (state = RecoveryPending)"
| "validRecordPhase phaseAwaitingApproval state = (state = RecoveryPending)"
| "validRecordPhase phaseApproved state = (state = RecoveryApproved)"
| "validRecordPhase phaseExecuting state = (state = RecoveryExecuting)"
| "validRecordPhase phaseStabilizing state = (state = RecoveryStabilizing)"
| "validRecordPhase phaseCompleted state =
     (state = RecoverySucceeded \<or> state = RecoveryFailed \<or> state = RecoveryDenied
      \<or> state = RecoveryExpired)"
| "validRecordPhase phaseVerifyAndNotify state =
     (state = RecoveryPending \<or> state = RecoveryApproved \<or> state = RecoveryExecuting)"
| "validRecordPhase (phaseOther s) state = False"

definition isReconcilablePhase :: "journalPhase \<Rightarrow> bool" where
  "isReconcilablePhase phase \<longleftrightarrow>
     phase = phasePending \<or> phase = phaseApproved \<or> phase = phaseExecuting"

definition validCommandFields :: "RecoveryCommand \<Rightarrow> bool" where
  "validCommandFields command \<longleftrightarrow>
     RecoveryCommand_Validate command = None
     \<and> validToken (rc_CommandID command) maxCommandIDLength
     \<and> validToken (rc_IncidentID command) maxCommandIDLength
     \<and> validToken (rc_RunbookID command) maxCommandIDLength
     \<and> validToken (rc_RunbookDigest command) maxIdempotencyKeyLength
     \<and> validToken (rc_TargetID command) maxCommandIDLength
     \<and> validToken (rc_IdempotencyKey command) maxIdempotencyKeyLength
     \<and> (rc_ApprovalID command = [] \<or> validToken (rc_ApprovalID command) maxCommandIDLength)
     \<and> validRiskTier (rc_RiskTier command)"

definition validRecordTarget :: "ServiceTarget \<Rightarrow> string \<Rightarrow> bool" where
  "validRecordTarget target targetID \<longleftrightarrow>
     st_SchemaVersion target = SchemaVersionV1 \<and> st_TargetID target = targetID
     \<and> st_AdapterType target = AdapterType \<and> st_Enabled target
     \<and> validToken (st_Selector target) maxIdempotencyKeyLength"

definition validateRecord :: "journalRecord \<Rightarrow> error option" where
  "validateRecord record =
     (let command = jr_Command record in
      if jr_SchemaVersion record \<noteq> SchemaVersionV1 \<or> \<not> validCommandFields command
      then Some (Recovery ErrCorruptJournal)
      else if \<not> validRecordTarget (jr_Target record) (rc_TargetID command)
      then Some (Recovery ErrCorruptJournal)
      else if \<not> validAction (jr_Action record) (st_Selector (jr_Target record))
              \<or> \<not> validRecordPhase (jr_Phase record) (rc_State command)
      then Some (Recovery ErrCorruptJournal)
      else if jr_Phase record = phaseVerifyAndNotify then
        (case jr_Reconciliation record of
           None \<Rightarrow> Some (Recovery ErrCorruptJournal)
         | Some r \<Rightarrow>
             if IsZero (rn_ObservedAt r) then Some (Recovery ErrCorruptJournal)
             else if rn_Verified r \<and> ds_TargetID (rn_Snapshot r) \<noteq> rc_TargetID command
             then Some (Recovery ErrCorruptJournal)
             else if \<not> rn_Verified r \<and> rn_Snapshot r \<noteq> zeroSnapshot
             then Some (Recovery ErrCorruptJournal)
             else None)
      else if jr_Reconciliation record \<noteq> None then Some (Recovery ErrCorruptJournal)
      else None)"

section \<open>Loading and storing\<close>

definition recordDecodeOptions :: "journalRecord DecodeOptions" where
  "recordDecodeOptions =
     \<lparr>do_MaxBytes = maxJournalDocumentBytes, do_SchemaVersion = SchemaVersionV1,
      do_Validate = Some validateRecord\<rparr>"

definition decodeRecord :: "journal_lib \<Rightarrow> string \<Rightarrow> error + journalRecord" where
  "decodeRecord lib document =
     (case Decode (jo_json lib) (jo_record lib) document recordDecodeOptions of
        Inl _ \<Rightarrow> Inl (Recovery ErrCorruptJournal)
      | Inr record \<Rightarrow> Inr record)"

text \<open>A decoded record must be stored under its own key.\<close>

definition decodeAt :: "journal_lib \<Rightarrow> string \<Rightarrow> string \<Rightarrow> error + journalRecord" where
  "decodeAt lib key document =
     bindR (decodeRecord lib document) (\<lambda>record.
       if recordKey lib (jr_Command record) \<noteq> key then Inl (Recovery ErrCorruptJournal)
       else Inr record)"

definition loadRecord :: "'db engine \<Rightarrow> journal_lib \<Rightarrow> string \<Rightarrow> 'db \<Rightarrow> error + journalRecord option" where
  "loadRecord eng lib key db =
     bindR (tx_Get eng BucketCommandJournal key db) (\<lambda>found.
       case found of
         None \<Rightarrow> Inr None
       | Some document \<Rightarrow> bindR (decodeAt lib key document) (\<lambda>record. Inr (Some record)))"

definition putRecord :: "'db engine \<Rightarrow> journal_lib \<Rightarrow> string \<Rightarrow> journalRecord \<Rightarrow> 'db \<Rightarrow> error + 'db" where
  "putRecord eng lib key record db =
     (if recordKey lib (jr_Command record) \<noteq> key \<or> validateRecord record \<noteq> None
      then Inl (Recovery ErrCorruptJournal)
      else bindR (jt_marshal (jo_record lib) record) (\<lambda>document.
        tx_Put eng BucketCommandJournal key document db))"

definition updateRecord ::
    "'db engine \<Rightarrow> journal_lib \<Rightarrow> string \<Rightarrow> (journalRecord \<Rightarrow> error + journalRecord) \<Rightarrow> 'db
      \<Rightarrow> (error + journalRecord) \<times> 'db" where
  "updateRecord eng lib key update db =
     Update eng (\<lambda>tx.
       bindR (loadRecord eng lib key tx) (\<lambda>found.
         case found of
           None \<Rightarrow> Inl (Recovery ErrCorruptJournal)
         | Some record \<Rightarrow>
             bindR (update record) (\<lambda>record'.
             bindR (putRecord eng lib key record' tx) (\<lambda>tx'. Inr (record', tx'))))) db"

section \<open>Transitions of one record\<close>

abbreviation notExecutable :: error where
  "notExecutable \<equiv> Recovery ErrCommandNotExecutable"

text \<open>\<open>record.Command.State = next; record.Phase = phase\<close>, after \<open>ValidateTransition\<close>.\<close>

definition moveTo :: "RecoveryCommandState \<Rightarrow> journalPhase \<Rightarrow> journalRecord \<Rightarrow> error + journalRecord" where
  "moveTo next phase record =
     (case Recovery_ValidateTransition (rc_State (jr_Command record)) next of
        Some e \<Rightarrow> Inl e
      | None \<Rightarrow> Inr (record\<lparr>jr_Command := (jr_Command record)\<lparr>rc_State := next\<rparr>, jr_Phase := phase\<rparr>))"

definition transitionToDenied :: "journalRecord \<Rightarrow> error + journalRecord" where
  "transitionToDenied record =
     (if (jr_Phase record \<noteq> phasePending \<and> jr_Phase record \<noteq> phaseAwaitingApproval)
         \<or> rc_State (jr_Command record) \<noteq> RecoveryPending
      then Inl notExecutable
      else moveTo RecoveryDenied phaseCompleted record)"

definition transitionToExpired :: "journalRecord \<Rightarrow> error + journalRecord" where
  "transitionToExpired record =
     (if (jr_Phase record \<noteq> phasePending \<and> jr_Phase record \<noteq> phaseAwaitingApproval)
         \<or> rc_State (jr_Command record) \<noteq> RecoveryPending
      then Inl notExecutable
      else moveTo RecoveryExpired phaseCompleted record)"

definition approveRecord :: "journalRecord \<Rightarrow> error + journalRecord" where
  "approveRecord record =
     (if (jr_Phase record \<noteq> phasePending \<and> jr_Phase record \<noteq> phaseAwaitingApproval)
         \<or> rc_State (jr_Command record) \<noteq> RecoveryPending
      then Inl notExecutable
      else if jr_Phase record = phaseAwaitingApproval \<and> rc_ApprovalID (jr_Command record) = []
      then Inl notExecutable
      else moveTo RecoveryApproved phaseApproved record)"

definition startRecord :: "journalRecord \<Rightarrow> error + journalRecord" where
  "startRecord record =
     (if jr_Phase record \<noteq> phaseApproved \<or> rc_State (jr_Command record) \<noteq> RecoveryApproved
      then Inl notExecutable
      else moveTo RecoveryExecuting phaseExecuting record)"

definition finishRecord :: "RecoveryCommandState \<Rightarrow> journalRecord \<Rightarrow> error + journalRecord" where
  "finishRecord next record =
     (if jr_Phase record \<noteq> phaseExecuting \<or> rc_State (jr_Command record) \<noteq> RecoveryExecuting
      then Inl notExecutable
      else moveTo next (if next = RecoveryStabilizing then phaseStabilizing else phaseCompleted) record)"

definition completeRecord :: "RecoveryCommandState \<Rightarrow> journalRecord \<Rightarrow> error + journalRecord" where
  "completeRecord next record =
     (if jr_Phase record = phaseCompleted \<and> rc_State (jr_Command record) = next then Inr record
      else if jr_Phase record \<noteq> phaseStabilizing
              \<or> rc_State (jr_Command record) \<noteq> RecoveryStabilizing
      then Inl notExecutable
      else moveTo next phaseCompleted record)"

definition verifyRecord :: "DockerSnapshot \<Rightarrow> bool \<Rightarrow> Time \<Rightarrow> journalRecord \<Rightarrow> error + journalRecord" where
  "verifyRecord snapshot verified now record =
     (if \<not> isReconcilablePhase (jr_Phase record) then Inl notExecutable
      else
        let mismatch = (verified \<and> ds_TargetID snapshot \<noteq> rc_TargetID (jr_Command record));
            verified' = (if mismatch then False else verified);
            snapshot' = (if mismatch then zeroSnapshot else snapshot)
        in Inr (record\<lparr>jr_Phase := phaseVerifyAndNotify,
             jr_Reconciliation := Some \<lparr>rn_ObservedAt = now, rn_Verified = verified',
               rn_Snapshot = snapshot'\<rparr>\<rparr>))"

section \<open>Transactions\<close>

definition persistPending ::
    "'db engine \<Rightarrow> journal_lib \<Rightarrow> journalRecord \<Rightarrow> 'db \<Rightarrow> (error + (journalRecord \<times> bool)) \<times> 'db" where
  "persistPending eng lib record db =
     (let key = recordKey lib (jr_Command record);
          indexKey = idempotencyIndexKey lib (rc_IdempotencyKey (jr_Command record))
      in Update eng (\<lambda>tx.
        bindR (tx_Get eng BucketCommandJournal indexKey tx) (\<lambda>indexed.
          case indexed of
            Some indexedRecordKey \<Rightarrow>
              if indexedRecordKey \<noteq> key then Inl (Recovery ErrIdempotencyConflict)
              else bindR (loadRecord eng lib key tx) (\<lambda>found.
                case found of
                  None \<Rightarrow> Inl (Recovery ErrCorruptJournal)
                | Some existing \<Rightarrow> Inr ((existing, True), tx))
          | None \<Rightarrow>
              bindR (loadRecord eng lib key tx) (\<lambda>found.
                case found of
                  Some existing \<Rightarrow>
                    bindR (tx_Put eng BucketCommandJournal indexKey key tx) (\<lambda>tx'.
                      Inr ((existing, True), tx'))
                | None \<Rightarrow>
                    bindR (putRecord eng lib key record tx) (\<lambda>tx'.
                    bindR (tx_Put eng BucketCommandJournal indexKey key tx') (\<lambda>tx''.
                      Inr ((record, False), tx'')))))) db)"

definition Coordinator_deny ::
    "'db engine \<Rightarrow> journal_lib \<Rightarrow> string \<Rightarrow> 'db \<Rightarrow> (error + journalRecord) \<times> 'db" where
  "Coordinator_deny eng lib key db = updateRecord eng lib key transitionToDenied db"

definition Coordinator_expire ::
    "'db engine \<Rightarrow> journal_lib \<Rightarrow> string \<Rightarrow> 'db \<Rightarrow> (error + journalRecord) \<times> 'db" where
  "Coordinator_expire eng lib key db = updateRecord eng lib key transitionToExpired db"

definition Coordinator_approve ::
    "'db engine \<Rightarrow> journal_lib \<Rightarrow> string \<Rightarrow> 'db \<Rightarrow> (error + journalRecord) \<times> 'db" where
  "Coordinator_approve eng lib key db = updateRecord eng lib key approveRecord db"

definition startExecution ::
    "'db engine \<Rightarrow> journal_lib \<Rightarrow> string \<Rightarrow> 'db \<Rightarrow> (error + journalRecord) \<times> 'db" where
  "startExecution eng lib key db = updateRecord eng lib key startRecord db"

definition finishExecution ::
    "'db engine \<Rightarrow> journal_lib \<Rightarrow> string \<Rightarrow> RecoveryCommandState \<Rightarrow> 'db
      \<Rightarrow> (error + journalRecord) \<times> 'db" where
  "finishExecution eng lib key next db =
     (if next \<noteq> RecoveryStabilizing \<and> next \<noteq> RecoveryFailed then (Inl (Recovery ErrInvalidRequest), db)
      else updateRecord eng lib key (finishRecord next) db)"

definition completeStabilization ::
    "'db engine \<Rightarrow> journal_lib \<Rightarrow> string \<Rightarrow> RecoveryCommandState \<Rightarrow> 'db
      \<Rightarrow> (error + journalRecord) \<times> 'db" where
  "completeStabilization eng lib key next db =
     (if next \<noteq> RecoverySucceeded \<and> next \<noteq> RecoveryFailed then (Inl (Recovery ErrInvalidRequest), db)
      else updateRecord eng lib key (completeRecord next) db)"

definition markVerifyAndNotify ::
    "'db engine \<Rightarrow> journal_lib \<Rightarrow> string \<Rightarrow> DockerSnapshot \<Rightarrow> bool \<Rightarrow> Time \<Rightarrow> 'db
      \<Rightarrow> (error + journalRecord) \<times> 'db" where
  "markVerifyAndNotify eng lib key snapshot verified now db =
     updateRecord eng lib key (verifyRecord snapshot verified now) db"

text \<open>The callbacks of \<open>reconcilableRecords\<close> and \<open>findRecordByCommandID\<close>.\<close>

definition reconcilableStep ::
    "journal_lib \<Rightarrow> storedRecord list \<Rightarrow> string \<Rightarrow> string \<Rightarrow> error + storedRecord list" where
  "reconcilableStep lib records key document =
     (if \<not> HasPrefix key journalRecordPrefix then Inr records
      else bindR (decodeAt lib key document) (\<lambda>record.
        if isReconcilablePhase (jr_Phase record)
        then Inr (records @ [\<lparr>sr_key = key, sr_record = record\<rparr>])
        else Inr records))"

definition reconcilableRecords :: "'db engine \<Rightarrow> journal_lib \<Rightarrow> 'db \<Rightarrow> error + storedRecord list" where
  "reconcilableRecords eng lib db =
     View eng (tx_ForEach eng BucketCommandJournal (reconcilableStep lib) []) db"

definition findStep ::
    "journal_lib \<Rightarrow> string \<Rightarrow> storedRecord option \<Rightarrow> string \<Rightarrow> string \<Rightarrow> error + storedRecord option" where
  "findStep lib commandID found key document =
     (if \<not> HasPrefix key journalRecordPrefix then Inr found
      else bindR (decodeAt lib key document) (\<lambda>record.
        if rc_CommandID (jr_Command record) \<noteq> commandID then Inr found
        else if found \<noteq> None then Inl (Recovery ErrCorruptJournal)
        else Inr (Some \<lparr>sr_key = key, sr_record = record\<rparr>)))"

definition findRecordByCommandID ::
    "'db engine \<Rightarrow> journal_lib \<Rightarrow> string \<Rightarrow> 'db \<Rightarrow> error + storedRecord option" where
  "findRecordByCommandID eng lib commandID db =
     tx_ForEach eng BucketCommandJournal (findStep lib commandID) None db"

section \<open>Keys identify recovery effects\<close>

lemma HasPrefix_recordKey [simp]: "HasPrefix (recordKey lib command) journalRecordPrefix"
  by (simp add: recordKey_def stableKey_def)

lemma indexKey_not_record: "\<not> HasPrefix (idempotencyIndexKey lib key) journalRecordPrefix"
  by (simp add: idempotencyIndexKey_def stableKey_def idempotencyIndexPrefix_def
      journalRecordPrefix_def HasPrefix_def)

lemma recordKey_nonempty: "recordKey lib command \<noteq> []" "idempotencyIndexKey lib key \<noteq> []"
  by (simp_all add: recordKey_def idempotencyIndexKey_def stableKey_def journalRecordPrefix_def
      idempotencyIndexPrefix_def)

lemma recordKey_identity:
  assumes "recordKey lib a = recordKey lib b"
    and "inj_on (jo_sha lib) {nulJoin (recordIdentity a), nulJoin (recordIdentity b)}"
    and "validCommandFields a" and "validCommandFields b"
  shows "rc_IncidentID a = rc_IncidentID b \<and> rc_RunbookID a = rc_RunbookID b
    \<and> rc_RunbookDigest a = rc_RunbookDigest b \<and> rc_TargetID a = rc_TargetID b
    \<and> rc_ActionIndex a = rc_ActionIndex b"
proof -
  have "nulJoin (recordIdentity a) = nulJoin (recordIdentity b)"
    using assms(1,2) by (auto simp: recordKey_def stableKey_def dest: inj_onD)
  moreover have "\<forall>v \<in> set (recordIdentity c). NUL \<notin> set v" if "validCommandFields c" for c
    using that by (auto simp: recordIdentity_def validCommandFields_def validToken_noNUL Itoa_noNUL)
  ultimately have "recordIdentity a = recordIdentity b"
    using assms(3,4) by (intro nulJoin_inj) (simp_all add: recordIdentity_def)
  then show ?thesis by (auto simp: recordIdentity_def dest: Itoa_inj)
qed

section \<open>Transitions keep records valid\<close>

lemma moveTo_Inr:
  "moveTo next phase record = Inr record' \<longleftrightarrow>
     Recovery_CanTransitionTo (rc_State (jr_Command record)) next
     \<and> record' = record\<lparr>jr_Command := (jr_Command record)\<lparr>rc_State := next\<rparr>, jr_Phase := phase\<rparr>"
  by (auto simp: moveTo_def Recovery_ValidateTransition_def split: if_splits)

text \<open>The transitions a journal transaction applies.\<close>

datatype journal_update =
    JDeny | JExpire | JApprove | JStart
  | JFinish RecoveryCommandState
  | JComplete RecoveryCommandState
  | JVerify DockerSnapshot bool Time

fun journalUpdate :: "journal_update \<Rightarrow> journalRecord \<Rightarrow> error + journalRecord" where
  "journalUpdate JDeny r = transitionToDenied r"
| "journalUpdate JExpire r = transitionToExpired r"
| "journalUpdate JApprove r = approveRecord r"
| "journalUpdate JStart r = startRecord r"
| "journalUpdate (JFinish next) r = finishRecord next r"
| "journalUpdate (JComplete next) r = completeRecord next r"
| "journalUpdate (JVerify snapshot verified now) r = verifyRecord snapshot verified now r"

text \<open>The arguments the coordinator passes.\<close>

fun proper_update :: "journal_update \<Rightarrow> bool" where
  "proper_update (JFinish next) \<longleftrightarrow> next = RecoveryStabilizing \<or> next = RecoveryFailed"
| "proper_update (JComplete next) \<longleftrightarrow> next = RecoverySucceeded \<or> next = RecoveryFailed"
| "proper_update (JVerify snapshot verified now) \<longleftrightarrow>
     now \<noteq> 0 \<and> (\<not> verified \<longrightarrow> snapshot = zeroSnapshot)"
| "proper_update _ \<longleftrightarrow> True"

lemmas transition_defs =
  transitionToDenied_def transitionToExpired_def approveRecord_def startRecord_def
  finishRecord_def completeRecord_def verifyRecord_def

lemma validCommandFields_state:
  assumes "validCommandFields command" and "validRecoveryState next"
  shows "validCommandFields (command\<lparr>rc_State := next\<rparr>)"
  using assms by (simp add: validCommandFields_def RecoveryCommand_Validate_iff)

lemma validateRecord_None:
  "validateRecord record = None \<longleftrightarrow>
     jr_SchemaVersion record = SchemaVersionV1 \<and> validCommandFields (jr_Command record)
     \<and> validRecordTarget (jr_Target record) (rc_TargetID (jr_Command record))
     \<and> validAction (jr_Action record) (st_Selector (jr_Target record))
     \<and> validRecordPhase (jr_Phase record) (rc_State (jr_Command record))
     \<and> (if jr_Phase record = phaseVerifyAndNotify
        then (\<exists>r. jr_Reconciliation record = Some r \<and> rn_ObservedAt r \<noteq> 0
          \<and> (rn_Verified r \<longrightarrow> ds_TargetID (rn_Snapshot r) = rc_TargetID (jr_Command record))
          \<and> (\<not> rn_Verified r \<longrightarrow> rn_Snapshot r = zeroSnapshot))
        else jr_Reconciliation record = None)"
  by (auto simp: validateRecord_def Let_def split: option.splits)

lemma validRecoveryState_simps [simp]:
  "validRecoveryState RecoveryPending" "validRecoveryState RecoveryApproved"
  "validRecoveryState RecoveryExecuting" "validRecoveryState RecoveryStabilizing"
  "validRecoveryState RecoverySucceeded" "validRecoveryState RecoveryFailed"
  "validRecoveryState RecoveryDenied" "validRecoveryState RecoveryExpired"
  by (simp_all add: validRecoveryState_def)

lemma moveTo_valid:
  assumes "moveTo next phase record = Inr record'" and "validateRecord record = None"
    and "validRecordPhase phase next" and "validRecoveryState next"
    and "phase \<noteq> phaseVerifyAndNotify" and "jr_Phase record \<noteq> phaseVerifyAndNotify"
  shows "validateRecord record' = None"
  using assms validCommandFields_state [of "jr_Command record" "next"]
  by (auto simp: moveTo_Inr validateRecord_None)

lemma verifyRecord_valid:
  assumes "verifyRecord snapshot verified now record = Inr record'"
    and "validateRecord record = None" and "now \<noteq> 0" and "\<not> verified \<longrightarrow> snapshot = zeroSnapshot"
  shows "validateRecord record' = None"
proof -
  have "validRecordPhase phaseVerifyAndNotify (rc_State (jr_Command record))"
    using assms(1,2)
    by (auto simp: verifyRecord_def validateRecord_None isReconcilablePhase_def split: if_splits)
  moreover have rec: "record' = record\<lparr>jr_Phase := phaseVerifyAndNotify, jr_Reconciliation := Some
      (if verified \<and> ds_TargetID snapshot \<noteq> rc_TargetID (jr_Command record)
       then \<lparr>rn_ObservedAt = now, rn_Verified = False, rn_Snapshot = zeroSnapshot\<rparr>
       else \<lparr>rn_ObservedAt = now, rn_Verified = verified, rn_Snapshot = snapshot\<rparr>)\<rparr>"
    using assms(1) by (auto simp: verifyRecord_def Let_def split: if_split_asm)
  moreover from assms(2) have "jr_SchemaVersion record = SchemaVersionV1"
    "validCommandFields (jr_Command record)"
    "validRecordTarget (jr_Target record) (rc_TargetID (jr_Command record))"
    "validAction (jr_Action record) (st_Selector (jr_Target record))"
    by (simp_all add: validateRecord_None)
  ultimately show ?thesis using assms(3,4) unfolding rec by (simp add: validateRecord_None)
qed

lemma journalUpdate_lifecycle:
  assumes "journalUpdate u record = Inr record'"
  shows "recordIdentity (jr_Command record') = recordIdentity (jr_Command record)
    \<and> jr_Target record' = jr_Target record \<and> jr_Action record' = jr_Action record
    \<and> (rc_State (jr_Command record') = rc_State (jr_Command record)
       \<or> Recovery_CanTransitionTo (rc_State (jr_Command record)) (rc_State (jr_Command record')))"
  using assms
  by (cases u) (auto simp: transition_defs moveTo_Inr recordIdentity_def Let_def split: if_splits)

lemma journalUpdate_valid:
  assumes "journalUpdate u record = Inr record'" and "validateRecord record = None"
    and "proper_update u"
  shows "validateRecord record' = None"
proof (cases "\<exists>snapshot verified now. u = JVerify snapshot verified now")
  case True
  with assms show ?thesis by (auto intro: verifyRecord_valid)
next
  case False
  with assms show ?thesis
    by (cases u) (auto simp: transition_defs split: if_splits elim!: moveTo_valid)
qed

section \<open>The phase of a key never goes back\<close>

fun phaseLevel :: "journalPhase \<Rightarrow> nat" where
  "phaseLevel phasePending = 1"
| "phaseLevel phaseAwaitingApproval = 1"
| "phaseLevel phaseApproved = 2"
| "phaseLevel phaseExecuting = 3"
| "phaseLevel phaseStabilizing = 4"
| "phaseLevel _ = 5"

text \<open>
  How far the effect that a key names has come in the store: 0 without a record, 6 for a
  document that does not decode, which no transaction replaces.
\<close>

definition keyLevel :: "'db engine \<Rightarrow> journal_lib \<Rightarrow> 'db \<Rightarrow> string \<Rightarrow> nat" where
  "keyLevel eng lib db key =
     (case holds eng db BucketCommandJournal key of
        None \<Rightarrow> 0
      | Some document \<Rightarrow>
          (case decodeAt lib key document of Inl _ \<Rightarrow> 6 | Inr record \<Rightarrow> phaseLevel (jr_Phase record)))"

definition journal_mono :: "'db engine \<Rightarrow> journal_lib \<Rightarrow> 'db \<Rightarrow> 'db \<Rightarrow> bool" where
  "journal_mono eng lib db db' \<longleftrightarrow>
     (\<forall>key. HasPrefix key journalRecordPrefix \<longrightarrow> keyLevel eng lib db key \<le> keyLevel eng lib db' key)"

text \<open>
  What the journal relies on of the JSON library: the phase of a valid record, an ASCII
  constant, survives encoding and decoding.
\<close>

definition phase_codec :: "journal_lib \<Rightarrow> bool" where
  "phase_codec lib \<longleftrightarrow>
     (\<forall>record document record' rest.
        validateRecord record = None \<and> jt_marshal (jo_record lib) record = Inr document
        \<and> jt_decode (jo_record lib) document = Inr (record', rest)
        \<longrightarrow> jr_Phase record' = jr_Phase record)"

definition advancing :: "(journalRecord \<Rightarrow> error + journalRecord) \<Rightarrow> bool" where
  "advancing update \<longleftrightarrow>
     (\<forall>record record'. update record = Inr record' \<longrightarrow>
        phaseLevel (jr_Phase record) \<le> phaseLevel (jr_Phase record'))"

lemma advancing_updates:
  "advancing transitionToDenied" "advancing transitionToExpired" "advancing approveRecord"
  "advancing startRecord" "advancing (finishRecord next)" "advancing (completeRecord next)"
  "advancing (verifyRecord snapshot verified now)"
  by (auto simp: advancing_def transition_defs moveTo_Inr isReconcilablePhase_def Let_def
      split: if_splits)

lemma journal_mono_refl [simp]: "journal_mono eng lib db db"
  by (simp add: journal_mono_def)

lemma journal_mono_trans:
  "journal_mono eng lib db db' \<Longrightarrow> journal_mono eng lib db' db'' \<Longrightarrow> journal_mono eng lib db db''"
  unfolding journal_mono_def using le_trans by blast

lemma keyLevel_cong:
  "holds eng db' BucketCommandJournal key = holds eng db BucketCommandJournal key \<Longrightarrow>
     keyLevel eng lib db' key = keyLevel eng lib db key"
  by (simp add: keyLevel_def)

lemma same_bucket_mono: "same_bucket eng BucketCommandJournal db db' \<Longrightarrow> journal_mono eng lib db db'"
  by (simp add: same_bucket_def journal_mono_def keyLevel_def)

lemma decodeAt_Inr:
  "decodeAt lib key document = Inr record \<longleftrightarrow>
     decodeRecord lib document = Inr record \<and> recordKey lib (jr_Command record) = key"
  by (auto simp: decodeAt_def result_simps split: if_splits)

lemma decodeRecord_Inr:
  "decodeRecord lib document = Inr record \<longleftrightarrow>
     Decode (jo_json lib) (jo_record lib) document recordDecodeOptions = Inr record"
  by (auto simp: decodeRecord_def split: sum.splits)

lemma decodeRecord_valid: "decodeRecord lib document = Inr record \<Longrightarrow> validateRecord record = None"
  by (auto simp: decodeRecord_Inr Decode_Inr recordDecodeOptions_def)

lemma journal_bucket [simp]: "BucketCommandJournal \<in> set dataBuckets"
  by (simp add: dataBuckets_def initialDataBuckets_def)

lemma loadRecord_Some:
  "loadRecord eng lib key db = Inr (Some record) \<longleftrightarrow>
     eng_bucket eng db (bucketName BucketCommandJournal) \<and> key \<noteq> []
     \<and> (\<exists>document. holds eng db BucketCommandJournal key = Some document
          \<and> decodeAt lib key document = Inr record)"
  by (auto simp: loadRecord_def tx_Get_def result_simps simp del: bucketName.simps
      split: option.splits if_splits)

lemma loadRecord_None:
  "loadRecord eng lib key db = Inr None \<longleftrightarrow>
     eng_bucket eng db (bucketName BucketCommandJournal) \<and> key \<noteq> []
     \<and> holds eng db BucketCommandJournal key = None"
  by (auto simp: loadRecord_def tx_Get_def result_simps simp del: bucketName.simps
      split: option.splits if_splits)

lemma loadRecord_level:
  "loadRecord eng lib key db = Inr (Some record) \<Longrightarrow>
     keyLevel eng lib db key = phaseLevel (jr_Phase record)"
  "loadRecord eng lib key db = Inr None \<Longrightarrow> keyLevel eng lib db key = 0"
  by (auto simp: loadRecord_Some loadRecord_None keyLevel_def)

lemma phaseLevel_bounds: "0 < phaseLevel phase" "phaseLevel phase \<le> 5"
  by (cases phase; simp)+

lemma updateRecord_Inr:
  assumes "updateRecord eng lib key update db = (Inr record', db')"
  obtains old where "loadRecord eng lib key db = Inr (Some old)"
    "update old = Inr record'" "putRecord eng lib key record' db = Inr db'"
proof -
  have fn: "bindR (loadRecord eng lib key db) (\<lambda>found.
         case found of
           None \<Rightarrow> Inl (Recovery ErrCorruptJournal)
         | Some old \<Rightarrow>
             bindR (update old) (\<lambda>new.
             bindR (putRecord eng lib key new db) (\<lambda>tx'. Inr (new, tx')))) = Inr (record', db')"
    using Update_Inr [OF assms [unfolded updateRecord_def]] .
  then obtain found where found: "loadRecord eng lib key db = Inr found"
    by (cases "loadRecord eng lib key db") simp_all
  with fn obtain old where old: "found = Some old" by (cases found) simp_all
  from fn found old have run: "bindR (update old) (\<lambda>new.
      bindR (putRecord eng lib key new db) (\<lambda>tx'. Inr (new, tx'))) = Inr (record', db')" by simp
  then obtain new where new: "update old = Inr new" by (cases "update old") simp_all
  with run have "bindR (putRecord eng lib key new db) (\<lambda>tx'. Inr (new, tx')) = Inr (record', db')"
    by simp
  then have put: "putRecord eng lib key new db = Inr db'" and eq: "new = record'"
    by (cases "putRecord eng lib key new db"; simp)+
  show ?thesis
    by (rule that [OF found [unfolded old] new [unfolded eq] put [unfolded eq]])
qed

lemma startExecution_record:
  assumes "fst (startExecution eng lib key db) = Inr executing"
  shows "recordKey lib (jr_Command executing) = key \<and> validateRecord executing = None
    \<and> jr_Phase executing = phaseExecuting"
  by (rule updateRecord_Inr [of eng lib key startRecord db executing "snd (startExecution eng lib key db)"])
    (use assms in \<open>auto simp: startExecution_def prod_eq_iff startRecord_def moveTo_Inr putRecord_def split: if_splits\<close>)

context bbolt
begin

lemma putRecord_ok:
  assumes "putRecord eng lib key record db = Inr db'" and "inv db"
  shows "inv db'" and "recordKey lib (jr_Command record) = key" and "validateRecord record = None"
    and "\<exists>document. jt_marshal (jo_record lib) record = Inr document
      \<and> holds eng db' BucketCommandJournal = (holds eng db BucketCommandJournal)(key \<mapsto> document)"
    and "c \<noteq> BucketCommandJournal \<Longrightarrow> c \<in> set dataBuckets \<Longrightarrow> same_bucket eng c db db'"
    and "eng_bucket eng db' = eng_bucket eng db"
proof -
  obtain document where doc: "jt_marshal (jo_record lib) record = Inr document"
    "tx_Put eng BucketCommandJournal key document db = Inr db'"
    and valid: "recordKey lib (jr_Command record) = key" "validateRecord record = None"
    using assms(1) by (auto simp: putRecord_def result_simps split: if_splits)
  show "inv db'" by (rule tx_Put_ok(1) [OF doc(2) assms(2)])
  show "recordKey lib (jr_Command record) = key" "validateRecord record = None" by (fact valid)+
  show "\<exists>document. jt_marshal (jo_record lib) record = Inr document
      \<and> holds eng db' BucketCommandJournal = (holds eng db BucketCommandJournal)(key \<mapsto> document)"
    using doc(1) tx_Put_holds [OF doc(2) assms(2)] by blast
  show "c \<noteq> BucketCommandJournal \<Longrightarrow> c \<in> set dataBuckets \<Longrightarrow> same_bucket eng c db db'"
    by (rule tx_Put_other [OF doc(2) assms(2)])
  show "eng_bucket eng db' = eng_bucket eng db" by (rule tx_Put_ok(5) [OF doc(2) assms(2)])
qed

lemma putRecord_level:
  assumes "putRecord eng lib key record db = Inr db'" and "inv db" and "phase_codec lib"
  shows "phaseLevel (jr_Phase record) \<le> keyLevel eng lib db' key"
    and "k \<noteq> key \<Longrightarrow> keyLevel eng lib db' k = keyLevel eng lib db k"
proof -
  obtain document where doc: "jt_marshal (jo_record lib) record = Inr document"
    "holds eng db' BucketCommandJournal = (holds eng db BucketCommandJournal)(key \<mapsto> document)"
    using putRecord_ok(4) [OF assms(1,2)] by blast
  show "phaseLevel (jr_Phase record) \<le> keyLevel eng lib db' key"
  proof (cases "decodeAt lib key document")
    case (Inl e)
    with doc(2) phaseLevel_bounds(2) [of "jr_Phase record"] show ?thesis by (simp add: keyLevel_def)
  next
    case (Inr record')
    then obtain rest where "jt_decode (jo_record lib) document = Inr (record', rest)"
      by (auto simp: decodeAt_Inr decodeRecord_Inr Decode_Inr)
    then have "jr_Phase record' = jr_Phase record"
      using assms(3) doc(1) putRecord_ok(3) [OF assms(1,2)] unfolding phase_codec_def by blast
    with doc(2) Inr show ?thesis by (simp add: keyLevel_def)
  qed
  show "k \<noteq> key \<Longrightarrow> keyLevel eng lib db' k = keyLevel eng lib db k"
    using doc(2) by (intro keyLevel_cong) simp
qed

lemma updateRecord_mono:
  assumes "updateRecord eng lib key update db = (r, db')" and "inv db" and "phase_codec lib"
    and "advancing update"
  shows "inv db'" and "journal_mono eng lib db db'"
    and "c \<noteq> BucketCommandJournal \<Longrightarrow> c \<in> set dataBuckets \<Longrightarrow> same_bucket eng c db db'"
proof -
  have "inv db' \<and> journal_mono eng lib db db'
    \<and> (\<forall>c. c \<noteq> BucketCommandJournal \<longrightarrow> c \<in> set dataBuckets \<longrightarrow> same_bucket eng c db db')"
  proof (cases r)
    case (Inl e)
    have "db' = db" by (rule Update_Inl [OF assms(1) [unfolded Inl updateRecord_def]])
    with assms(2) show ?thesis by simp
  next
    case (Inr record')
    obtain old where rec: "loadRecord eng lib key db = Inr (Some old)"
      "update old = Inr record'" "putRecord eng lib key record' db = Inr db'"
      by (rule updateRecord_Inr [OF assms(1) [unfolded Inr]])
    have "keyLevel eng lib db key \<le> keyLevel eng lib db' key"
      using loadRecord_level(1) [OF rec(1)] putRecord_level(1) [OF rec(3) assms(2,3)] assms(4) rec(2)
      unfolding advancing_def by fastforce
    then have "journal_mono eng lib db db'"
      unfolding journal_mono_def using putRecord_level(2) [OF rec(3) assms(2,3)] by (metis order_refl)
    with putRecord_ok(1,5) [OF rec(3) assms(2)] show ?thesis by blast
  qed
  then show "inv db'" "journal_mono eng lib db db'"
    "c \<noteq> BucketCommandJournal \<Longrightarrow> c \<in> set dataBuckets \<Longrightarrow> same_bucket eng c db db'" by blast+
qed

text \<open>A successful start finds an approved record and leaves an executing one.\<close>

lemma startExecution_level:
  assumes "startExecution eng lib key db = (Inr record, db')" and "inv db" and "phase_codec lib"
  shows "keyLevel eng lib db key = 2" and "3 \<le> keyLevel eng lib db' key"
    and "HasPrefix key journalRecordPrefix"
proof -
  obtain record0 where rec: "loadRecord eng lib key db = Inr (Some record0)"
    "startRecord record0 = Inr record" "putRecord eng lib key record db = Inr db'"
    by (rule updateRecord_Inr [OF assms(1) [unfolded startExecution_def]])
  from rec(2) have "jr_Phase record0 = phaseApproved" "jr_Phase record = phaseExecuting"
    by (auto simp: startRecord_def moveTo_Inr split: if_splits)
  with loadRecord_level(1) [OF rec(1)] putRecord_level(1) [OF rec(3) assms(2,3)]
  show "keyLevel eng lib db key = 2" "3 \<le> keyLevel eng lib db' key" by simp_all
  show "HasPrefix key journalRecordPrefix"
    using putRecord_ok(2) [OF rec(3) assms(2)] by auto
qed

lemma indexPut_level:
  assumes "tx_Put eng BucketCommandJournal indexKey v db = Inr db'" and "inv db"
    and "\<not> HasPrefix indexKey journalRecordPrefix"
  shows "inv db'" and "journal_mono eng lib db db'"
    and "HasPrefix key journalRecordPrefix \<Longrightarrow>
      holds eng db' BucketCommandJournal key = holds eng db BucketCommandJournal key"
proof -
  show "inv db'" by (rule tx_Put_ok(1) [OF assms(1,2)])
  show same: "HasPrefix key journalRecordPrefix \<Longrightarrow>
      holds eng db' BucketCommandJournal key = holds eng db BucketCommandJournal key" for key
    using tx_Put_holds [OF assms(1,2)] assms(3) by auto
  show "journal_mono eng lib db db'"
    unfolding journal_mono_def using keyLevel_cong [OF same] by simp
qed

text \<open>
  The three ways \<open>persistPending\<close> succeeds: an index entry that names the existing record, an
  existing record that gets a new index entry, and a new record.
\<close>

lemma persistPending_Inr:
  assumes "persistPending eng lib new db = (Inr (persisted, duplicate), db')"
  shows "let key = recordKey lib (jr_Command new);
             index = idempotencyIndexKey lib (rc_IdempotencyKey (jr_Command new)) in
    (duplicate \<and> db' = db \<and> loadRecord eng lib key db = Inr (Some persisted))
    \<or> (duplicate \<and> loadRecord eng lib key db = Inr (Some persisted)
        \<and> tx_Put eng BucketCommandJournal index key db = Inr db')
    \<or> (\<not> duplicate \<and> persisted = new \<and> loadRecord eng lib key db = Inr None
        \<and> (\<exists>db1. putRecord eng lib key new db = Inr db1
             \<and> tx_Put eng BucketCommandJournal index key db1 = Inr db'))"
proof -
  let ?key = "recordKey lib (jr_Command new)"
  let ?index = "idempotencyIndexKey lib (rc_IdempotencyKey (jr_Command new))"
  note fn = Update_Inr [OF assms [unfolded persistPending_def Let_def]]
  obtain indexed where indexed: "tx_Get eng BucketCommandJournal ?index db = Inr indexed"
    using fn by (cases "tx_Get eng BucketCommandJournal ?index db") simp_all
  obtain found where found: "loadRecord eng lib ?key db = Inr found"
    using fn indexed by (cases indexed; cases "loadRecord eng lib ?key db") (simp_all split: if_splits)
  show ?thesis
  proof (cases indexed)
    case (Some named)
    with fn indexed found have "duplicate" "db' = db" "found = Some persisted"
      by (cases found; simp split: if_splits)+
    with found show ?thesis by simp
  next
    case None
    show ?thesis
    proof (cases found)
      case (Some existing)
      with fn indexed None found have "duplicate" "existing = persisted"
        "tx_Put eng BucketCommandJournal ?index ?key db = Inr db'"
        by (cases "tx_Put eng BucketCommandJournal ?index ?key db"; simp)+
      with Some found show ?thesis by simp
    next
      case absent: None
      with fn indexed None found obtain db1 where db1: "putRecord eng lib ?key new db = Inr db1"
        by (cases "putRecord eng lib ?key new db") simp_all
      with fn indexed None found absent have "\<not> duplicate" "persisted = new"
        "tx_Put eng BucketCommandJournal ?index ?key db1 = Inr db'"
        by (cases "tx_Put eng BucketCommandJournal ?index ?key db1"; simp)+
      with absent found db1 show ?thesis by simp
    qed
  qed
qed

lemma persistPending_mono:
  assumes "persistPending eng lib new db = (r, db')" and "inv db" and "phase_codec lib"
  shows "inv db' \<and> journal_mono eng lib db db'"
proof (cases r)
  case (Inl e)
  have "db' = db"
    by (rule Update_Inl [OF assms(1) [unfolded Inl persistPending_def Let_def]])
  with assms(2) show ?thesis by simp
next
  case (Inr p)
  obtain persisted duplicate where p: "p = (persisted, duplicate)" by (cases p)
  let ?key = "recordKey lib (jr_Command new)"
  let ?index = "idempotencyIndexKey lib (rc_IdempotencyKey (jr_Command new))"
  consider "db' = db"
    | "tx_Put eng BucketCommandJournal ?index ?key db = Inr db'"
    | db1 where "loadRecord eng lib ?key db = Inr None" "putRecord eng lib ?key new db = Inr db1"
      "tx_Put eng BucketCommandJournal ?index ?key db1 = Inr db'"
    using persistPending_Inr [OF assms(1) [unfolded Inr p]] by (auto simp: Let_def)
  then show ?thesis
  proof cases
    case 1
    with assms(2) show ?thesis by simp
  next
    case 2
    from indexPut_level(1,2) [OF this assms(2) indexKey_not_record] show ?thesis by simp
  next
    case (3 db1)
    have "keyLevel eng lib db k \<le> keyLevel eng lib db1 k" for k
      using putRecord_level(2) [OF 3(2) assms(2,3), of k] loadRecord_level(2) [OF 3(1)]
      by (cases "k = ?key") simp_all
    then have "journal_mono eng lib db db1" by (simp add: journal_mono_def)
    note index = indexPut_level(1,2) [OF 3(3) putRecord_ok(1) [OF 3(2) assms(2)] indexKey_not_record]
    from index(1) journal_mono_trans [OF \<open>journal_mono eng lib db db1\<close> index(2)]
    show ?thesis by (rule conjI)
  qed
qed

end

section \<open>Concrete records\<close>

definition demoTarget :: ServiceTarget where
  "demoTarget =
     \<lparr>st_SchemaVersion = ''v1'', st_TargetID = ''web'', st_AdapterType = ''docker'',
      st_Selector = ''container:web'', st_ProbeRules = [],
      st_EvidencePolicy = \<lparr>ep_RedactionProfile = [], ep_MaxBytes = 0\<rparr>,
      st_StabilizationPolicy = \<lparr>sp_RecoverySamples = 1, sp_Window = 0\<rparr>, st_Enabled = True\<rparr>"

definition demoAction :: TypedAction where
  "demoAction =
     \<lparr>ta_ActionType = ActionDockerContainerRestart, ta_TargetSelector = ''container:web'',
      ta_StopTimeout = 1, ta_Cooldown = 0\<rparr>"

definition demoCommand :: RecoveryCommand where
  "demoCommand =
     \<lparr>rc_SchemaVersion = ''v1'', rc_CommandID = ''c'', rc_IncidentID = ''i'', rc_RunbookID = ''r'',
      rc_RunbookDigest = ''d'', rc_TargetID = ''web'', rc_ActionIndex = 0, rc_RiskTier = RiskLow,
      rc_ApprovalID = [], rc_IssuedAt = 1, rc_ExpiresAt = 100, rc_IdempotencyKey = ''k'',
      rc_State = RecoveryPending\<rparr>"

definition demoRecord :: journalRecord where
  "demoRecord =
     \<lparr>jr_SchemaVersion = ''v1'', jr_Command = demoCommand, jr_Target = demoTarget,
      jr_Action = demoAction, jr_Phase = phasePending, jr_Reconciliation = None\<rparr>"

lemma demoRecord_valid: "validateRecord demoRecord = None"
  by code_simp

section \<open>Properties\<close>

text \<open>
  C19: a journal key names one recovery effect. Two commands with valid fields whose journal
  keys are equal belong to the same incident, runbook, runbook digest, target and action, as
  long as the hash does not collide on their two identities: the NUL-separated identity is
  unambiguous.
\<close>

theorem journal_key_identity:
  assumes "validCommandFields a" and "validCommandFields b"
    and "inj_on (jo_sha lib) {nulJoin (recordIdentity a), nulJoin (recordIdentity b)}"
  shows "recordKey lib a = recordKey lib b \<longleftrightarrow>
     rc_IncidentID a = rc_IncidentID b \<and> rc_RunbookID a = rc_RunbookID b
     \<and> rc_RunbookDigest a = rc_RunbookDigest b \<and> rc_TargetID a = rc_TargetID b
     \<and> rc_ActionIndex a = rc_ActionIndex b"
  using recordKey_identity [OF _ assms(3,1,2)]
  by (auto simp: recordKey_def recordIdentity_def)

theorem journal_key_identity_witness:
  "recordKey \<lparr>jo_json = tableLib, jo_record = tableType [], jo_sha = \<lambda>s. s\<rparr> demoCommand
   \<noteq> recordKey \<lparr>jo_json = tableLib, jo_record = tableType [], jo_sha = \<lambda>s. s\<rparr>
       (demoCommand\<lparr>rc_IncidentID := ''j''\<rparr>)"
proof -
  have "validCommandFields demoCommand" by code_simp
  moreover have "validCommandFields (demoCommand\<lparr>rc_IncidentID := ''j''\<rparr>)" by code_simp
  ultimately show ?thesis
    using journal_key_identity [of demoCommand "demoCommand\<lparr>rc_IncidentID := ''j''\<rparr>"
        "\<lparr>jo_json = tableLib, jo_record = tableType [], jo_sha = \<lambda>s. s\<rparr>"]
    by (simp add: demoCommand_def)
qed

text \<open>
  C18: journal transitions are sound. Each transition that a journal transaction applies to a
  valid record, with the arguments the coordinator passes, yields a valid record under the
  same key with the same target and action, and moves the command along the recovery
  lifecycle or leaves its state; so storing it is never refused as corrupt.
\<close>

theorem journal_transition_sound:
  assumes "validateRecord old = None" and "proper_update u" and "journalUpdate u old = Inr new"
  shows "validateRecord new = None
    \<and> recordKey lib (jr_Command new) = recordKey lib (jr_Command old)
    \<and> jr_Target new = jr_Target old \<and> jr_Action new = jr_Action old
    \<and> (rc_State (jr_Command new) = rc_State (jr_Command old)
       \<or> Recovery_CanTransitionTo (rc_State (jr_Command old)) (rc_State (jr_Command new)))"
  using journalUpdate_valid [OF assms(3,1,2)] journalUpdate_lifecycle [OF assms(3)]
  by (simp add: recordKey_def)

theorem journal_transition_sound_witness:
  "validateRecord (demoRecord\<lparr>jr_Command := demoCommand\<lparr>rc_State := RecoveryApproved\<rparr>,
     jr_Phase := phaseApproved\<rparr>) = None"
proof -
  have "journalUpdate JApprove demoRecord = Inr (demoRecord\<lparr>jr_Command :=
      demoCommand\<lparr>rc_State := RecoveryApproved\<rparr>, jr_Phase := phaseApproved\<rparr>)"
    by code_simp
  with journal_transition_sound [OF demoRecord_valid, of JApprove] show ?thesis by simp
qed

end
