(* ===== verification/Policy.thy ===== *)
theory Policy
  imports Contracts
begin

text \<open>
  The recovery authorization engine, \<open>src/internal/policy/policy.go\<close>: the pure function
  \<open>Evaluate\<close> with every helper it calls, the sort-and-binary-search membership test
  included. The lemmas give its exact acceptance condition, the reasons of its refusals and
  its independence from model-controlled fields.
\<close>

section \<open>Data\<close>

datatype Verdict = VerdictAllow | VerdictAwaitApproval | VerdictDeny | VerdictOther string

datatype ReasonCode =
    ReasonAllowed | ReasonApprovalRequired | ReasonUnregisteredRunbook | ReasonForgedDigest
  | ReasonTargetMismatch | ReasonActionInvalid | ReasonAnalysisUnavailable
  | ReasonAnalysisMismatch | ReasonPreconditionFailed | ReasonCooldownActive
  | ReasonRetryExhausted | ReasonStabilizationInvalid | ReasonApprovalExpired
  | ReasonApprovalRevoked | ReasonApprovalDenied | ReasonInvalidPolicy | ReasonOther string

abbreviation ReasonNone :: ReasonCode where
  "ReasonNone \<equiv> ReasonOther []"

record RegisteredRunbook =
  rr_Runbook :: Runbook
  rr_TargetID :: string
  rr_AnalysisRequired :: bool

record Snapshot =
  sn_Runbooks :: "RegisteredRunbook list"
  sn_AuthorizedApprovers :: "string list"

record PolicyInput =
  pi_RunbookID :: string
  pi_RunbookDigest :: string
  pi_TargetID :: string
  pi_ActionIndex :: int
  pi_CommandID :: string
  pi_AnalysisAvailable :: bool
  pi_AnalysisCandidateIDs :: "string list"
  pi_AnalysisConfidence :: "ConfidenceLabel list"
  pi_NotificationSuggestion :: NotificationRecommendation
  pi_Preconditions :: "string \<Rightarrow> bool option"
  pi_LastAttemptAt :: Time
  pi_Now :: Time
  pi_AttemptCount :: int
  pi_Approval :: "Approval option"
  pi_ApprovalRevoked :: bool

record Decision =
  de_Verdict :: Verdict
  de_ReasonCode :: ReasonCode

text \<open>The zero value \<open>Decision{}\<close>.\<close>

definition zeroDecision :: Decision where
  "zeroDecision = \<lparr>de_Verdict = VerdictOther [], de_ReasonCode = ReasonNone\<rparr>"

section \<open>Helpers\<close>

definition deny :: "ReasonCode \<Rightarrow> Decision" where
  "deny reason = \<lparr>de_Verdict = VerdictDeny, de_ReasonCode = reason\<rparr>"

text \<open>
  \<open>sort.SearchStrings\<close>: the binary search of \<open>sort.Search\<close> for the least index whose
  element is not smaller than the wanted string.
\<close>

function searchStrings :: "string list \<Rightarrow> string \<Rightarrow> nat \<Rightarrow> nat \<Rightarrow> nat" where
  "searchStrings vs want i j =
     (if i < j
      then (let h = (i + j) div 2
            in if \<not> vs ! h \<ge> want then searchStrings vs want (h + 1) j
               else searchStrings vs want i h)
      else i)"
  by pat_completeness auto
termination
  by (relation "measure (\<lambda>(vs, want, i, j). j - i)") auto

declare searchStrings.simps [simp del]

definition contains :: "string list \<Rightarrow> string \<Rightarrow> bool" where
  "contains vs want =
     (let sorted = sort vs; index = searchStrings sorted want 0 (length sorted)
      in index < length sorted \<and> sorted ! index = want)"

fun uniqueNonEmptyFrom :: "string list \<Rightarrow> string list \<Rightarrow> bool" where
  "uniqueNonEmptyFrom seen [] = True"
| "uniqueNonEmptyFrom seen (v # vs) =
     (if v = [] then False else if v \<in> set seen then False else uniqueNonEmptyFrom (v # seen) vs)"

definition uniqueNonEmpty :: "string list \<Rightarrow> bool" where
  "uniqueNonEmpty vs = uniqueNonEmptyFrom [] vs"

definition validPolicyAction :: "TypedAction \<Rightarrow> bool" where
  "validPolicyAction a \<longleftrightarrow> \<not> ((ta_ActionType a \<noteq> ActionDockerContainerRestart
       \<and> ta_ActionType a \<noteq> ActionDockerComposeServiceRestart)
     \<or> ta_TargetSelector a = [] \<or> ta_StopTimeout a \<le> 0 \<or> ta_Cooldown a < 0)"

fun validRunbooksFrom :: "string list \<Rightarrow> RegisteredRunbook list \<Rightarrow> bool" where
  "validRunbooksFrom seen [] = True"
| "validRunbooksFrom seen (r # rs) =
     (let runbook = rr_Runbook r in
      if rr_TargetID r = [] \<or> rb_SchemaVersion runbook \<noteq> SchemaVersionV1
         \<or> rb_RunbookID runbook = [] \<or> rb_Digest runbook = [] \<or> rb_TypedActions runbook = []
         \<or> rp_MaxAttempts (rb_RetryPolicy runbook) < 1
         \<or> (rb_RiskTier runbook \<noteq> RiskLow \<and> rb_RiskTier runbook \<noteq> RiskMedium
             \<and> rb_RiskTier runbook \<noteq> RiskHigh)
      then False
      else if \<not> list_all validPolicyAction (rb_TypedActions runbook) then False
      else if rb_RunbookID runbook \<in> set seen then False
      else validRunbooksFrom (rb_RunbookID runbook # seen) rs)"

definition validSnapshot :: "Snapshot \<Rightarrow> bool" where
  "validSnapshot snapshot =
     (if sn_Runbooks snapshot = [] then False
      else if \<not> validRunbooksFrom [] (sn_Runbooks snapshot) then False
      else uniqueNonEmpty (sn_AuthorizedApprovers snapshot))"

fun findRunbook :: "RegisteredRunbook list \<Rightarrow> string \<Rightarrow> RegisteredRunbook option" where
  "findRunbook [] runbookID = None"
| "findRunbook (r # rs) runbookID =
     (if rb_RunbookID (rr_Runbook r) = runbookID then Some r else findRunbook rs runbookID)"

text \<open>\<open>registeredRunbook\<close> returns a reason code or a registration.\<close>

definition policyRunbook :: "Snapshot \<Rightarrow> PolicyInput \<Rightarrow> ReasonCode + RegisteredRunbook" where
  "policyRunbook snapshot input =
     (if \<not> validSnapshot snapshot \<or> pi_RunbookID input = [] \<or> pi_RunbookDigest input = []
         \<or> pi_TargetID input = [] \<or> pi_CommandID input = []
      then Inl ReasonInvalidPolicy
      else case findRunbook (sn_Runbooks snapshot) (pi_RunbookID input) of
             None \<Rightarrow> Inl ReasonUnregisteredRunbook
           | Some r \<Rightarrow> Inr r)"

definition observedTrue :: "(string \<Rightarrow> bool option) \<Rightarrow> string \<Rightarrow> bool" where
  "observedTrue observed condition = (case observed condition of None \<Rightarrow> False | Some b \<Rightarrow> b)"

definition preconditionsMet :: "string list \<Rightarrow> (string \<Rightarrow> bool option) \<Rightarrow> bool" where
  "preconditionsMet req observed =
     (if \<not> uniqueNonEmpty req then False else list_all (observedTrue observed) req)"

definition cooldownElapsed :: "Duration \<Rightarrow> Time \<Rightarrow> Time \<Rightarrow> bool" where
  "cooldownElapsed cooldown previous now =
     (if cooldown < 0 \<or> IsZero previous then cooldown \<ge> 0
      else \<not> IsZero now \<and> \<not> now < previous \<and> timeSub now previous \<ge> cooldown)"

definition approval :: "string list \<Rightarrow> PolicyInput \<Rightarrow> Decision" where
  "approval authorized input =
     (case pi_Approval input of
        None \<Rightarrow> zeroDecision
      | Some a \<Rightarrow>
          if pi_ApprovalRevoked input \<or> \<not> contains authorized (av_ApproverIdentity a)
          then deny ReasonApprovalRevoked
          else if av_Decision a = ApprovalDenied then deny ReasonApprovalDenied
          else if av_SchemaVersion a \<noteq> SchemaVersionV1 \<or> av_ApprovalID a = []
             \<or> av_Decision a \<noteq> ApprovalGranted \<or> av_CommandID a \<noteq> pi_CommandID input
             \<or> IsZero (av_CreatedAt a) \<or> IsZero (av_ExpiresAt a)
             \<or> \<not> av_ExpiresAt a > av_CreatedAt a \<or> IsZero (pi_Now input)
             \<or> \<not> pi_Now input < av_ExpiresAt a
          then deny ReasonApprovalExpired
          else \<lparr>de_Verdict = VerdictAllow, de_ReasonCode = ReasonAllowed\<rparr>)"

definition needsApproval :: "Runbook \<Rightarrow> bool" where
  "needsApproval runbook \<longleftrightarrow>
     rb_RiskTier runbook \<noteq> RiskLow \<or> ap_Required (rb_ApprovalPolicy runbook)
     \<or> \<not> rb_AutoExecute runbook"

section \<open>Evaluation\<close>

definition Evaluate :: "Snapshot \<Rightarrow> PolicyInput \<Rightarrow> Decision" where
  "Evaluate snapshot input =
     (case policyRunbook snapshot input of
        Inl reason \<Rightarrow> deny reason
      | Inr registered \<Rightarrow>
          let runbook = rr_Runbook registered in
          if pi_RunbookDigest input \<noteq> rb_Digest runbook then deny ReasonForgedDigest
          else if pi_TargetID input \<noteq> rr_TargetID registered then deny ReasonTargetMismatch
          else if pi_ActionIndex input < 0
               \<or> pi_ActionIndex input \<ge> int (length (rb_TypedActions runbook))
          then deny ReasonActionInvalid
          else if rr_AnalysisRequired registered \<and> \<not> pi_AnalysisAvailable input
          then deny ReasonAnalysisUnavailable
          else if rr_AnalysisRequired registered
               \<and> \<not> contains (pi_AnalysisCandidateIDs input) (rb_RunbookID runbook)
          then deny ReasonAnalysisMismatch
          else if \<not> preconditionsMet (rb_Preconditions runbook) (pi_Preconditions input)
          then deny ReasonPreconditionFailed
          else
            let action = rb_TypedActions runbook ! nat (pi_ActionIndex input) in
            if \<not> cooldownElapsed (ta_Cooldown action) (pi_LastAttemptAt input) (pi_Now input)
            then deny ReasonCooldownActive
            else if pi_AttemptCount input < 0
                 \<or> pi_AttemptCount input \<ge> rp_MaxAttempts (rb_RetryPolicy runbook)
            then deny ReasonRetryExhausted
            else if sp_RecoverySamples (rb_StabilizationPolicy runbook) < 1
                 \<or> sp_Window (rb_StabilizationPolicy runbook) \<le> 0
            then deny ReasonStabilizationInvalid
            else
              let approvalDecision = approval (sn_AuthorizedApprovers snapshot) input in
              if de_ReasonCode approvalDecision \<noteq> ReasonNone then approvalDecision
              else if needsApproval runbook
              then \<lparr>de_Verdict = VerdictAwaitApproval, de_ReasonCode = ReasonApprovalRequired\<rparr>
              else \<lparr>de_Verdict = VerdictAllow, de_ReasonCode = ReasonAllowed\<rparr>)"

section \<open>Library lemmas\<close>

lemma deny_simps [simp]:
  "de_Verdict (deny r) = VerdictDeny" "de_ReasonCode (deny r) = r"
  by (simp_all add: deny_def)

lemma zeroDecision_simps [simp]:
  "de_Verdict zeroDecision = VerdictOther []" "de_ReasonCode zeroDecision = ReasonNone"
  by (simp_all add: zeroDecision_def)

text \<open>
  The elements before \<open>i\<close> are smaller than the wanted string and those from \<open>j\<close> on are not:
  the invariant of the binary search, which closes the gap between \<open>i\<close> and \<open>j\<close>.
\<close>

definition brackets :: "string list \<Rightarrow> string \<Rightarrow> nat \<Rightarrow> nat \<Rightarrow> bool" where
  "brackets vs want i j \<longleftrightarrow>
     (\<forall>k < i. vs ! k < want) \<and> (\<forall>k. j \<le> k \<and> k < length vs \<longrightarrow> want \<le> vs ! k)"

lemma brackets_lower:
  assumes "sorted vs" and "brackets vs want i j" and "h < length vs" and "\<not> vs ! h \<ge> want"
  shows "brackets vs want (h + 1) j"
proof -
  have "vs ! k < want" if "k < h + 1" for k
  proof -
    have "vs ! k \<le> vs ! h"
      using that assms(1,3) by (simp add: sorted_iff_nth_mono)
    with assms(4) show ?thesis by (meson le_less_trans not_le)
  qed
  with assms(2) show ?thesis by (simp add: brackets_def)
qed

lemma brackets_upper:
  assumes "sorted vs" and "brackets vs want i j" and "vs ! h \<ge> want"
  shows "brackets vs want i h"
proof -
  have "want \<le> vs ! k" if "h \<le> k" and "k < length vs" for k
    using that assms(1,3) order_trans unfolding sorted_iff_nth_mono by blast
  with assms(2) show ?thesis by (simp add: brackets_def)
qed

lemma searchStrings_brackets:
  assumes "sorted vs" and "i \<le> j" and "j \<le> length vs" and "brackets vs want i j"
  shows "brackets vs want (searchStrings vs want i j) (searchStrings vs want i j)"
  using assms
proof (induction vs want i j rule: searchStrings.induct)
  case (1 vs want i j)
  define h where "h = (i + j) div 2"
  show ?case
  proof (cases "i < j")
    case False
    then have "searchStrings vs want i j = i"
      by (simp add: searchStrings.simps [of vs want i j])
    moreover have "i = j" using False "1.prems"(2) by simp
    ultimately show ?thesis using "1.prems"(4) by simp
  next
    case True
    then have h: "i \<le> h" "h < j" "h < length vs" using "1.prems"(3) by (auto simp: h_def)
    show ?thesis
    proof (cases "vs ! h \<ge> want")
      case le: True
      then have "searchStrings vs want i j = searchStrings vs want i h"
        using True by (simp add: searchStrings.simps [of vs want i j] h_def)
      with "1.IH"(2) [OF True h_def] "1.prems" le h
        brackets_upper [OF "1.prems"(1,4) le] show ?thesis by simp
    next
      case gt: False
      then have "searchStrings vs want i j = searchStrings vs want (h + 1) j"
        using True by (simp add: searchStrings.simps [of vs want i j] h_def)
      with "1.IH"(1) [OF True h_def] "1.prems" gt h
        brackets_lower [OF "1.prems"(1,4) h(3) gt] show ?thesis by simp
    qed
  qed
qed

lemma contains_iff [simp]: "contains vs want \<longleftrightarrow> want \<in> set vs"
proof -
  let ?s = "sort vs"
  let ?r = "searchStrings ?s want 0 (length ?s)"
  have "brackets ?s want ?r ?r"
    by (rule searchStrings_brackets) (auto simp: brackets_def)
  then have lower: "\<And>k. k < ?r \<Longrightarrow> ?s ! k < want"
    and upper: "\<And>k. ?r \<le> k \<Longrightarrow> k < length ?s \<Longrightarrow> want \<le> ?s ! k"
    by (simp_all add: brackets_def)
  have "?r < length ?s \<and> ?s ! ?r = want" if "want \<in> set ?s"
  proof -
    from that [unfolded in_set_conv_nth] obtain k where k: "k < length ?s" "?s ! k = want"
      by blast
    with lower [of k] have rk: "?r \<le> k" by (meson not_le order_less_irrefl)
    with k have r: "?r < length ?s" by simp
    have "?s ! ?r \<le> ?s ! k"
      using rk k(1) sorted_nth_mono [OF sorted_sort] by blast
    with k(2) upper [of ?r] r show ?thesis by simp
  qed
  moreover have "want \<in> set ?s" if "?r < length ?s" and "?s ! ?r = want"
    using that nth_mem by metis
  ultimately show ?thesis
    by (auto simp: contains_def Let_def)
qed

lemma uniqueNonEmptyFrom_iff:
  "uniqueNonEmptyFrom seen vs \<longleftrightarrow> [] \<notin> set vs \<and> distinct vs \<and> set vs \<inter> set seen = {}"
  by (induction seen vs rule: uniqueNonEmptyFrom.induct) auto

lemma uniqueNonEmpty_iff [simp]: "uniqueNonEmpty vs \<longleftrightarrow> [] \<notin> set vs \<and> distinct vs"
  by (simp add: uniqueNonEmpty_def uniqueNonEmptyFrom_iff)

definition goodRunbook :: "RegisteredRunbook \<Rightarrow> bool" where
  "goodRunbook r \<longleftrightarrow> rr_TargetID r \<noteq> [] \<and> rb_SchemaVersion (rr_Runbook r) = SchemaVersionV1
     \<and> rb_RunbookID (rr_Runbook r) \<noteq> [] \<and> rb_Digest (rr_Runbook r) \<noteq> []
     \<and> rb_TypedActions (rr_Runbook r) \<noteq> []
     \<and> 1 \<le> rp_MaxAttempts (rb_RetryPolicy (rr_Runbook r))
     \<and> rb_RiskTier (rr_Runbook r) \<in> {RiskLow, RiskMedium, RiskHigh}
     \<and> (\<forall>a \<in> set (rb_TypedActions (rr_Runbook r)). validPolicyAction a)"

lemma validRunbooksFrom_iff:
  "validRunbooksFrom seen rs \<longleftrightarrow>
     (\<forall>r \<in> set rs. goodRunbook r) \<and> distinct (map (\<lambda>r. rb_RunbookID (rr_Runbook r)) rs)
     \<and> set (map (\<lambda>r. rb_RunbookID (rr_Runbook r)) rs) \<inter> set seen = {}"
proof (induction seen rs rule: validRunbooksFrom.induct)
  case (1 seen)
  then show ?case by simp
next
  case (2 seen r rs)
  show ?case
  proof (cases "goodRunbook r \<and> rb_RunbookID (rr_Runbook r) \<notin> set seen")
    case True
    then have "validRunbooksFrom seen (r # rs)
        = validRunbooksFrom (rb_RunbookID (rr_Runbook r) # seen) rs"
      by (auto simp: goodRunbook_def Let_def list_all_iff)
    with True "2.IH" [OF refl] show ?thesis
      by (auto simp: goodRunbook_def list_all_iff)
  next
    case False
    then have "\<not> validRunbooksFrom seen (r # rs)"
      by (auto simp: goodRunbook_def Let_def list_all_iff)
    with False show ?thesis by auto
  qed
qed

lemma findRunbook_Some:
  "findRunbook rs i = Some r \<Longrightarrow> r \<in> set rs \<and> rb_RunbookID (rr_Runbook r) = i"
  by (induction rs) (auto split: if_splits)

lemma findRunbook_iff:
  "distinct (map (\<lambda>r. rb_RunbookID (rr_Runbook r)) rs) \<Longrightarrow>
   findRunbook rs i = Some r \<longleftrightarrow> r \<in> set rs \<and> rb_RunbookID (rr_Runbook r) = i"
  by (induction rs) (auto split: if_splits simp: image_iff)

lemma policyRunbook_Inr:
  "policyRunbook snapshot input = Inr r \<Longrightarrow>
     r \<in> set (sn_Runbooks snapshot) \<and> goodRunbook r
     \<and> rb_RunbookID (rr_Runbook r) = pi_RunbookID input
     \<and> pi_CommandID input \<noteq> [] \<and> validSnapshot snapshot"
  by (auto simp: policyRunbook_def validSnapshot_def validRunbooksFrom_iff
      dest: findRunbook_Some split: if_splits option.splits)

text \<open>
  The declarative reading of the engine. \<open>grantedBy\<close>: the approval is a live grant, bound to
  this command, of an authorized approver. \<open>admissible\<close>: everything but the approval.
\<close>

definition grantedBy :: "Snapshot \<Rightarrow> PolicyInput \<Rightarrow> Approval \<Rightarrow> bool" where
  "grantedBy snapshot input a \<longleftrightarrow>
     \<not> pi_ApprovalRevoked input \<and> av_ApproverIdentity a \<in> set (sn_AuthorizedApprovers snapshot)
     \<and> av_Decision a = ApprovalGranted \<and> av_SchemaVersion a = SchemaVersionV1
     \<and> av_ApprovalID a \<noteq> [] \<and> av_CommandID a = pi_CommandID input
     \<and> av_CreatedAt a \<noteq> 0 \<and> av_ExpiresAt a \<noteq> 0 \<and> av_CreatedAt a < av_ExpiresAt a
     \<and> pi_Now input \<noteq> 0 \<and> pi_Now input < av_ExpiresAt a"

definition admissible :: "Snapshot \<Rightarrow> PolicyInput \<Rightarrow> RegisteredRunbook \<Rightarrow> bool" where
  "admissible snapshot input r \<longleftrightarrow>
     policyRunbook snapshot input = Inr r
     \<and> pi_RunbookDigest input = rb_Digest (rr_Runbook r)
     \<and> pi_TargetID input = rr_TargetID r
     \<and> 0 \<le> pi_ActionIndex input
     \<and> pi_ActionIndex input < int (length (rb_TypedActions (rr_Runbook r)))
     \<and> (rr_AnalysisRequired r \<longrightarrow> pi_AnalysisAvailable input
           \<and> rb_RunbookID (rr_Runbook r) \<in> set (pi_AnalysisCandidateIDs input))
     \<and> preconditionsMet (rb_Preconditions (rr_Runbook r)) (pi_Preconditions input)
     \<and> cooldownElapsed (ta_Cooldown (rb_TypedActions (rr_Runbook r) ! nat (pi_ActionIndex input)))
          (pi_LastAttemptAt input) (pi_Now input)
     \<and> 0 \<le> pi_AttemptCount input
     \<and> pi_AttemptCount input < rp_MaxAttempts (rb_RetryPolicy (rr_Runbook r))
     \<and> 1 \<le> sp_RecoverySamples (rb_StabilizationPolicy (rr_Runbook r))
     \<and> 0 < sp_Window (rb_StabilizationPolicy (rr_Runbook r))"

lemma approval_None [simp]: "pi_Approval input = None \<Longrightarrow> approval auth input = zeroDecision"
  by (simp add: approval_def)

lemma approval_Some:
  "pi_Approval input = Some a \<Longrightarrow>
     (if grantedBy snapshot input a
      then approval (sn_AuthorizedApprovers snapshot) input
             = \<lparr>de_Verdict = VerdictAllow, de_ReasonCode = ReasonAllowed\<rparr>
      else de_Verdict (approval (sn_AuthorizedApprovers snapshot) input) = VerdictDeny
           \<and> de_ReasonCode (approval (sn_AuthorizedApprovers snapshot) input)
               \<in> {ReasonApprovalRevoked, ReasonApprovalDenied, ReasonApprovalExpired})"
  by (auto simp: approval_def grantedBy_def)

definition denialReasons :: "ReasonCode set" where
  "denialReasons = UNIV - {ReasonAllowed, ReasonApprovalRequired, ReasonNone}"

definition isDenial :: "Decision \<Rightarrow> bool" where
  "isDenial d \<longleftrightarrow> de_Verdict d = VerdictDeny \<and> de_ReasonCode d \<in> denialReasons"

lemma isDenial_deny [simp]: "isDenial (deny r) \<longleftrightarrow> r \<in> denialReasons"
  by (simp add: isDenial_def)

lemma denialReasons_iff [simp]:
  "r \<in> denialReasons \<longleftrightarrow> r \<noteq> ReasonAllowed \<and> r \<noteq> ReasonApprovalRequired \<and> r \<noteq> ReasonNone"
  by (simp add: denialReasons_def)

lemma policyRunbook_Inl: "policyRunbook snapshot input = Inl reason \<Longrightarrow> reason \<in> denialReasons"
  by (auto simp: policyRunbook_def split: if_splits option.splits)

lemma Evaluate_inadmissible:
  assumes "\<nexists>r. admissible snapshot input r"
  shows "isDenial (Evaluate snapshot input)"
proof (cases "policyRunbook snapshot input")
  case (Inl reason)
  with policyRunbook_Inl [OF Inl] show ?thesis by (simp add: Evaluate_def)
next
  case (Inr r)
  then have "\<not> admissible snapshot input r" using assms by blast
  with Inr show ?thesis
    by (auto simp: Evaluate_def admissible_def Let_def)
qed

lemma Evaluate_admissible:
  "admissible snapshot input r \<Longrightarrow>
     Evaluate snapshot input =
       (let d = approval (sn_AuthorizedApprovers snapshot) input in
        if de_ReasonCode d \<noteq> ReasonNone then d
        else if needsApproval (rr_Runbook r)
        then \<lparr>de_Verdict = VerdictAwaitApproval, de_ReasonCode = ReasonApprovalRequired\<rparr>
        else \<lparr>de_Verdict = VerdictAllow, de_ReasonCode = ReasonAllowed\<rparr>)"
  by (cases "rr_AnalysisRequired r") (simp_all add: Evaluate_def admissible_def Let_def)

lemma Evaluate_admissible_cases:
  assumes "admissible snapshot input r"
  shows "Evaluate snapshot input =
     (case pi_Approval input of
        None \<Rightarrow> if needsApproval (rr_Runbook r)
               then \<lparr>de_Verdict = VerdictAwaitApproval, de_ReasonCode = ReasonApprovalRequired\<rparr>
               else \<lparr>de_Verdict = VerdictAllow, de_ReasonCode = ReasonAllowed\<rparr>
      | Some a \<Rightarrow> approval (sn_AuthorizedApprovers snapshot) input)"
proof (cases "pi_Approval input")
  case None
  with Evaluate_admissible [OF assms] show ?thesis by simp
next
  case (Some a)
  from approval_Some [OF this, of snapshot]
  have "de_ReasonCode (approval (sn_AuthorizedApprovers snapshot) input) \<noteq> ReasonNone"
    by (auto split: if_splits)
  with Evaluate_admissible [OF assms] Some show ?thesis by simp
qed

text \<open>An allowance with an approval at hand rests on that approval.\<close>

lemma Evaluate_allow_granted:
  assumes "de_Verdict (Evaluate snapshot input) = VerdictAllow" and "pi_Approval input = Some a"
  shows "grantedBy snapshot input a"
proof (cases "\<exists>r. admissible snapshot input r")
  case False
  with assms(1) show ?thesis using Evaluate_inadmissible [OF False] by (auto simp: isDenial_def)
next
  case True
  then obtain r where "admissible snapshot input r" by blast
  from Evaluate_admissible_cases [OF this] assms approval_Some [OF assms(2), of snapshot]
  show ?thesis by (auto split: if_splits)
qed

lemma policyRunbook_analysis:
  "policyRunbook snapshot (input\<lparr>pi_AnalysisAvailable := av, pi_AnalysisCandidateIDs := ids\<rparr>)
     = policyRunbook snapshot input"
  by (simp add: policyRunbook_def)

lemma approval_analysis:
  "approval auth (input\<lparr>pi_AnalysisAvailable := av, pi_AnalysisCandidateIDs := ids\<rparr>)
     = approval auth input"
  by (simp add: approval_def split: option.split)

lemma policyRunbook_advice:
  "policyRunbook snapshot
     (input\<lparr>pi_AnalysisConfidence := labels, pi_NotificationSuggestion := n\<rparr>)
   = policyRunbook snapshot input"
  by (simp add: policyRunbook_def)

lemma approval_advice:
  "approval auth (input\<lparr>pi_AnalysisConfidence := labels, pi_NotificationSuggestion := n\<rparr>)
   = approval auth input"
  by (simp add: approval_def split: option.split)

section \<open>Properties\<close>


text \<open>
  Closed outcomes. Every evaluation is an allowance with reason \<open>allowed\<close>, a wait with
  reason \<open>approval_required\<close>, which arises only when no approval was supplied, or a denial
  with one of the denial reasons.
\<close>

theorem Evaluate_outcomes:
  "(de_Verdict (Evaluate snapshot input), de_ReasonCode (Evaluate snapshot input)) \<in>
     {(VerdictAllow, ReasonAllowed), (VerdictAwaitApproval, ReasonApprovalRequired)}
     \<union> {VerdictDeny} \<times> denialReasons
   \<and> (de_Verdict (Evaluate snapshot input) = VerdictAwaitApproval \<longrightarrow> pi_Approval input = None)"
proof (cases "\<exists>r. admissible snapshot input r")
  case True
  then obtain r where r: "admissible snapshot input r" by blast
  show ?thesis
  proof (cases "pi_Approval input")
    case None
    with Evaluate_admissible_cases [OF r] show ?thesis by simp
  next
    case (Some a)
    with Evaluate_admissible_cases [OF r] approval_Some [OF Some, of snapshot]
    show ?thesis by (auto split: if_splits)
  qed
next
  case False
  from Evaluate_inadmissible [OF this] show ?thesis by (auto simp: isDenial_def)
qed

definition policyDemoRunbook :: Runbook where
  "policyDemoRunbook =
     \<lparr>rb_SchemaVersion = ''v1'', rb_RunbookID = ''restart'', rb_Version = ''1'',
      rb_Digest = ''d1'', rb_AdapterType = ''docker'', rb_TargetConstraints = [],
      rb_TypedActions = [\<lparr>ta_ActionType = ActionDockerContainerRestart,
        ta_TargetSelector = ''container:web'', ta_StopTimeout = 10, ta_Cooldown = 5\<rparr>],
      rb_RiskTier = RiskHigh, rb_AutoExecute = False,
      rb_ApprovalPolicy = \<lparr>ap_Required = True\<rparr>, rb_Preconditions = [],
      rb_RetryPolicy = \<lparr>rp_MaxAttempts = 2\<rparr>,
      rb_StabilizationPolicy = \<lparr>sp_RecoverySamples = 1, sp_Window = 30\<rparr>\<rparr>"

definition policyDemoSnapshot :: Snapshot where
  "policyDemoSnapshot =
     \<lparr>sn_Runbooks = [\<lparr>rr_Runbook = policyDemoRunbook, rr_TargetID = ''web'',
        rr_AnalysisRequired = False\<rparr>],
      sn_AuthorizedApprovers = [''uid:0'']\<rparr>"

definition policyDemoInput :: PolicyInput where
  "policyDemoInput =
     \<lparr>pi_RunbookID = ''restart'', pi_RunbookDigest = ''d1'', pi_TargetID = ''web'',
      pi_ActionIndex = 0, pi_CommandID = ''cmd-1'', pi_AnalysisAvailable = True,
      pi_AnalysisCandidateIDs = [], pi_AnalysisConfidence = [],
      pi_NotificationSuggestion = NotificationNone, pi_Preconditions = (\<lambda>_. None),
      pi_LastAttemptAt = 0, pi_Now = 100, pi_AttemptCount = 0, pi_Approval = None,
      pi_ApprovalRevoked = False\<rparr>"

theorem Evaluate_outcomes_witness:
  "de_Verdict (Evaluate policyDemoSnapshot policyDemoInput) = VerdictAwaitApproval
   \<and> pi_Approval policyDemoInput = None"
proof -
  have "de_Verdict (Evaluate policyDemoSnapshot policyDemoInput) = VerdictAwaitApproval"
    by code_simp
  with Evaluate_outcomes [of policyDemoSnapshot policyDemoInput] show ?thesis by blast
qed

text \<open>
  C11: model output cannot widen authority. The confidence labels and the notification
  suggestion never change a decision; and whatever the model claims about availability and
  candidate runbooks, an allowance it obtains would also hold had the runbook not required
  analysis at all: analysis output can only turn an allowance into a denial.
\<close>

theorem Evaluate_model_advice:
  "Evaluate snapshot (input\<lparr>pi_AnalysisConfidence := labels, pi_NotificationSuggestion := n\<rparr>)
     = Evaluate snapshot input
   \<and> (policyRunbook snapshot input = Inr r \<and> \<not> rr_AnalysisRequired r \<longrightarrow>
        Evaluate snapshot
          (input\<lparr>pi_AnalysisAvailable := av, pi_AnalysisCandidateIDs := ids\<rparr>)
        = Evaluate snapshot input)
   \<and> (policyRunbook snapshot input = Inr r \<longrightarrow>
        Evaluate snapshot
          (input\<lparr>pi_AnalysisAvailable := av, pi_AnalysisCandidateIDs := ids\<rparr>)
        \<in> {Evaluate snapshot (input\<lparr>pi_AnalysisAvailable := True,
              pi_AnalysisCandidateIDs := [pi_RunbookID input]\<rparr>),
           deny ReasonAnalysisUnavailable, deny ReasonAnalysisMismatch})"
proof (intro conjI impI)
  show "Evaluate snapshot
      (input\<lparr>pi_AnalysisConfidence := labels, pi_NotificationSuggestion := n\<rparr>)
    = Evaluate snapshot input"
    by (cases "policyRunbook snapshot input")
      (simp_all add: Evaluate_def policyRunbook_advice approval_advice Let_def cong: if_cong)
next
  assume "policyRunbook snapshot input = Inr r \<and> \<not> rr_AnalysisRequired r"
  then show "Evaluate snapshot
      (input\<lparr>pi_AnalysisAvailable := av, pi_AnalysisCandidateIDs := ids\<rparr>)
    = Evaluate snapshot input"
    by (simp add: Evaluate_def policyRunbook_analysis approval_analysis contains_iff Let_def
        cong: if_cong)
next
  assume r: "policyRunbook snapshot input = Inr r"
  then have "rb_RunbookID (rr_Runbook r) = pi_RunbookID input"
    by (simp add: policyRunbook_Inr)
  with r show "Evaluate snapshot
      (input\<lparr>pi_AnalysisAvailable := av, pi_AnalysisCandidateIDs := ids\<rparr>)
    \<in> {Evaluate snapshot (input\<lparr>pi_AnalysisAvailable := True,
          pi_AnalysisCandidateIDs := [pi_RunbookID input]\<rparr>),
        deny ReasonAnalysisUnavailable, deny ReasonAnalysisMismatch}"
    by (simp add: Evaluate_def policyRunbook_analysis approval_analysis contains_iff Let_def
        cong: if_cong)
qed

theorem Evaluate_model_advice_witness:
  "policyRunbook policyDemoSnapshot policyDemoInput
     = Inr \<lparr>rr_Runbook = policyDemoRunbook, rr_TargetID = ''web'', rr_AnalysisRequired = False\<rparr>
   \<and> Evaluate policyDemoSnapshot
       (policyDemoInput\<lparr>pi_AnalysisAvailable := False, pi_AnalysisCandidateIDs := []\<rparr>)
     = Evaluate policyDemoSnapshot policyDemoInput"
proof -
  let ?r = "\<lparr>rr_Runbook = policyDemoRunbook, rr_TargetID = ''web'', rr_AnalysisRequired = False\<rparr>"
  have r: "policyRunbook policyDemoSnapshot policyDemoInput = Inr ?r"
    by code_simp
  with Evaluate_model_advice [where snapshot = policyDemoSnapshot and input = policyDemoInput
      and r = ?r and av = False and ids = "[]"]
  show ?thesis by simp
qed

text \<open>
  The membership test: sorting a copy and searching it by bisection decides membership of
  the original list, so the approver and candidate checks are exact.
\<close>

theorem contains_is_membership: "contains vs want \<longleftrightarrow> want \<in> set vs"
  by (rule contains_iff)

end
