(* ===== verification/Effects.thy ===== *)
theory Effects
  imports Journal Policy
begin

text \<open>
  Programs with effects. The recovery coordinator and the approval manager interleave store
  transactions with calls to injected dependencies, and several such operations may run at
  once or be cut short by a restart. An operation is modelled as a resumption: it stops at
  each transaction and each call, and continues with the result. A transaction is atomic
  (the store has one writer); the answer to a call is arbitrary. A system is a store shared by
  any number of operations whose steps interleave; operations may start at any time and may
  never be resumed, which covers a crash, and other components may change other buckets at any
  time.
\<close>

section \<open>Programs\<close>

text \<open>The current facts a state source supplies (\<open>recovery.ExecutionState\<close>).\<close>

record ExecutionState =
  ex_Target :: ServiceTarget
  ex_PolicySnapshot :: Snapshot
  ex_PolicyInput :: PolicyInput

text \<open>The lifecycle publications of \<open>recovery.LifecyclePublisher\<close>.\<close>

datatype publication =
    PublishAnalysisUnavailable string string string
  | PublishPolicyDenied string string ReasonCode
  | PublishApprovalRequested RecoveryCommand
  | PublishRecoveryStarted RecoveryCommand

text \<open>
  \<open>Atomic u k\<close> applies the transaction \<open>u\<close> to the store and continues with \<open>k\<close>, which sees the
  contents the transaction started from. \<open>AdapterExecute\<close> carries, beside the arguments of
  the call, the journal key it is made for; the key is not passed to the adapter.
\<close>

datatype ('db, 'a) prog =
    Ret 'a
  | Atomic "'db \<Rightarrow> 'db" "'db \<Rightarrow> ('db, 'a) prog"
  | ClockNow "Time \<Rightarrow> ('db, 'a) prog"
  | NewID "error + string \<Rightarrow> ('db, 'a) prog"
  | SourceLoad RecoveryCommand "error + ExecutionState \<Rightarrow> ('db, 'a) prog"
  | AdapterValidate ServiceTarget TypedAction "error option \<Rightarrow> ('db, 'a) prog"
  | AdapterExecute string ServiceTarget TypedAction "error option \<Rightarrow> ('db, 'a) prog"
  | AdapterVerify ServiceTarget "error + DockerSnapshot \<Rightarrow> ('db, 'a) prog"
  | Publish publication "error option \<Rightarrow> ('db, 'a) prog"

primrec bindP :: "('db, 'a) prog \<Rightarrow> ('a \<Rightarrow> ('db, 'b) prog) \<Rightarrow> ('db, 'b) prog" where
  "bindP (Ret a) f = f a"
| "bindP (Atomic u k) f = Atomic u (\<lambda>db. bindP (k db) f)"
| "bindP (ClockNow k) f = ClockNow (\<lambda>t. bindP (k t) f)"
| "bindP (NewID k) f = NewID (\<lambda>r. bindP (k r) f)"
| "bindP (SourceLoad c k) f = SourceLoad c (\<lambda>r. bindP (k r) f)"
| "bindP (AdapterValidate t a k) f = AdapterValidate t a (\<lambda>r. bindP (k r) f)"
| "bindP (AdapterExecute key t a k) f = AdapterExecute key t a (\<lambda>r. bindP (k r) f)"
| "bindP (AdapterVerify t k) f = AdapterVerify t (\<lambda>r. bindP (k r) f)"
| "bindP (Publish p k) f = Publish p (\<lambda>r. bindP (k r) f)"

text \<open>A transaction that returns a result, and a read-only one.\<close>

definition transact :: "('db \<Rightarrow> 'r \<times> 'db) \<Rightarrow> ('db, 'r) prog" where
  "transact T = Atomic (\<lambda>db. snd (T db)) (\<lambda>db. Ret (fst (T db)))"

definition readOnly :: "('db \<Rightarrow> 'r) \<Rightarrow> ('db, 'r) prog" where
  "readOnly V = Atomic (\<lambda>db. db) (\<lambda>db. Ret (V db))"

text \<open>The idiom \<open>x, err := m; if err != nil { return ..., err }\<close> with a result for the error.\<close>

definition orElse :: "error + 'a \<Rightarrow> (error \<Rightarrow> 'b) \<Rightarrow> ('a \<Rightarrow> 'b) \<Rightarrow> 'b" where
  "orElse r onError f = (case r of Inl e \<Rightarrow> onError e | Inr x \<Rightarrow> f x)"

lemma orElse_simps [simp]:
  "orElse (Inl e) h f = h e"
  "orElse (Inr x) h f = f x"
  by (simp_all add: orElse_def)

section \<open>Steps, systems and runs\<close>

datatype event =
    EvTransaction
  | EvClock Time
  | EvNewID "error + string"
  | EvLoad RecoveryCommand "error + ExecutionState"
  | EvValidate ServiceTarget TypedAction "error option"
  | EvExecute string ServiceTarget TypedAction "error option"
  | EvVerify ServiceTarget "error + DockerSnapshot"
  | EvPublish publication "error option"

inductive pstep :: "'db \<times> ('db, 'a) prog \<Rightarrow> event \<Rightarrow> 'db \<times> ('db, 'a) prog \<Rightarrow> bool" where
  step_atomic: "pstep (db, Atomic u k) EvTransaction (u db, k db)"
| step_clock: "pstep (db, ClockNow k) (EvClock t) (db, k t)"
| step_id: "pstep (db, NewID k) (EvNewID r) (db, k r)"
| step_load: "pstep (db, SourceLoad c k) (EvLoad c r) (db, k r)"
| step_validate: "pstep (db, AdapterValidate t a k) (EvValidate t a r) (db, k r)"
| step_execute: "pstep (db, AdapterExecute key t a k) (EvExecute key t a r) (db, k r)"
| step_verify: "pstep (db, AdapterVerify t k) (EvVerify t r) (db, k r)"
| step_publish: "pstep (db, Publish p k) (EvPublish p r) (db, k r)"

inductive_cases pstep_cases:
  "pstep (db, Ret a) ev st"
  "pstep (db, Atomic u k) ev st"
  "pstep (db, ClockNow k) ev st"
  "pstep (db, NewID k) ev st"
  "pstep (db, SourceLoad c k) ev st"
  "pstep (db, AdapterValidate t a k) ev st"
  "pstep (db, AdapterExecute key t a k) ev st"
  "pstep (db, AdapterVerify t k) ev st"
  "pstep (db, Publish p k) ev st"

text \<open>
  A system of threads over one store. \<open>allowed\<close> says which programs may be started, \<open>outside\<close>
  how other components may change the store. The list is the trace of all calls so far.
\<close>

inductive reaches ::
    "(('db, 'a) prog \<Rightarrow> bool) \<Rightarrow> ('db \<Rightarrow> 'db \<Rightarrow> bool) \<Rightarrow> 'db \<Rightarrow> 'db \<Rightarrow> ('db, 'a) prog list \<Rightarrow> event list \<Rightarrow> bool"
  for allowed outside db0 where
  reach_start: "reaches allowed outside db0 db0 [] []"
| reach_spawn: "reaches allowed outside db0 db threads trace \<Longrightarrow> allowed p \<Longrightarrow>
    reaches allowed outside db0 db (threads @ [p]) trace"
| reach_outside: "reaches allowed outside db0 db threads trace \<Longrightarrow> outside db db' \<Longrightarrow>
    reaches allowed outside db0 db' threads trace"
| reach_step: "reaches allowed outside db0 db threads trace \<Longrightarrow> i < length threads \<Longrightarrow>
    pstep (db, threads ! i) ev (db', p) \<Longrightarrow>
    reaches allowed outside db0 db' (threads[i := p]) (trace @ [ev])"

section \<open>At most one execution per journal key\<close>

text \<open>The key a program is about to call the adapter for.\<close>

primrec armed :: "('db, 'a) prog \<Rightarrow> string option" where
  "armed (Ret a) = None"
| "armed (Atomic u k) = None"
| "armed (ClockNow k) = None"
| "armed (NewID k) = None"
| "armed (SourceLoad c k) = None"
| "armed (AdapterValidate t a k) = None"
| "armed (AdapterExecute key t a k) = Some key"
| "armed (AdapterVerify t k) = None"
| "armed (Publish p k) = None"

text \<open>
  A guarded program reaches a call of \<open>Execute\<close> only out of a transaction that moved the key
  from approved to executing, and its transactions never move a key back.
\<close>

inductive guarded :: "'db engine \<Rightarrow> journal_lib \<Rightarrow> ('db \<Rightarrow> bool) \<Rightarrow> ('db, 'a) prog \<Rightarrow> bool"
  for eng lib dbinv where
  guarded_ret: "guarded eng lib dbinv (Ret a)"
| guarded_atomic:
    "(\<And>db. dbinv db \<Longrightarrow> dbinv (u db)) \<Longrightarrow> (\<And>db. dbinv db \<Longrightarrow> journal_mono eng lib db (u db)) \<Longrightarrow>
     (\<And>db key. dbinv db \<Longrightarrow> armed (k db) = Some key \<Longrightarrow>
        HasPrefix key journalRecordPrefix \<and> keyLevel eng lib db key < 3
        \<and> 3 \<le> keyLevel eng lib (u db) key) \<Longrightarrow>
     (\<And>db. dbinv db \<Longrightarrow> guarded eng lib dbinv (k db)) \<Longrightarrow> guarded eng lib dbinv (Atomic u k)"
| guarded_clock: "(\<And>t. armed (k t) = None) \<Longrightarrow> (\<And>t. guarded eng lib dbinv (k t)) \<Longrightarrow>
     guarded eng lib dbinv (ClockNow k)"
| guarded_id: "(\<And>r. armed (k r) = None) \<Longrightarrow> (\<And>r. guarded eng lib dbinv (k r)) \<Longrightarrow>
     guarded eng lib dbinv (NewID k)"
| guarded_load: "(\<And>r. armed (k r) = None) \<Longrightarrow> (\<And>r. guarded eng lib dbinv (k r)) \<Longrightarrow>
     guarded eng lib dbinv (SourceLoad c k)"
| guarded_validate: "(\<And>r. armed (k r) = None) \<Longrightarrow> (\<And>r. guarded eng lib dbinv (k r)) \<Longrightarrow>
     guarded eng lib dbinv (AdapterValidate t a k)"
| guarded_execute: "(\<And>r. armed (k r) = None) \<Longrightarrow> (\<And>r. guarded eng lib dbinv (k r)) \<Longrightarrow>
     guarded eng lib dbinv (AdapterExecute key t a k)"
| guarded_verify: "(\<And>r. armed (k r) = None) \<Longrightarrow> (\<And>r. guarded eng lib dbinv (k r)) \<Longrightarrow>
     guarded eng lib dbinv (AdapterVerify t k)"
| guarded_publish: "(\<And>r. armed (k r) = None) \<Longrightarrow> (\<And>r. guarded eng lib dbinv (k r)) \<Longrightarrow>
     guarded eng lib dbinv (Publish p k)"

inductive_cases guarded_cases:
  "guarded eng lib dbinv (Atomic u k)"
  "guarded eng lib dbinv (ClockNow k)"
  "guarded eng lib dbinv (NewID k)"
  "guarded eng lib dbinv (SourceLoad c k)"
  "guarded eng lib dbinv (AdapterValidate t a k)"
  "guarded eng lib dbinv (AdapterExecute key t a k)"
  "guarded eng lib dbinv (AdapterVerify t k)"
  "guarded eng lib dbinv (Publish p k)"

lemma guarded_step:
  assumes "pstep (db, p) ev (db', p')" and "guarded eng lib dbinv p" and "dbinv db"
  shows "dbinv db'" and "guarded eng lib dbinv p'" and "journal_mono eng lib db db'"
    and "armed p' = Some key \<Longrightarrow> armed p = None \<and> HasPrefix key journalRecordPrefix
      \<and> keyLevel eng lib db key < 3 \<and> 3 \<le> keyLevel eng lib db' key"
  using assms by (cases p; auto elim!: pstep_cases guarded_cases)+

subsection \<open>Sequencing\<close>

lemma armed_bindP: "armed (bindP p f) = (case p of Ret a \<Rightarrow> armed (f a) | _ \<Rightarrow> armed p)"
  by (cases p) simp_all

text \<open>A harmless program is guarded whatever comes next and calls \<open>Execute\<close> nowhere.\<close>

primrec harmless :: "'db engine \<Rightarrow> journal_lib \<Rightarrow> ('db \<Rightarrow> bool) \<Rightarrow> ('db, 'a) prog \<Rightarrow> bool" where
  "harmless eng lib dbinv (Ret a) = True"
| "harmless eng lib dbinv (Atomic u k) =
     (\<forall>db. dbinv db \<longrightarrow> dbinv (u db) \<and> journal_mono eng lib db (u db) \<and> harmless eng lib dbinv (k db))"
| "harmless eng lib dbinv (ClockNow k) = (\<forall>t. harmless eng lib dbinv (k t))"
| "harmless eng lib dbinv (NewID k) = (\<forall>r. harmless eng lib dbinv (k r))"
| "harmless eng lib dbinv (SourceLoad c k) = (\<forall>r. harmless eng lib dbinv (k r))"
| "harmless eng lib dbinv (AdapterValidate t a k) = (\<forall>r. harmless eng lib dbinv (k r))"
| "harmless eng lib dbinv (AdapterExecute key t a k) = False"
| "harmless eng lib dbinv (AdapterVerify t k) = (\<forall>r. harmless eng lib dbinv (k r))"
| "harmless eng lib dbinv (Publish p k) = (\<forall>r. harmless eng lib dbinv (k r))"

lemma harmless_armed: "harmless eng lib dbinv p \<Longrightarrow> armed p = None"
  by (cases p) simp_all

lemma harmless_bindP:
  "harmless eng lib dbinv p \<Longrightarrow> (\<And>a. harmless eng lib dbinv (f a)) \<Longrightarrow> harmless eng lib dbinv (bindP p f)"
  by (induction p) simp_all

lemma armed_bindP_harmless:
  "harmless eng lib dbinv p \<Longrightarrow> (\<And>a. armed (f a) = None) \<Longrightarrow> armed (bindP p f) = None"
  by (cases p) simp_all

lemma guarded_bindP:
  assumes "harmless eng lib dbinv p" and "\<And>a. guarded eng lib dbinv (f a)" and "\<And>a. armed (f a) = None"
  shows "guarded eng lib dbinv (bindP p f)"
  using assms
  by (induction p) (auto intro!: guarded.intros simp: armed_bindP_harmless [where eng = eng and lib = lib and dbinv = dbinv])

lemma bindP_Ret: "bindP p Ret = p"
  by (induction p) auto

lemma harmless_guarded: "harmless eng lib dbinv p \<Longrightarrow> guarded eng lib dbinv p"
  using guarded_bindP [of eng lib dbinv p Ret] by (simp add: bindP_Ret guarded_ret)

lemma armed_map: "armed (bindP p (\<lambda>a. Ret (h a))) = armed p"
  by (cases p) simp_all

lemma guarded_map: "guarded eng lib dbinv p \<Longrightarrow> guarded eng lib dbinv (bindP p (\<lambda>a. Ret (h a)))"
  by (induction rule: guarded.induct) (auto intro!: guarded.intros simp: armed_map)

text \<open>
  The rule for a program that starts an execution: the transaction \<open>T\<close> returns a record only
  when it moved the key, and what follows a returned record may call the adapter.
\<close>

lemma guarded_start:
  assumes "\<And>db. dbinv db \<Longrightarrow> dbinv (snd (T db)) \<and> journal_mono eng lib db (snd (T db))"
    and "\<And>db key. dbinv db \<Longrightarrow> armed (f (fst (T db))) = Some key \<Longrightarrow>
      HasPrefix key journalRecordPrefix \<and> keyLevel eng lib db key < 3
      \<and> 3 \<le> keyLevel eng lib (snd (T db)) key"
    and "\<And>r. guarded eng lib dbinv (f r)"
  shows "guarded eng lib dbinv (bindP (transact T) f)"
  unfolding transact_def bindP.simps by (rule guarded_atomic) (use assms in auto)

lemma harmless_transact [intro]:
  assumes "\<And>db. dbinv db \<Longrightarrow> dbinv (snd (T db)) \<and> journal_mono eng lib db (snd (T db))"
  shows "harmless eng lib dbinv (transact T)"
  using assms by (simp add: transact_def)

lemma harmless_readOnly [simp]: "harmless eng lib dbinv (readOnly V)"
  by (simp add: readOnly_def)

subsection \<open>The system invariant\<close>

fun executes :: "string \<Rightarrow> event \<Rightarrow> bool" where
  "executes key (EvExecute k t a r) = (k = key)"
| "executes key _ = False"

definition executions :: "string \<Rightarrow> event list \<Rightarrow> nat" where
  "executions key trace = length (filter (executes key) trace)"

definition armedFor :: "string \<Rightarrow> ('db, 'a) prog list \<Rightarrow> nat" where
  "armedFor key threads = length (filter (\<lambda>p. armed p = Some key) threads)"

lemma length_filter_update:
  "i < length xs \<Longrightarrow> length (filter P (xs[i := v])) + (if P (xs ! i) then 1 else 0)
     = length (filter P xs) + (if P v then 1 else 0)"
proof (induction xs arbitrary: i)
  case (Cons x xs)
  then show ?case by (cases i) auto
qed simp

lemma armedFor_update:
  "i < length threads \<Longrightarrow> armedFor key (threads[i := p]) + (if armed (threads ! i) = Some key then 1 else 0)
     = armedFor key threads + (if armed p = Some key then 1 else 0)"
  unfolding armedFor_def by (rule length_filter_update)

lemma step_executes:
  "pstep (db, p) ev (db', p') \<Longrightarrow> executes key ev \<longleftrightarrow> armed p = Some key"
  by (cases p) (auto elim!: pstep_cases)

text \<open>
  The calls already made and those about to be made for a key are at most one together, and
  none unless the key moved from below executing to executing or beyond.
\<close>

definition once :: "'db engine \<Rightarrow> journal_lib \<Rightarrow> 'db \<Rightarrow> 'db \<Rightarrow> ('db, 'a) prog list \<Rightarrow> event list \<Rightarrow> bool" where
  "once eng lib db0 db threads trace \<longleftrightarrow>
     (\<forall>key. executions key trace + armedFor key threads
        \<le> (if HasPrefix key journalRecordPrefix \<and> keyLevel eng lib db0 key < 3
              \<and> 3 \<le> keyLevel eng lib db key then 1 else 0))"

lemma once_mono:
  assumes "once eng lib db0 db threads trace" and "journal_mono eng lib db db'"
  shows "once eng lib db0 db' threads trace"
  unfolding once_def
proof
  fix key
  have "HasPrefix key journalRecordPrefix \<Longrightarrow> keyLevel eng lib db key \<le> keyLevel eng lib db' key"
    using assms(2) unfolding journal_mono_def by blast
  then show "executions key trace + armedFor key threads
        \<le> (if HasPrefix key journalRecordPrefix \<and> keyLevel eng lib db0 key < 3
              \<and> 3 \<le> keyLevel eng lib db' key then 1 else 0)"
    using assms(1) [unfolded once_def, rule_format, of key] by (auto split: if_splits)
qed

lemma once_step:
  assumes "once eng lib db0 db threads trace" and "i < length threads"
    and "pstep (db, threads ! i) ev (db', p)" and "guarded eng lib dbinv (threads ! i)" and "dbinv db"
    and "journal_mono eng lib db0 db"
  shows "once eng lib db0 db' (threads[i := p]) (trace @ [ev])"
  unfolding once_def
proof
  fix key
  note step = guarded_step [OF assms(3,4,5)]
  let ?bound = "\<lambda>d. if HasPrefix key journalRecordPrefix \<and> keyLevel eng lib db0 key < 3
      \<and> 3 \<le> keyLevel eng lib d key then 1 else (0 :: nat)"
  have old: "executions key trace + armedFor key threads \<le> ?bound db"
    using assms(1) unfolding once_def by blast
  have later: "executions key trace + armedFor key threads \<le> ?bound db'"
    using once_mono [OF assms(1) step(3)] unfolding once_def by blast
  have calls: "executions key (trace @ [ev])
      = executions key trace + (if armed (threads ! i) = Some key then 1 else 0)"
    using step_executes [OF assms(3)] by (simp add: executions_def)
  show "executions key (trace @ [ev]) + armedFor key (threads[i := p]) \<le> ?bound db'"
  proof (cases "armed p = Some key")
    case True
    from step(4) [OF True] have moved: "armed (threads ! i) = None"
      "HasPrefix key journalRecordPrefix" "keyLevel eng lib db key < 3" "3 \<le> keyLevel eng lib db' key"
      by simp_all
    with assms(6) have "keyLevel eng lib db0 key < 3"
      unfolding journal_mono_def by (metis le_less_trans)
    with moved True old calls armedFor_update [OF assms(2), of key p] show ?thesis by simp
  next
    case False
    with later calls armedFor_update [OF assms(2), of key p] show ?thesis by simp
  qed
qed

lemma reaches_once:
  assumes "reaches allowed outside db0 db threads trace" and "dbinv db0"
    and "\<And>p. allowed p \<Longrightarrow> guarded eng lib dbinv p \<and> armed p = None"
    and "\<And>d d'. outside d d' \<Longrightarrow> dbinv d \<Longrightarrow> dbinv d' \<and> same_bucket eng BucketCommandJournal d d'"
  shows "dbinv db \<and> journal_mono eng lib db0 db \<and> (\<forall>p \<in> set threads. guarded eng lib dbinv p)
    \<and> once eng lib db0 db threads trace"
  using assms(1)
proof (induction rule: reaches.induct)
  case reach_start
  with assms(2) show ?case by (simp add: once_def executions_def armedFor_def)
next
  case (reach_spawn db threads trace p)
  with assms(3) [OF reach_spawn(2)] show ?case by (auto simp: once_def armedFor_def)
next
  case (reach_outside db threads trace db')
  then have kept: "dbinv db' \<and> same_bucket eng BucketCommandJournal db db'"
    using assms(4) by blast
  then have "dbinv db'" and mono: "journal_mono eng lib db db'"
    by (simp_all add: same_bucket_mono)
  moreover have "journal_mono eng lib db0 db'"
    by (rule journal_mono_trans [OF _ mono]) (use reach_outside in blast)
  moreover have "once eng lib db0 db' threads trace"
    by (rule once_mono [OF _ mono]) (use reach_outside in blast)
  ultimately show ?case using reach_outside by blast
next
  case (reach_step db threads trace i ev db' p)
  then have g: "guarded eng lib dbinv (threads ! i)" and inv: "dbinv db" by simp_all
  note step = guarded_step [OF reach_step(3) g inv]
  have "once eng lib db0 db' (threads[i := p]) (trace @ [ev])"
    by (rule once_step [OF _ reach_step(2,3) g inv]) (use reach_step in blast)+
  moreover have "journal_mono eng lib db0 db'"
    by (rule journal_mono_trans [OF _ step(3)]) (use reach_step in blast)
  moreover have "guarded eng lib dbinv q" if "q \<in> set (threads[i := p])" for q
    using set_update_subset_insert [of threads i p] that step(2) reach_step.IH by blast
  ultimately show ?case using step(1) by blast
qed

section \<open>What one thread does\<close>

text \<open>
  The runs of one thread, with any interference between its steps: the store a transaction
  finds is arbitrary.
\<close>

inductive thread_run :: "('db, 'a) prog \<Rightarrow> event list \<Rightarrow> ('db, 'a) prog \<Rightarrow> bool" where
  run_here: "thread_run p [] p"
| run_step: "pstep (db, p) ev (db', p') \<Longrightarrow> thread_run p' trace q \<Longrightarrow> thread_run p (ev # trace) q"

inductive_simps thread_run_simps:
  "thread_run p [] q"
  "thread_run p (ev # trace) q"

text \<open>The same, computed along the program: the runs that return \<open>r\<close>, and those that stand at a call of \<open>Execute\<close>.\<close>

primrec yields :: "('db, 'a) prog \<Rightarrow> event list \<Rightarrow> 'a \<Rightarrow> bool" where
  "yields (Ret a) tr r \<longleftrightarrow> tr = [] \<and> r = a"
| "yields (Atomic u k) tr r \<longleftrightarrow> (\<exists>db rest. tr = EvTransaction # rest \<and> yields (k db) rest r)"
| "yields (ClockNow k) tr r \<longleftrightarrow> (\<exists>x rest. tr = EvClock x # rest \<and> yields (k x) rest r)"
| "yields (NewID k) tr r \<longleftrightarrow> (\<exists>x rest. tr = EvNewID x # rest \<and> yields (k x) rest r)"
| "yields (SourceLoad c k) tr r \<longleftrightarrow> (\<exists>x rest. tr = EvLoad c x # rest \<and> yields (k x) rest r)"
| "yields (AdapterValidate t a k) tr r \<longleftrightarrow> (\<exists>x rest. tr = EvValidate t a x # rest \<and> yields (k x) rest r)"
| "yields (AdapterExecute key t a k) tr r \<longleftrightarrow>
     (\<exists>x rest. tr = EvExecute key t a x # rest \<and> yields (k x) rest r)"
| "yields (AdapterVerify t k) tr r \<longleftrightarrow> (\<exists>x rest. tr = EvVerify t x # rest \<and> yields (k x) rest r)"
| "yields (Publish p k) tr r \<longleftrightarrow> (\<exists>x rest. tr = EvPublish p x # rest \<and> yields (k x) rest r)"

primrec stands :: "('db, 'a) prog \<Rightarrow> event list \<Rightarrow> string \<Rightarrow> ServiceTarget \<Rightarrow> TypedAction \<Rightarrow> bool" where
  "stands (Ret x) tr key t a \<longleftrightarrow> False"
| "stands (Atomic u k) tr key t a \<longleftrightarrow> (\<exists>db rest. tr = EvTransaction # rest \<and> stands (k db) rest key t a)"
| "stands (ClockNow k) tr key t a \<longleftrightarrow> (\<exists>x rest. tr = EvClock x # rest \<and> stands (k x) rest key t a)"
| "stands (NewID k) tr key t a \<longleftrightarrow> (\<exists>x rest. tr = EvNewID x # rest \<and> stands (k x) rest key t a)"
| "stands (SourceLoad c k) tr key t a \<longleftrightarrow> (\<exists>x rest. tr = EvLoad c x # rest \<and> stands (k x) rest key t a)"
| "stands (AdapterValidate t' a' k) tr key t a \<longleftrightarrow>
     (\<exists>x rest. tr = EvValidate t' a' x # rest \<and> stands (k x) rest key t a)"
| "stands (AdapterExecute key' t' a' k) tr key t a \<longleftrightarrow>
     (tr = [] \<and> key' = key \<and> t' = t \<and> a' = a)
     \<or> (\<exists>x rest. tr = EvExecute key' t' a' x # rest \<and> stands (k x) rest key t a)"
| "stands (AdapterVerify t' k) tr key t a \<longleftrightarrow>
     (\<exists>x rest. tr = EvVerify t' x # rest \<and> stands (k x) rest key t a)"
| "stands (Publish p k) tr key t a \<longleftrightarrow> (\<exists>x rest. tr = EvPublish p x # rest \<and> stands (k x) rest key t a)"

lemma step_yields: "pstep (db, p) ev (db', p') \<Longrightarrow> yields p' tr r \<Longrightarrow> yields p (ev # tr) r"
  by (cases p) (auto elim!: pstep_cases)

lemma step_stands: "pstep (db, p) ev (db', p') \<Longrightarrow> stands p' tr key t a \<Longrightarrow> stands p (ev # tr) key t a"
  by (cases p) (auto elim!: pstep_cases)

lemma thread_run_append:
  assumes "thread_run p tr q"
  shows "yields q tr' r \<Longrightarrow> yields p (tr @ tr') r"
    and "stands q tr' key t a \<Longrightarrow> stands p (tr @ tr') key t a"
  using assms by (induction rule: thread_run.induct) (auto dest: step_yields step_stands)

lemma thread_run_yields: "thread_run p tr (Ret r) \<Longrightarrow> yields p tr r"
  using thread_run_append(1) [of p tr "Ret r" "[]"] by simp

lemma thread_run_stands: "thread_run p tr (AdapterExecute key t a k) \<Longrightarrow> stands p tr key t a"
  using thread_run_append(2) [of p tr "AdapterExecute key t a k" "[]"] by simp

text \<open>A run that passes through a program and goes on as \<open>Q\<close> says.\<close>

definition after :: "('db, 'a) prog \<Rightarrow> event list \<Rightarrow> ('a \<Rightarrow> event list \<Rightarrow> bool) \<Rightarrow> bool" where
  "after p tr Q \<longleftrightarrow> (\<exists>a tr1 tr2. tr = tr1 @ tr2 \<and> yields p tr1 a \<and> Q a tr2)"

lemma after_Cons:
  assumes "\<And>tr a. yields p tr a \<longleftrightarrow> (\<exists>x rest. tr = ev x # rest \<and> yields (k x) rest a)"
  shows "after p tr Q \<longleftrightarrow> (\<exists>x rest. tr = ev x # rest \<and> after (k x) rest Q)"
proof
  assume "after p tr Q"
  then obtain a tr1 tr2 where run: "tr = tr1 @ tr2" "yields p tr1 a" "Q a tr2"
    unfolding after_def by blast
  from run(2) obtain x rest where "tr1 = ev x # rest" "yields (k x) rest a"
    using assms by blast
  with run show "\<exists>x rest. tr = ev x # rest \<and> after (k x) rest Q" unfolding after_def by auto
next
  assume "\<exists>x rest. tr = ev x # rest \<and> after (k x) rest Q"
  then obtain x a tr1 tr2 where "tr = ev x # tr1 @ tr2" "yields (k x) tr1 a" "Q a tr2"
    unfolding after_def by blast
  moreover from this have "yields p (ev x # tr1) a" using assms by blast
  ultimately show "after p tr Q" unfolding after_def by (metis append_Cons)
qed

lemma after_simps [simp]:
  "after (Ret x) tr Q \<longleftrightarrow> Q x tr"
  "after (Atomic u k2) tr Q \<longleftrightarrow> (\<exists>db rest. tr = EvTransaction # rest \<and> after (k2 db) rest Q)"
  "after (ClockNow k3) tr Q \<longleftrightarrow> (\<exists>x rest. tr = EvClock x # rest \<and> after (k3 x) rest Q)"
  "after (NewID k4) tr Q \<longleftrightarrow> (\<exists>x rest. tr = EvNewID x # rest \<and> after (k4 x) rest Q)"
  "after (SourceLoad c k5) tr Q \<longleftrightarrow> (\<exists>x rest. tr = EvLoad c x # rest \<and> after (k5 x) rest Q)"
  "after (AdapterValidate t a k6) tr Q \<longleftrightarrow> (\<exists>x rest. tr = EvValidate t a x # rest \<and> after (k6 x) rest Q)"
  "after (AdapterExecute key t a k7) tr Q \<longleftrightarrow>
     (\<exists>x rest. tr = EvExecute key t a x # rest \<and> after (k7 x) rest Q)"
  "after (AdapterVerify t k8) tr Q \<longleftrightarrow> (\<exists>x rest. tr = EvVerify t x # rest \<and> after (k8 x) rest Q)"
  "after (Publish p k9) tr Q \<longleftrightarrow> (\<exists>x rest. tr = EvPublish p x # rest \<and> after (k9 x) rest Q)"
  by (simp add: after_def) (rule after_Cons, simp)+

lemma yields_bindP: "yields (bindP p f) tr r \<longleftrightarrow> after p tr (\<lambda>a rest. yields (f a) rest r)"
  by (induction p arbitrary: tr) simp_all

lemma stands_bindP:
  "stands (bindP p f) tr key t a \<longleftrightarrow>
     stands p tr key t a \<or> after p tr (\<lambda>x rest. stands (f x) rest key t a)"
  by (induction p arbitrary: tr) (auto simp: after_Cons)

text \<open>Programs without a call of \<open>Execute\<close>.\<close>

primrec noExecute :: "('db, 'a) prog \<Rightarrow> bool" where
  "noExecute (Ret a) = True"
| "noExecute (Atomic u k) = (\<forall>db. noExecute (k db))"
| "noExecute (ClockNow k) = (\<forall>t. noExecute (k t))"
| "noExecute (NewID k) = (\<forall>r. noExecute (k r))"
| "noExecute (SourceLoad c k) = (\<forall>r. noExecute (k r))"
| "noExecute (AdapterValidate t a k) = (\<forall>r. noExecute (k r))"
| "noExecute (AdapterExecute key t a k) = False"
| "noExecute (AdapterVerify t k) = (\<forall>r. noExecute (k r))"
| "noExecute (Publish p k) = (\<forall>r. noExecute (k r))"

lemma noExecute_stands: "noExecute p \<Longrightarrow> \<not> stands p tr key t a"
  by (induction p arbitrary: tr) auto

lemma noExecute_bindP: "noExecute p \<Longrightarrow> (\<And>x. noExecute (f x)) \<Longrightarrow> noExecute (bindP p f)"
  by (induction p) simp_all

lemma noExecute_transact [simp]: "noExecute (transact T)" "noExecute (readOnly V)"
  by (simp_all add: transact_def readOnly_def)

lemma stands_then:
  "noExecute p \<Longrightarrow> stands (bindP p f) tr key t a \<longleftrightarrow> after p tr (\<lambda>x rest. stands (f x) rest key t a)"
  by (simp add: stands_bindP noExecute_stands)

lemma after_bindP: "after (bindP p f) tr Q \<longleftrightarrow> after p tr (\<lambda>a rest. after (f a) rest Q)"
  by (induction p arbitrary: tr) simp_all

lemma after_mono: "after p tr Q \<Longrightarrow> (\<And>x rest. Q x rest \<Longrightarrow> R x rest) \<Longrightarrow> after p tr R"
  unfolding after_def by blast

lemma after_transact [simp]:
  "after (transact T) tr Q \<longleftrightarrow> (\<exists>db rest. tr = EvTransaction # rest \<and> Q (fst (T db)) rest)"
  "after (readOnly V) tr Q \<longleftrightarrow> (\<exists>db rest. tr = EvTransaction # rest \<and> Q (V db) rest)"
  by (simp_all add: transact_def readOnly_def)

section \<open>Runs without interference\<close>

text \<open>\<open>final p db db' r\<close>: started alone on \<open>db\<close>, the program may end in \<open>db'\<close> and return \<open>r\<close>.\<close>

primrec final :: "('db, 'a) prog \<Rightarrow> 'db \<Rightarrow> 'db \<Rightarrow> 'a \<Rightarrow> bool" where
  "final (Ret a) db db' r \<longleftrightarrow> db' = db \<and> r = a"
| "final (Atomic u k) db db' r \<longleftrightarrow> final (k db) (u db) db' r"
| "final (ClockNow k) db db' r \<longleftrightarrow> (\<exists>x. final (k x) db db' r)"
| "final (NewID k) db db' r \<longleftrightarrow> (\<exists>x. final (k x) db db' r)"
| "final (SourceLoad c k) db db' r \<longleftrightarrow> (\<exists>x. final (k x) db db' r)"
| "final (AdapterValidate t a k) db db' r \<longleftrightarrow> (\<exists>x. final (k x) db db' r)"
| "final (AdapterExecute key t a k) db db' r \<longleftrightarrow> (\<exists>x. final (k x) db db' r)"
| "final (AdapterVerify t k) db db' r \<longleftrightarrow> (\<exists>x. final (k x) db db' r)"
| "final (Publish p k) db db' r \<longleftrightarrow> (\<exists>x. final (k x) db db' r)"

lemma final_bindP: "final (bindP p f) db db' r \<longleftrightarrow> (\<exists>mid a. final p db mid a \<and> final (f a) mid db' r)"
  by (induction p arbitrary: db) auto

lemma final_transact [simp]:
  "final (transact T) db db' r \<longleftrightarrow> T db = (r, db')"
  "final (readOnly V) db db' r \<longleftrightarrow> db' = db \<and> r = V db"
  by (auto simp: transact_def readOnly_def prod_eq_iff)

text \<open>
  Replaying a trace on a store: where the program stands after it, when the events are the
  ones the program asks for.
\<close>

datatype 'a halt = Returned 'a | AtExecute string ServiceTarget TypedAction

primrec replay :: "('db, 'a) prog \<Rightarrow> event list \<Rightarrow> 'db \<Rightarrow> ('db \<times> 'a halt) option" where
  "replay (Ret a) tr db = (case tr of [] \<Rightarrow> Some (db, Returned a) | _ \<Rightarrow> None)"
| "replay (Atomic u k) tr db =
     (case tr of EvTransaction # rest \<Rightarrow> replay (k db) rest (u db) | _ \<Rightarrow> None)"
| "replay (ClockNow k) tr db = (case tr of EvClock x # rest \<Rightarrow> replay (k x) rest db | _ \<Rightarrow> None)"
| "replay (NewID k) tr db = (case tr of EvNewID x # rest \<Rightarrow> replay (k x) rest db | _ \<Rightarrow> None)"
| "replay (SourceLoad c k) tr db =
     (case tr of EvLoad c' x # rest \<Rightarrow> if c' = c then replay (k x) rest db else None | _ \<Rightarrow> None)"
| "replay (AdapterValidate t a k) tr db =
     (case tr of EvValidate t' a' x # rest \<Rightarrow> if t' = t \<and> a' = a then replay (k x) rest db else None
      | _ \<Rightarrow> None)"
| "replay (AdapterExecute key t a k) tr db =
     (case tr of [] \<Rightarrow> Some (db, AtExecute key t a)
      | EvExecute key' t' a' x # rest \<Rightarrow>
          if key' = key \<and> t' = t \<and> a' = a then replay (k x) rest db else None
      | _ \<Rightarrow> None)"
| "replay (AdapterVerify t k) tr db =
     (case tr of EvVerify t' x # rest \<Rightarrow> if t' = t then replay (k x) rest db else None | _ \<Rightarrow> None)"
| "replay (Publish p k) tr db =
     (case tr of EvPublish p' x # rest \<Rightarrow> if p' = p then replay (k x) rest db else None | _ \<Rightarrow> None)"

lemma replay_final: "replay p tr db = Some (db', Returned r) \<Longrightarrow> final p db db' r"
  by (induction p arbitrary: tr db) (auto split: list.splits event.splits if_splits, blast+)

lemma replay_stands:
  "replay p tr db = Some (db', AtExecute key t a) \<Longrightarrow> \<exists>k. thread_run p tr (AdapterExecute key t a k)"
proof (induction p arbitrary: tr db)
  case (Atomic u k)
  then obtain rest where rest: "tr = EvTransaction # rest" "replay (k db) rest (u db) = Some (db', AtExecute key t a)"
    by (auto split: list.splits event.splits)
  with Atomic.IH show ?case by (metis range_eqI run_step step_atomic)
next
  case (ClockNow k)
  then show ?case
    by (auto split: list.splits event.splits) (metis range_eqI run_step step_clock)
next
  case (NewID k)
  then show ?case
    by (auto split: list.splits event.splits) (metis range_eqI run_step step_id)
next
  case (SourceLoad c k)
  then show ?case
    by (auto split: list.splits event.splits if_splits) (metis range_eqI run_step step_load)
next
  case (AdapterValidate t' a' k)
  then show ?case
    by (auto split: list.splits event.splits if_splits) (metis range_eqI run_step step_validate)
next
  case (AdapterExecute key' t' a' k)
  then show ?case
    by (auto split: list.splits event.splits if_splits intro: run_here)
      (metis range_eqI run_step step_execute)
next
  case (AdapterVerify t' k)
  then show ?case
    by (auto split: list.splits event.splits if_splits) (metis range_eqI run_step step_verify)
next
  case (Publish p k)
  then show ?case
    by (auto split: list.splits event.splits if_splits) (metis range_eqI run_step step_publish)
qed (auto split: list.splits)

text \<open>A replayed thread of a system.\<close>

lemma reaches_replay_step:
  assumes "reaches allowed outside db0 db threads trace" and "i < length threads"
    and "pstep (db, threads ! i) ev (mid, k x)" and "replay (k x) rest mid = Some (db', h)"
    and "\<And>q tr db threads trace. q \<in> range k \<Longrightarrow> replay q tr db = Some (db', h) \<Longrightarrow>
      reaches allowed outside db0 db threads trace \<Longrightarrow> i < length threads \<Longrightarrow> threads ! i = q \<Longrightarrow>
      \<exists>p'. reaches allowed outside db0 db' (threads[i := p']) (trace @ tr)"
  shows "\<exists>p'. reaches allowed outside db0 db' (threads[i := p']) (trace @ ev # rest)"
proof -
  have "\<exists>p'. reaches allowed outside db0 db' ((threads[i := k x])[i := p']) ((trace @ [ev]) @ rest)"
    by (rule assms(5) [OF rangeI assms(4) reach_step [OF assms(1-3)]]) (simp_all add: assms(2))
  then show ?thesis by simp
qed

lemma reaches_replay:
  assumes "replay p tr db = Some (db', h)" and "reaches allowed outside db0 db threads trace"
    and "i < length threads" and "threads ! i = p"
  shows "\<exists>p'. reaches allowed outside db0 db' (threads[i := p']) (trace @ tr)"
  using assms
proof (induction p arbitrary: tr db threads trace)
  case (Ret x)
  then have "db' = db" "tr = []" by (auto split: list.splits)
  with Ret.prems(2) have "reaches allowed outside db0 db' (threads[i := threads ! i]) (trace @ tr)"
    by simp
  then show ?case by blast
next
  case (Atomic u k)
  from Atomic.prems(1) obtain rest where tr: "tr = EvTransaction # rest" "replay (k db) rest (u db) = Some (db', h)"
    by (auto split: list.splits event.splits if_splits)
  have "pstep (db, threads ! i) (EvTransaction) (u db, k db)" by (simp add: Atomic.prems(4) step_atomic)
  from reaches_replay_step [where k = k and x = db, OF Atomic.prems(2,3) this tr(2) Atomic.IH] tr(1) show ?case by simp
next
  case (ClockNow k)
  from ClockNow.prems(1) obtain x rest where tr: "tr = EvClock x # rest" "replay (k x) rest (db) = Some (db', h)"
    by (auto split: list.splits event.splits if_splits)
  have "pstep (db, threads ! i) (EvClock x) (db, k x)" by (simp add: ClockNow.prems(4) step_clock)
  from reaches_replay_step [where k = k and x = x, OF ClockNow.prems(2,3) this tr(2) ClockNow.IH] tr(1) show ?case by simp
next
  case (NewID k)
  from NewID.prems(1) obtain x rest where tr: "tr = EvNewID x # rest" "replay (k x) rest (db) = Some (db', h)"
    by (auto split: list.splits event.splits if_splits)
  have "pstep (db, threads ! i) (EvNewID x) (db, k x)" by (simp add: NewID.prems(4) step_id)
  from reaches_replay_step [where k = k and x = x, OF NewID.prems(2,3) this tr(2) NewID.IH] tr(1) show ?case by simp
next
  case (SourceLoad c k)
  from SourceLoad.prems(1) obtain x rest where tr: "tr = EvLoad c x # rest" "replay (k x) rest (db) = Some (db', h)"
    by (auto split: list.splits event.splits if_splits)
  have "pstep (db, threads ! i) (EvLoad c x) (db, k x)" by (simp add: SourceLoad.prems(4) step_load)
  from reaches_replay_step [where k = k and x = x, OF SourceLoad.prems(2,3) this tr(2) SourceLoad.IH] tr(1) show ?case by simp
next
  case (AdapterValidate t a k)
  from AdapterValidate.prems(1) obtain x rest where tr: "tr = EvValidate t a x # rest" "replay (k x) rest (db) = Some (db', h)"
    by (auto split: list.splits event.splits if_splits)
  have "pstep (db, threads ! i) (EvValidate t a x) (db, k x)" by (simp add: AdapterValidate.prems(4) step_validate)
  from reaches_replay_step [where k = k and x = x, OF AdapterValidate.prems(2,3) this tr(2) AdapterValidate.IH] tr(1) show ?case by simp
next
  case (AdapterVerify t k)
  from AdapterVerify.prems(1) obtain x rest where tr: "tr = EvVerify t x # rest" "replay (k x) rest (db) = Some (db', h)"
    by (auto split: list.splits event.splits if_splits)
  have "pstep (db, threads ! i) (EvVerify t x) (db, k x)" by (simp add: AdapterVerify.prems(4) step_verify)
  from reaches_replay_step [where k = k and x = x, OF AdapterVerify.prems(2,3) this tr(2) AdapterVerify.IH] tr(1) show ?case by simp
next
  case (Publish q k)
  from Publish.prems(1) obtain x rest where tr: "tr = EvPublish q x # rest" "replay (k x) rest (db) = Some (db', h)"
    by (auto split: list.splits event.splits if_splits)
  have "pstep (db, threads ! i) (EvPublish q x) (db, k x)" by (simp add: Publish.prems(4) step_publish)
  from reaches_replay_step [where k = k and x = x, OF Publish.prems(2,3) this tr(2) Publish.IH] tr(1) show ?case by simp
next
  case (AdapterExecute key t a k)
  show ?case
  proof (cases tr)
    case Nil
    with AdapterExecute.prems(1) have "db' = db" by simp
    with Nil AdapterExecute.prems(2)
    have "reaches allowed outside db0 db' (threads[i := threads ! i]) (trace @ tr)" by simp
    then show ?thesis by blast
  next
    case (Cons ev rest)
    with AdapterExecute.prems(1) obtain x where ev: "ev = EvExecute key t a x"
      "replay (k x) rest db = Some (db', h)"
      by (auto split: event.splits if_splits)
    have "pstep (db, threads ! i) ev (db, k x)" by (simp add: AdapterExecute.prems(4) ev(1) step_execute)
    from reaches_replay_step [where k = k and x = x, OF AdapterExecute.prems(2,3) this ev(2) AdapterExecute.IH] Cons
    show ?thesis by simp
  qed
qed

section \<open>State sources\<close>

text \<open>
  What the coordinator relies on of a \<open>StateSource\<close>: loading changes nothing in the journal
  and never executes an action.
\<close>

locale state_source =
  fixes eng :: "'db engine" and lib :: journal_lib and inv :: "'db \<Rightarrow> bool"
    and load :: "RecoveryCommand \<Rightarrow> ('db, error + ExecutionState) prog"
  assumes load_harmless: "harmless eng lib inv (load c)"
    and load_noExecute: "noExecute (load c)"

text \<open>A source outside the program: one call, one answer.\<close>

definition externalSource :: "RecoveryCommand \<Rightarrow> ('db, error + ExecutionState) prog" where
  "externalSource c = SourceLoad c Ret"

interpretation external: state_source eng lib inv externalSource for eng lib inv
  by unfold_locales (simp_all add: externalSource_def)

end
