(* ===== verification/Coordinator.thy ===== *)
theory Coordinator
  imports Effects
begin

text \<open>
  The recovery coordinator, \<open>src/internal/recovery/coordinator.go\<close>: \<open>Submit\<close>, \<open>Reconcile\<close>,
  \<open>Resume\<close> and \<open>CompleteStabilization\<close> as programs over the journal and the injected
  dependencies. The state source is a parameter, itself a program, since the approval
  manager's decorator reads the store. The lemmas show that no interleaving of these
  operations, restarts included, executes one recovery effect twice, and what every execution
  was preceded by.
\<close>

section \<open>Data\<close>

record Request =
  rq_IncidentID :: string
  rq_Target :: ServiceTarget
  rq_PolicySnapshot :: Snapshot
  rq_PolicyInput :: PolicyInput
  rq_ExpiresAt :: Time
  rq_IdempotencyKey :: string

datatype Outcome =
    OutcomeExecuted | OutcomeStabilizing | OutcomeDenied | OutcomeExpired | OutcomeAwaitApproval
  | OutcomeDuplicate | OutcomeVerifyAndNotify | OutcomeOther string

record Result =
  rs_Command :: RecoveryCommand
  rs_Outcome :: Outcome
  rs_Decision :: Decision
  rs_Duplicate :: bool

record ReconciliationResult =
  rx_Command :: RecoveryCommand
  rx_Outcome :: Outcome
  rx_Verified :: bool
  rx_Snapshot :: DockerSnapshot

text \<open>\<open>Coordinator\<close>: the store and its libraries, whether a publisher is wired, the state source.\<close>

record 'db coordinator =
  co_eng :: "'db engine"
  co_lib :: journal_lib
  co_publisher :: bool
  co_source :: "RecoveryCommand \<Rightarrow> ('db, error + ExecutionState) prog"

definition zeroCommand :: RecoveryCommand where
  "zeroCommand =
     \<lparr>rc_SchemaVersion = [], rc_CommandID = [], rc_IncidentID = [], rc_RunbookID = [],
      rc_RunbookDigest = [], rc_TargetID = [], rc_ActionIndex = 0, rc_RiskTier = RiskOther [],
      rc_ApprovalID = [], rc_IssuedAt = 0, rc_ExpiresAt = 0, rc_IdempotencyKey = [],
      rc_State = RecoveryOther []\<rparr>"

definition zeroResult :: Result where
  "zeroResult =
     \<lparr>rs_Command = zeroCommand, rs_Outcome = OutcomeOther [], rs_Decision = zeroDecision,
      rs_Duplicate = False\<rparr>"

section \<open>Pure helpers\<close>

definition validateRequest :: "Request \<Rightarrow> error option" where
  "validateRequest request =
     (let input = rq_PolicyInput request; target = rq_Target request in
      if \<not> validToken (rq_IncidentID request) maxCommandIDLength
         \<or> \<not> validToken (rq_IdempotencyKey request) maxIdempotencyKeyLength
         \<or> \<not> validToken (pi_RunbookID input) maxCommandIDLength
         \<or> \<not> validToken (pi_RunbookDigest input) maxIdempotencyKeyLength
         \<or> \<not> validToken (pi_TargetID input) maxCommandIDLength
         \<or> pi_ActionIndex input < 0 \<or> pi_CommandID input \<noteq> [] \<or> IsZero (rq_ExpiresAt request)
      then Some (Recovery ErrInvalidRequest)
      else if st_SchemaVersion target \<noteq> SchemaVersionV1 \<or> st_TargetID target \<noteq> pi_TargetID input
         \<or> st_AdapterType target \<noteq> AdapterType \<or> \<not> st_Enabled target
         \<or> \<not> validToken (st_Selector target) maxIdempotencyKeyLength
      then Some (Recovery ErrInvalidRequest)
      else None)"

definition policyInput :: "PolicyInput \<Rightarrow> string \<Rightarrow> Time \<Rightarrow> PolicyInput" where
  "policyInput input commandID now = input\<lparr>pi_CommandID := commandID, pi_Now := now\<rparr>"

definition sameExecutionTarget :: "ServiceTarget \<Rightarrow> ServiceTarget \<Rightarrow> bool" where
  "sameExecutionTarget current recorded \<longleftrightarrow>
     st_SchemaVersion current = st_SchemaVersion recorded \<and> st_TargetID current = st_TargetID recorded
     \<and> st_AdapterType current = st_AdapterType recorded \<and> st_Selector current = st_Selector recorded
     \<and> st_Enabled current = st_Enabled recorded"

definition registeredRunbook :: "Snapshot \<Rightarrow> string \<Rightarrow> RegisteredRunbook option" where
  "registeredRunbook snapshot runbookID = findRunbook (sn_Runbooks snapshot) runbookID"

definition revalidateState :: "ExecutionState \<Rightarrow> journalRecord \<Rightarrow> Time \<Rightarrow> Decision" where
  "revalidateState state record now =
     (let command = jr_Command record; input = ex_PolicyInput state in
      if pi_RunbookID input \<noteq> rc_RunbookID command \<or> pi_RunbookDigest input \<noteq> rc_RunbookDigest command
         \<or> pi_TargetID input \<noteq> rc_TargetID command \<or> pi_ActionIndex input \<noteq> rc_ActionIndex command
         \<or> \<not> sameExecutionTarget (ex_Target state) (jr_Target record)
      then deny ReasonInvalidPolicy
      else case registeredRunbook (ex_PolicySnapshot state) (rc_RunbookID command) of
          None \<Rightarrow> deny ReasonInvalidPolicy
        | Some registered \<Rightarrow>
            let actions = rb_TypedActions (rr_Runbook registered) in
            if rc_ActionIndex command < 0 \<or> rc_ActionIndex command \<ge> int (length actions)
               \<or> actions ! nat (rc_ActionIndex command) \<noteq> jr_Action record
            then deny ReasonInvalidPolicy
            else Evaluate (ex_PolicySnapshot state) (policyInput input (rc_CommandID command) now))"

definition existingOutcome :: "journalRecord \<Rightarrow> Outcome" where
  "existingOutcome record =
     (if jr_Phase record = phaseAwaitingApproval then OutcomeAwaitApproval
      else if jr_Phase record = phaseVerifyAndNotify then OutcomeVerifyAndNotify
      else if jr_Phase record = phaseStabilizing then OutcomeStabilizing
      else OutcomeDuplicate)"

text \<open>The record \<open>prepare\<close> submits to the journal, or \<open>ErrInvalidRequest\<close>.\<close>

definition pendingRecord :: "Request \<Rightarrow> string \<Rightarrow> Time \<Rightarrow> Decision \<Rightarrow> error + journalRecord" where
  "pendingRecord request commandID now decision =
     (let input = policyInput (rq_PolicyInput request) commandID now in
      case registeredRunbook (rq_PolicySnapshot request) (pi_RunbookID input) of
        None \<Rightarrow> Inl (Recovery ErrInvalidRequest)
      | Some registered \<Rightarrow>
          let actions = rb_TypedActions (rr_Runbook registered) in
          if pi_ActionIndex input < 0 \<or> pi_ActionIndex input \<ge> int (length actions)
          then Inl (Recovery ErrInvalidRequest)
          else Inr
            \<lparr>jr_SchemaVersion = SchemaVersionV1,
             jr_Command =
               \<lparr>rc_SchemaVersion = SchemaVersionV1, rc_CommandID = commandID,
                rc_IncidentID = rq_IncidentID request, rc_RunbookID = pi_RunbookID input,
                rc_RunbookDigest = pi_RunbookDigest input, rc_TargetID = st_TargetID (rq_Target request),
                rc_ActionIndex = pi_ActionIndex input, rc_RiskTier = rb_RiskTier (rr_Runbook registered),
                rc_ApprovalID = (case pi_Approval input of None \<Rightarrow> [] | Some a \<Rightarrow> av_ApprovalID a),
                rc_IssuedAt = now, rc_ExpiresAt = rq_ExpiresAt request,
                rc_IdempotencyKey = rq_IdempotencyKey request, rc_State = RecoveryPending\<rparr>,
             jr_Target = rq_Target request, jr_Action = actions ! nat (pi_ActionIndex input),
             jr_Phase = (if de_Verdict decision = VerdictAwaitApproval then phaseAwaitingApproval
                         else phasePending),
             jr_Reconciliation = None\<rparr>)"

section \<open>Dependencies\<close>

text \<open>\<open>(c *Coordinator) now()\<close>.\<close>

definition coordinatorNow :: "('db, error + Time) prog" where
  "coordinatorNow =
     ClockNow (\<lambda>now. Ret (if IsZero now then Inl (Recovery ErrInvalidOptions) else Inr now))"

text \<open>The four \<open>publish...\<close> methods: no publisher, no event.\<close>

definition publishEvent :: "'db coordinator \<Rightarrow> publication \<Rightarrow> ('db, error option) prog" where
  "publishEvent co p = (if \<not> co_publisher co then Ret None else Publish p Ret)"

definition publishAnalysisUnavailable :: "'db coordinator \<Rightarrow> Request \<Rightarrow> ('db, error option) prog" where
  "publishAnalysisUnavailable co request =
     publishEvent co (PublishAnalysisUnavailable (rq_IncidentID request) (rq_IdempotencyKey request)
       ''analysis_unavailable'')"

definition publishPolicyDenied ::
    "'db coordinator \<Rightarrow> Request \<Rightarrow> Decision \<Rightarrow> ('db, error option) prog" where
  "publishPolicyDenied co request decision =
     publishEvent co (PublishPolicyDenied (rq_IncidentID request) (rq_IdempotencyKey request)
       (de_ReasonCode decision))"

definition publishApprovalRequested ::
    "'db coordinator \<Rightarrow> RecoveryCommand \<Rightarrow> ('db, error option) prog" where
  "publishApprovalRequested co command = publishEvent co (PublishApprovalRequested command)"

definition publishRecoveryStarted ::
    "'db coordinator \<Rightarrow> RecoveryCommand \<Rightarrow> ('db, error option) prog" where
  "publishRecoveryStarted co command = publishEvent co (PublishRecoveryStarted command)"

section \<open>Operations\<close>

type_synonym 'db operation = "('db, Result \<times> error option) prog"

definition failed :: "error \<Rightarrow> 'db operation" where
  "failed e = Ret (zeroResult, Some e)"

definition finished :: "Result \<Rightarrow> 'db operation" where
  "finished result = Ret (result, None)"

definition ifOk :: "error option \<Rightarrow> (error \<Rightarrow> 'b) \<Rightarrow> 'b \<Rightarrow> 'b" where
  "ifOk err onError rest = (case err of Some e \<Rightarrow> onError e | None \<Rightarrow> rest)"

definition denyAfterRevalidation ::
    "'db coordinator \<Rightarrow> journalRecord \<Rightarrow> Decision \<Rightarrow> error option \<Rightarrow> 'db operation" where
  "denyAfterRevalidation co record decision cause =
     bindP (transact (Coordinator_deny (co_eng co) (co_lib co) (recordKey (co_lib co) (jr_Command record))))
       (\<lambda>r. orElse r failed (\<lambda>updated.
         Ret (zeroResult\<lparr>rs_Command := jr_Command updated, rs_Outcome := OutcomeDenied,
                rs_Decision := decision\<rparr>, cause)))"

text \<open>\<open>revalidate\<close> returns the decision, the time, whether the command expired, and the error.\<close>

definition revalidate ::
    "'db coordinator \<Rightarrow> journalRecord \<Rightarrow> ('db, Decision \<times> Time \<times> bool \<times> error option) prog" where
  "revalidate co record =
     bindP (co_source co (jr_Command record)) (\<lambda>loaded.
       orElse loaded (\<lambda>e. Ret (deny ReasonInvalidPolicy, 0, False, Some e)) (\<lambda>state.
       bindP coordinatorNow (\<lambda>t.
       orElse t (\<lambda>e. Ret (zeroDecision, 0, False, Some e)) (\<lambda>now.
         if \<not> now < rc_ExpiresAt (jr_Command record) then Ret (zeroDecision, now, True, None)
         else Ret (revalidateState state record now, now, False, None)))))"

text \<open>
  The block \<open>execute\<close> contains twice: revalidate, and stop on an error, an expired command or
  a decision other than allow.
\<close>

definition revalidated ::
    "'db coordinator \<Rightarrow> journalRecord \<Rightarrow> (Decision \<Rightarrow> Time \<Rightarrow> 'db operation) \<Rightarrow> 'db operation" where
  "revalidated co record continue =
     bindP (revalidate co record) (\<lambda>(decision, now, expired, err).
       ifOk err (\<lambda>e. denyAfterRevalidation co record decision (Some e))
       (if expired then
          bindP (transact (Coordinator_expire (co_eng co) (co_lib co)
              (recordKey (co_lib co) (jr_Command record))))
            (\<lambda>r. orElse r failed (\<lambda>updated.
              finished (zeroResult\<lparr>rs_Command := jr_Command updated, rs_Outcome := OutcomeExpired\<rparr>)))
        else if de_Verdict decision \<noteq> VerdictAllow then denyAfterRevalidation co record decision None
        else continue decision now))"

text \<open>The last part of \<open>execute\<close>: start the execution, call the adapter, record the result.\<close>

definition runAction :: "'db coordinator \<Rightarrow> string \<Rightarrow> Decision \<Rightarrow> Time \<Rightarrow> 'db operation" where
  "runAction co key decision now =
     bindP (transact (startExecution (co_eng co) (co_lib co) key)) (\<lambda>started.
       orElse started failed (\<lambda>executing.
       AdapterExecute key (jr_Target executing) (jr_Action executing) (\<lambda>answer.
         ifOk answer
           (\<lambda>e. bindP (transact (markVerifyAndNotify (co_eng co) (co_lib co) key zeroSnapshot False now))
             (\<lambda>r. orElse r failed (\<lambda>uncertain.
               Ret (zeroResult\<lparr>rs_Command := jr_Command uncertain,
                      rs_Outcome := OutcomeVerifyAndNotify, rs_Decision := decision\<rparr>, Some e))))
           (bindP (transact (finishExecution (co_eng co) (co_lib co) key RecoveryStabilizing))
             (\<lambda>r. orElse r failed (\<lambda>stabilizing.
               finished (zeroResult\<lparr>rs_Command := jr_Command stabilizing,
                      rs_Outcome := OutcomeStabilizing, rs_Decision := decision\<rparr>)))))))"

definition execute :: "'db coordinator \<Rightarrow> journalRecord \<Rightarrow> 'db operation" where
  "execute co record =
     (let key = recordKey (co_lib co) (jr_Command record) in
      revalidated co record (\<lambda>decision _.
      AdapterValidate (jr_Target record) (jr_Action record) (\<lambda>valid.
      ifOk valid (\<lambda>e. denyAfterRevalidation co record decision (Some e))
      (revalidated co record (\<lambda>decision now.
      bindP (publishRecoveryStarted co (jr_Command record)) (\<lambda>published.
      ifOk published
        (\<lambda>e. Ret (zeroResult\<lparr>rs_Command := jr_Command record, rs_Decision := decision\<rparr>, Some e))
      (if jr_Phase record \<noteq> phaseApproved then
         bindP (transact (Coordinator_approve (co_eng co) (co_lib co) key)) (\<lambda>approved.
           orElse approved failed (\<lambda>_. runAction co key decision now))
       else runAction co key decision now)))))))"

definition prepare ::
    "'db coordinator \<Rightarrow> Request \<Rightarrow> Time \<Rightarrow> ('db, error + journalRecord option \<times> bool \<times> Decision) prog" where
  "prepare co request now =
     NewID (\<lambda>drawn.
       orElse drawn (\<lambda>e. Ret (Inl e)) (\<lambda>commandID.
       if \<not> validToken commandID maxCommandIDLength then Ret (Inl (Recovery ErrInvalidOptions))
       else
         let decision = Evaluate (rq_PolicySnapshot request)
               (policyInput (rq_PolicyInput request) commandID now) in
         if de_Verdict decision = VerdictDeny then Ret (Inr (None, False, decision))
         else orElse (pendingRecord request commandID now decision) (\<lambda>e. Ret (Inl e)) (\<lambda>record.
           bindP (transact (persistPending (co_eng co) (co_lib co) record)) (\<lambda>r.
             orElse r (\<lambda>e. Ret (Inl e)) (\<lambda>(persisted, duplicate).
               Ret (Inr (Some persisted, duplicate, decision)))))))"

text \<open>What \<open>Submit\<close> does with a persisted record.\<close>

definition submitRecord ::
    "'db coordinator \<Rightarrow> journalRecord \<Rightarrow> bool \<Rightarrow> Decision \<Rightarrow> 'db operation" where
  "submitRecord co record duplicate decision =
     (if duplicate then
        bindP (if de_Verdict decision = VerdictAwaitApproval
               then publishApprovalRequested co (jr_Command record) else Ret None) (\<lambda>published.
          ifOk published failed
            (finished \<lparr>rs_Command = jr_Command record, rs_Outcome = existingOutcome record,
                   rs_Decision = decision, rs_Duplicate = True\<rparr>))
      else if de_Verdict decision = VerdictAwaitApproval then
        bindP (publishApprovalRequested co (jr_Command record)) (\<lambda>published.
          ifOk published failed
            (finished (zeroResult\<lparr>rs_Command := jr_Command record, rs_Outcome := OutcomeAwaitApproval,
                     rs_Decision := decision\<rparr>)))
      else if de_Verdict decision \<noteq> VerdictAllow then failed (Recovery ErrInvalidRequest)
      else execute co record)"

definition Submit :: "'db coordinator \<Rightarrow> Request \<Rightarrow> 'db operation" where
  "Submit co request =
     ifOk (validateRequest request) failed
     (bindP coordinatorNow (\<lambda>t. orElse t failed (\<lambda>now.
      if \<not> now < rq_ExpiresAt request then finished (zeroResult\<lparr>rs_Outcome := OutcomeExpired\<rparr>)
      else
        bindP (if \<not> pi_AnalysisAvailable (rq_PolicyInput request)
               then publishAnalysisUnavailable co request else Ret None) (\<lambda>published.
        ifOk published failed
        (bindP (prepare co request now) (\<lambda>prepared.
         orElse prepared failed (\<lambda>(persisted, duplicate, decision).
         case persisted of
           None \<Rightarrow>
             bindP (publishPolicyDenied co request decision) (\<lambda>published.
               ifOk published failed
                 (finished (zeroResult\<lparr>rs_Outcome := OutcomeDenied, rs_Decision := decision\<rparr>)))
         | Some record \<Rightarrow> submitRecord co record duplicate decision)))))))"

definition Resume :: "'db coordinator \<Rightarrow> string \<Rightarrow> 'db operation" where
  "Resume co commandID =
     (if \<not> validToken commandID maxCommandIDLength then failed (Recovery ErrInvalidRequest)
      else bindP (readOnly (View (co_eng co) (findRecordByCommandID (co_eng co) (co_lib co) commandID)))
        (\<lambda>r. orElse r failed (\<lambda>found.
          case found of
            None \<Rightarrow> failed (Recovery ErrInvalidRequest)
          | Some stored \<Rightarrow>
              let record = sr_record stored in
              if jr_Phase record = phaseAwaitingApproval \<and> rc_State (jr_Command record) = RecoveryPending
              then
                if rc_ApprovalID (jr_Command record) = []
                then finished (zeroResult\<lparr>rs_Command := jr_Command record,
                       rs_Outcome := OutcomeAwaitApproval\<rparr>)
                else execute co record
              else finished (zeroResult\<lparr>rs_Command := jr_Command record,
                     rs_Outcome := existingOutcome record, rs_Duplicate := True\<rparr>))))"

text \<open>
  One iteration of \<open>Reconcile\<close>. A stored record in the phase verify-and-notify always carries
  its observation; dereferencing a missing one would panic, an outcome \<open>markVerifyAndNotify\<close>
  excludes.
\<close>

definition reconciledResult :: "journalRecord \<Rightarrow> error + ReconciliationResult" where
  "reconciledResult updated =
     (case jr_Reconciliation updated of
        None \<Rightarrow> Inl (External ''nil pointer dereference'')
      | Some r \<Rightarrow>
          Inr \<lparr>rx_Command = jr_Command updated, rx_Outcome = OutcomeVerifyAndNotify,
               rx_Verified = rn_Verified r,
               rx_Snapshot = (if rn_Verified r then rn_Snapshot r else zeroSnapshot)\<rparr>)"

definition reconcileOne :: "'db coordinator \<Rightarrow> storedRecord \<Rightarrow> ('db, error + ReconciliationResult) prog" where
  "reconcileOne co stored =
     bindP coordinatorNow (\<lambda>t. orElse t (\<lambda>e. Ret (Inl e)) (\<lambda>now.
       AdapterVerify (jr_Target (sr_record stored)) (\<lambda>answer.
         let verified = (case answer of Inl _ \<Rightarrow> False
               | Inr snapshot \<Rightarrow> ds_TargetID snapshot = rc_TargetID (jr_Command (sr_record stored)));
             snapshot = (case answer of Inl _ \<Rightarrow> zeroSnapshot
               | Inr snapshot \<Rightarrow> if verified then snapshot else zeroSnapshot)
         in bindP (transact (markVerifyAndNotify (co_eng co) (co_lib co) (sr_key stored) snapshot verified now))
              (\<lambda>r. Ret (bindR r reconciledResult)))))"

fun reconcileAll ::
    "'db coordinator \<Rightarrow> storedRecord list \<Rightarrow> ReconciliationResult list
      \<Rightarrow> ('db, error + ReconciliationResult list) prog" where
  "reconcileAll co [] results = Ret (Inr results)"
| "reconcileAll co (stored # rest) results =
     bindP (reconcileOne co stored) (\<lambda>r. orElse r (\<lambda>e. Ret (Inl e)) (\<lambda>result.
       reconcileAll co rest (results @ [result])))"

definition Reconcile :: "'db coordinator \<Rightarrow> ('db, error + ReconciliationResult list) prog" where
  "Reconcile co =
     bindP (readOnly (reconcilableRecords (co_eng co) (co_lib co))) (\<lambda>r.
       orElse r (\<lambda>e. Ret (Inl e)) (\<lambda>records. reconcileAll co records []))"

definition CompleteStabilization ::
    "'db coordinator \<Rightarrow> string \<Rightarrow> bool \<Rightarrow> ('db, error + RecoveryCommand) prog" where
  "CompleteStabilization co commandID succeeded =
     (if \<not> validToken commandID maxCommandIDLength then Ret (Inl (Recovery ErrInvalidRequest))
      else bindP (readOnly (View (co_eng co) (findRecordByCommandID (co_eng co) (co_lib co) commandID)))
        (\<lambda>r. orElse r (\<lambda>e. Ret (Inl e)) (\<lambda>found.
          case found of
            None \<Rightarrow> Ret (Inl (Recovery ErrInvalidRequest))
          | Some stored \<Rightarrow>
              let next = (if succeeded then RecoverySucceeded else RecoveryFailed);
                  record = sr_record stored in
              if jr_Phase record = phaseCompleted \<and> rc_State (jr_Command record) = next
              then Ret (Inr (jr_Command record))
              else bindP (transact (completeStabilization (co_eng co) (co_lib co) (sr_key stored) next))
                (\<lambda>r. Ret (bindR r (\<lambda>completed. Inr (jr_Command completed)))))))"

text \<open>The operations of a coordinator, with their results erased.\<close>

definition discard :: "('db, 'a) prog \<Rightarrow> ('db, unit) prog" where
  "discard p = bindP p (\<lambda>_. Ret ())"

inductive operation :: "'db coordinator \<Rightarrow> ('db, unit) prog \<Rightarrow> bool" for co where
  op_submit: "operation co (discard (Submit co request))"
| op_resume: "operation co (discard (Resume co commandID))"
| op_reconcile: "operation co (discard (Reconcile co))"
| op_complete: "operation co (discard (CompleteStabilization co commandID succeeded))"

section \<open>Every operation is guarded\<close>

text \<open>A coordinator on a store that behaves as bbolt does, with a proper state source.\<close>

locale coordinated =
  bbolt "co_eng co" inv + state_source "co_eng co" "co_lib co" inv "co_source co"
  for co :: "'db coordinator" and inv :: "'db \<Rightarrow> bool" +
  assumes codec: "phase_codec (co_lib co)"
begin

abbreviation tame :: "('db, 'a) prog \<Rightarrow> bool" where
  "tame p \<equiv> harmless (co_eng co) (co_lib co) inv p"

abbreviation safe :: "('db, 'a) prog \<Rightarrow> bool" where
  "safe p \<equiv> guarded (co_eng co) (co_lib co) inv p \<and> armed p = None"

lemma tame_update:
  assumes "advancing update"
  shows "tame (transact (updateRecord (co_eng co) (co_lib co) key update))"
proof (rule harmless_transact)
  fix db
  assume "inv db"
  with updateRecord_mono(1,2) [OF prod.collapse [symmetric] _ codec assms]
  show "inv (snd (updateRecord (co_eng co) (co_lib co) key update db))
      \<and> journal_mono (co_eng co) (co_lib co) db (snd (updateRecord (co_eng co) (co_lib co) key update db))"
    by blast
qed

lemma tame_journal:
  "tame (transact (Coordinator_deny (co_eng co) (co_lib co) key))"
  "tame (transact (Coordinator_expire (co_eng co) (co_lib co) key))"
  "tame (transact (Coordinator_approve (co_eng co) (co_lib co) key))"
  "tame (transact (markVerifyAndNotify (co_eng co) (co_lib co) key snapshot verified now))"
  using tame_update [OF advancing_updates(1), of key] tame_update [OF advancing_updates(2), of key]
    tame_update [OF advancing_updates(3), of key]
    tame_update [OF advancing_updates(7) [of snapshot verified now], of key]
  by (simp_all add: Coordinator_deny_def [abs_def] Coordinator_expire_def [abs_def]
      Coordinator_approve_def [abs_def] markVerifyAndNotify_def [abs_def])

lemma tame_finish: "tame (transact (finishExecution (co_eng co) (co_lib co) key state))"
  using tame_update [OF advancing_updates(5), of key state]
  by (cases "state \<noteq> RecoveryStabilizing \<and> state \<noteq> RecoveryFailed")
    (simp_all add: finishExecution_def [abs_def] transact_def)

lemma tame_complete: "tame (transact (completeStabilization (co_eng co) (co_lib co) key state))"
  using tame_update [OF advancing_updates(6), of key state]
  by (cases "state \<noteq> RecoverySucceeded \<and> state \<noteq> RecoveryFailed")
    (simp_all add: completeStabilization_def [abs_def] transact_def)

lemma tame_persist: "tame (transact (persistPending (co_eng co) (co_lib co) record))"
proof (rule harmless_transact)
  fix db
  assume "inv db"
  then show "inv (snd (persistPending (co_eng co) (co_lib co) record db)) \<and> journal_mono (co_eng co)
      (co_lib co) db (snd (persistPending (co_eng co) (co_lib co) record db))"
    by (rule persistPending_mono [OF prod.collapse [symmetric] _ codec])
qed

lemma tame_now: "tame coordinatorNow"
  by (simp add: coordinatorNow_def)

lemma tame_publish: "tame (publishEvent co p)"
  by (simp add: publishEvent_def)

lemma tame_bind: "tame p \<Longrightarrow> (\<And>a. tame (f a)) \<Longrightarrow> tame (bindP p f)"
  by (rule harmless_bindP)

lemma tame_orElse: "(\<And>e. tame (h e)) \<Longrightarrow> (\<And>x. tame (f x)) \<Longrightarrow> tame (orElse r h f)"
  by (cases r) simp_all

lemma tame_ifOk: "(\<And>e. tame (h e)) \<Longrightarrow> tame p \<Longrightarrow> tame (ifOk r h p)"
  by (cases r) (simp_all add: ifOk_def)

lemma tame_ends: "tame (failed e)" "tame (finished result)" "tame (Ret x)"
  by (simp_all add: failed_def finished_def)

lemmas tame_intros = tame_bind tame_orElse tame_ifOk tame_ends tame_publish tame_now tame_journal
  tame_finish tame_complete tame_persist load_harmless harmless_readOnly

lemma tame_deny: "tame (denyAfterRevalidation co record decision cause)"
  unfolding denyAfterRevalidation_def by (intro tame_intros)

lemma tame_revalidate: "tame (revalidate co record)"
  unfolding revalidate_def by (intro tame_intros) (simp add: tame_ends)

lemma tame_prepare: "tame (prepare co request now)"
proof -
  have "tame (orElse drawn (\<lambda>e. Ret (Inl e)) (\<lambda>commandID.
       if \<not> validToken commandID maxCommandIDLength then Ret (Inl (Recovery ErrInvalidOptions))
       else
         let decision = Evaluate (rq_PolicySnapshot request)
               (policyInput (rq_PolicyInput request) commandID now) in
         if de_Verdict decision = VerdictDeny then Ret (Inr (None, False, decision))
         else orElse (pendingRecord request commandID now decision) (\<lambda>e. Ret (Inl e)) (\<lambda>record.
           bindP (transact (persistPending (co_eng co) (co_lib co) record)) (\<lambda>r.
             orElse r (\<lambda>e. Ret (Inl e)) (\<lambda>(persisted, duplicate).
               Ret (Inr (Some persisted, duplicate, decision)))))))" for drawn
    by (auto simp: Let_def split: prod.splits intro!: tame_intros)
  then show ?thesis by (simp add: prepare_def)
qed

lemma tame_safe: "tame p \<Longrightarrow> safe p"
  by (simp add: harmless_guarded harmless_armed)

lemma safe_bind: "tame p \<Longrightarrow> (\<And>a. safe (f a)) \<Longrightarrow> safe (bindP p f)"
  by (simp add: guarded_bindP armed_bindP_harmless [of "co_eng co" "co_lib co" inv])

lemma safe_orElse: "(\<And>e. safe (h e)) \<Longrightarrow> (\<And>x. safe (f x)) \<Longrightarrow> safe (orElse r h f)"
  by (cases r) simp_all

lemma safe_ifOk: "(\<And>e. safe (h e)) \<Longrightarrow> safe p \<Longrightarrow> safe (ifOk r h p)"
  by (cases r) (simp_all add: ifOk_def)

lemma safe_runAction: "safe (runAction co key decision now)"
proof -
  let ?after = "\<lambda>answer. ifOk answer
           (\<lambda>e. bindP (transact (markVerifyAndNotify (co_eng co) (co_lib co) key zeroSnapshot False now))
             (\<lambda>r. orElse r failed (\<lambda>uncertain.
               Ret (zeroResult\<lparr>rs_Command := jr_Command uncertain,
                      rs_Outcome := OutcomeVerifyAndNotify, rs_Decision := decision\<rparr>, Some e))))
           (bindP (transact (finishExecution (co_eng co) (co_lib co) key RecoveryStabilizing))
             (\<lambda>r. orElse r failed (\<lambda>stabilizing.
               finished (zeroResult\<lparr>rs_Command := jr_Command stabilizing,
                      rs_Outcome := OutcomeStabilizing, rs_Decision := decision\<rparr>))))"
  have rest: "safe (?after answer)" for answer
    by (intro tame_safe tame_intros)
  have kept: "inv db \<Longrightarrow> inv (snd (startExecution (co_eng co) (co_lib co) key db))
      \<and> journal_mono (co_eng co) (co_lib co) db (snd (startExecution (co_eng co) (co_lib co) key db))"
    for db
    using updateRecord_mono(1,2) [OF prod.collapse [symmetric] _ codec advancing_updates(4)]
    by (simp add: startExecution_def)
  have "guarded (co_eng co) (co_lib co) inv (runAction co key decision now)"
    unfolding runAction_def
  proof (rule guarded_start)
    fix db k
    assume "inv db" and "armed (orElse (fst (startExecution (co_eng co) (co_lib co) key db)) failed
        (\<lambda>executing. AdapterExecute key (jr_Target executing) (jr_Action executing) ?after)) = Some k"
    then show "HasPrefix k journalRecordPrefix \<and> keyLevel (co_eng co) (co_lib co) db k < 3
        \<and> 3 \<le> keyLevel (co_eng co) (co_lib co) (snd (startExecution (co_eng co) (co_lib co) key db)) k"
      using startExecution_level [of "co_lib co" key db _ "snd (startExecution (co_eng co) (co_lib co) key db)",
          OF _ _ codec]
      by (cases "startExecution (co_eng co) (co_lib co) key db"; cases "fst (startExecution (co_eng co) (co_lib co) key db)")
        (auto simp: failed_def)
  next
    fix r :: "error + journalRecord"
    show "guarded (co_eng co) (co_lib co) inv (orElse r failed
        (\<lambda>executing. AdapterExecute key (jr_Target executing) (jr_Action executing) ?after))"
      using rest by (cases r) (auto simp: failed_def intro!: guarded.intros)
  qed (use kept in blast)
  then show ?thesis by (simp add: runAction_def transact_def)
qed

lemma safe_revalidated:
  assumes "\<And>decision now. safe (continue decision now)"
  shows "safe (revalidated co record continue)"
  unfolding revalidated_def
proof (rule safe_bind [OF tame_revalidate])
  fix x :: "Decision \<times> Time \<times> bool \<times> error option"
  show "safe (case x of (decision, now, expired, err) \<Rightarrow>
       ifOk err (\<lambda>e. denyAfterRevalidation co record decision (Some e))
       (if expired then
          bindP (transact (Coordinator_expire (co_eng co) (co_lib co)
              (recordKey (co_lib co) (jr_Command record))))
            (\<lambda>r. orElse r failed (\<lambda>updated.
              finished (zeroResult\<lparr>rs_Command := jr_Command updated, rs_Outcome := OutcomeExpired\<rparr>)))
        else if de_Verdict decision \<noteq> VerdictAllow then denyAfterRevalidation co record decision None
        else continue decision now))"
    unfolding prod.case_eq_if
    by (rule safe_ifOk) (simp_all add: assms tame_safe tame_deny tame_bind tame_orElse tame_ends tame_journal)
qed

lemma safe_validate: "(\<And>r. safe (k r)) \<Longrightarrow> safe (AdapterValidate t a k)"
  by (auto intro!: guarded.intros)

lemma safe_if: "safe p \<Longrightarrow> safe q \<Longrightarrow> safe (if b then p else q)"
  by simp

lemma safe_execute: "safe (execute co record)"
  unfolding execute_def Let_def publishRecoveryStarted_def
  by (intro safe_revalidated safe_validate safe_bind safe_ifOk safe_orElse safe_if safe_runAction
      tame_publish tame_journal tame_safe [OF tame_deny] tame_safe [OF tame_ends(1)]
      tame_safe [OF tame_ends(3)])

lemma safe_submitRecord: "safe (submitRecord co record duplicate decision)"
  unfolding submitRecord_def publishApprovalRequested_def
  by (simp add: safe_execute tame_safe tame_bind tame_publish tame_ifOk tame_ends)

lemma safe_Submit: "safe (Submit co request)"
proof -
  have prepared: "safe (case x of (persisted, duplicate, decision) \<Rightarrow>
         case persisted of
           None \<Rightarrow>
             bindP (publishPolicyDenied co request decision) (\<lambda>published.
               ifOk published failed
                 (finished (zeroResult\<lparr>rs_Outcome := OutcomeDenied, rs_Decision := decision\<rparr>)))
         | Some record \<Rightarrow> submitRecord co record duplicate decision)" for x
    by (cases x; cases "fst x")
      (simp_all add: safe_submitRecord publishPolicyDenied_def tame_safe tame_bind tame_publish
        tame_ifOk tame_ends)
  have analysis: "tame (if \<not> pi_AnalysisAvailable (rq_PolicyInput request)
      then publishAnalysisUnavailable co request else Ret None)"
    by (simp add: publishAnalysisUnavailable_def tame_publish)
  show ?thesis
    unfolding Submit_def
    by (intro safe_ifOk safe_bind safe_orElse safe_if prepared analysis tame_now tame_prepare
        tame_safe [OF tame_ends(1)] tame_safe [OF tame_ends(2)])
qed

lemma safe_Resume: "safe (Resume co commandID)"
proof -
  have found: "safe (case found of
            None \<Rightarrow> failed (Recovery ErrInvalidRequest)
          | Some stored \<Rightarrow>
              let record = sr_record stored in
              if jr_Phase record = phaseAwaitingApproval \<and> rc_State (jr_Command record) = RecoveryPending
              then
                if rc_ApprovalID (jr_Command record) = []
                then finished (zeroResult\<lparr>rs_Command := jr_Command record,
                       rs_Outcome := OutcomeAwaitApproval\<rparr>)
                else execute co record
              else finished (zeroResult\<lparr>rs_Command := jr_Command record,
                     rs_Outcome := existingOutcome record, rs_Duplicate := True\<rparr>))" for found
    by (cases found) (simp_all add: Let_def safe_execute tame_safe tame_ends)
  show ?thesis
    unfolding Resume_def
    by (intro safe_if safe_bind safe_orElse found harmless_readOnly tame_safe [OF tame_ends(1)])
qed

lemma tame_reconcileOne: "tame (reconcileOne co stored)"
  unfolding reconcileOne_def Let_def
  by (rule tame_bind [OF tame_now])
    (simp add: orElse_def tame_bind tame_journal tame_ends split: sum.split)

lemma tame_reconcileAll: "tame (reconcileAll co records results)"
  by (induction records arbitrary: results)
    (simp_all add: tame_bind tame_reconcileOne orElse_def split: sum.split)

lemma tame_Reconcile: "tame (Reconcile co)"
  unfolding Reconcile_def by (intro tame_intros tame_reconcileAll)

lemma tame_CompleteStabilization: "tame (CompleteStabilization co commandID succeeded)"
  unfolding CompleteStabilization_def Let_def
  by (simp add: tame_bind harmless_readOnly orElse_def tame_complete split: sum.split option.split)

lemma safe_discard: "safe p \<Longrightarrow> safe (discard p)"
  by (simp add: discard_def guarded_map armed_map)

lemma safe_operation: "operation co p \<Longrightarrow> safe p"
proof (induction rule: operation.induct)
  case (op_submit request)
  show ?case by (rule safe_discard [OF safe_Submit])
next
  case (op_resume commandID)
  show ?case by (rule safe_discard [OF safe_Resume])
next
  case op_reconcile
  show ?case by (rule safe_discard [OF tame_safe [OF tame_Reconcile]])
next
  case (op_complete commandID succeeded)
  show ?case by (rule safe_discard [OF tame_safe [OF tame_CompleteStabilization]])
qed

end

section \<open>What precedes an execution\<close>

lemma stands_orElse:
  "stands (orElse r h f) tr key t a \<longleftrightarrow>
     (\<exists>e. r = Inl e \<and> stands (h e) tr key t a) \<or> (\<exists>x. r = Inr x \<and> stands (f x) tr key t a)"
  by (cases r) simp_all

lemma stands_ifOk:
  "stands (ifOk r h p) tr key t a \<longleftrightarrow>
     (\<exists>e. r = Some e \<and> stands (h e) tr key t a) \<or> (r = None \<and> stands p tr key t a)"
  by (cases r) (simp_all add: ifOk_def)

lemma after_orElse:
  "after (orElse r h f) tr Q \<longleftrightarrow>
     (\<exists>e. r = Inl e \<and> after (h e) tr Q) \<or> (\<exists>x. r = Inr x \<and> after (f x) tr Q)"
  by (cases r) simp_all

lemma stands_ends [simp]: "\<not> stands (failed e) tr key t a" "\<not> stands (finished x) tr key t a"
  by (simp_all add: failed_def finished_def)

lemma noExecute_orElse: "(\<And>e. noExecute (h e)) \<Longrightarrow> (\<And>x. noExecute (f x)) \<Longrightarrow> noExecute (orElse r h f)"
  by (cases r) simp_all

lemma noExecute_parts [simp]:
  "noExecute (failed e)" "noExecute (finished x)" "noExecute coordinatorNow"
  "noExecute (publishEvent co p)" "noExecute (denyAfterRevalidation co record decision cause)"
  by (simp_all add: failed_def finished_def coordinatorNow_def publishEvent_def
      denyAfterRevalidation_def noExecute_bindP noExecute_orElse)

lemma noExecute_revalidate: "(\<And>c. noExecute (co_source co c)) \<Longrightarrow> noExecute (revalidate co record)"
  by (simp add: revalidate_def noExecute_bindP noExecute_orElse)

lemma after_now [simp]:
  "after coordinatorNow tr Q \<longleftrightarrow>
     (\<exists>now rest. tr = EvClock now # rest
        \<and> Q (if IsZero now then Inl (Recovery ErrInvalidOptions) else Inr now) rest)"
  by (auto simp: coordinatorNow_def)

text \<open>
  A check that lets the execution go on: the state source yielded a state, the clock a time
  before the expiry, and the policy allows the recorded action for that state at that time.
\<close>

definition passedCheck :: "'db coordinator \<Rightarrow> journalRecord \<Rightarrow> event list \<Rightarrow> bool" where
  "passedCheck co record tr \<longleftrightarrow>
     (\<exists>load state now. tr = load @ [EvClock now]
        \<and> yields (co_source co (jr_Command record)) load (Inr state)
        \<and> now \<noteq> 0 \<and> now < rc_ExpiresAt (jr_Command record)
        \<and> de_Verdict (revalidateState state record now) = VerdictAllow)"

lemma revalidated_stands:
  assumes "stands (revalidated co record continue) tr key t a"
    and "\<And>c. noExecute (co_source co c)"
  shows "\<exists>check rest decision now. tr = check @ rest \<and> passedCheck co record check
    \<and> stands (continue decision now) rest key t a"
proof -
  have "after (revalidate co record) tr (\<lambda>(decision, now, expired, err) rest. err = None
      \<and> \<not> expired \<and> de_Verdict decision = VerdictAllow \<and> stands (continue decision now) rest key t a)"
    using assms(1) unfolding revalidated_def
    by (simp add: stands_then noExecute_revalidate [OF assms(2)])
      (erule after_mono, auto simp: stands_ifOk stands_orElse stands_then noExecute_stands split: if_splits)
  then have "after (co_source co (jr_Command record)) tr (\<lambda>loaded rest.
      \<exists>state now later. loaded = Inr state \<and> rest = EvClock now # later \<and> now \<noteq> 0
        \<and> now < rc_ExpiresAt (jr_Command record)
        \<and> de_Verdict (revalidateState state record now) = VerdictAllow
        \<and> (\<exists>decision now. stands (continue decision now) later key t a))"
    unfolding revalidate_def after_bindP
    by (elim after_mono) (auto simp: after_orElse after_bindP split: if_splits)
  then obtain load state now later decision time where run: "tr = load @ EvClock now # later"
    "yields (co_source co (jr_Command record)) load (Inr state)" "now \<noteq> 0"
    "now < rc_ExpiresAt (jr_Command record)"
    "de_Verdict (revalidateState state record now) = VerdictAllow"
    "stands (continue decision time) later key t a"
    unfolding after_def by blast
  from run(2-5) have "passedCheck co record (load @ [EvClock now])"
    unfolding passedCheck_def by blast
  moreover from run(1) have "tr = (load @ [EvClock now]) @ later" by simp
  ultimately show ?thesis using run(6) by blast
qed

text \<open>The events between the second check and the call of \<open>Execute\<close>.\<close>

definition startEvents :: "'db coordinator \<Rightarrow> journalRecord \<Rightarrow> event list" where
  "startEvents co record =
     (if co_publisher co then [EvPublish (PublishRecoveryStarted (jr_Command record)) None] else [])
     @ (if jr_Phase record \<noteq> phaseApproved then [EvTransaction] else []) @ [EvTransaction]"

lemma runAction_stands:
  assumes "stands (runAction co key decision now) tr k t a"
  shows "tr = [EvTransaction] \<and> k = key \<and> (\<exists>db executing.
     fst (startExecution (co_eng co) (co_lib co) key db) = Inr executing
     \<and> t = jr_Target executing \<and> a = jr_Action executing)"
  using assms unfolding runAction_def
  by (auto simp: stands_then stands_orElse stands_ifOk)

lemma execute_stands:
  assumes "stands (execute co record) tr key t a" and "\<And>c. noExecute (co_source co c)"
  shows "\<exists>check1 check2. passedCheck co record check1 \<and> passedCheck co record check2
    \<and> tr = check1 @ [EvValidate (jr_Target record) (jr_Action record) None] @ check2 @ startEvents co record
    \<and> key = recordKey (co_lib co) (jr_Command record)
    \<and> (\<exists>db executing. fst (startExecution (co_eng co) (co_lib co) key db) = Inr executing
        \<and> t = jr_Target executing \<and> a = jr_Action executing)"
proof -
  let ?key = "recordKey (co_lib co) (jr_Command record)"
  let ?start = "\<lambda>decision now. bindP (publishRecoveryStarted co (jr_Command record)) (\<lambda>published.
      ifOk published
        (\<lambda>e. Ret (zeroResult\<lparr>rs_Command := jr_Command record, rs_Decision := decision\<rparr>, Some e))
      (if jr_Phase record \<noteq> phaseApproved then
         bindP (transact (Coordinator_approve (co_eng co) (co_lib co) ?key)) (\<lambda>approved.
           orElse approved failed (\<lambda>_. runAction co ?key decision now))
       else runAction co ?key decision now))"
  obtain check1 rest1 decision where first: "tr = check1 @ rest1" "passedCheck co record check1"
    "stands (AdapterValidate (jr_Target record) (jr_Action record) (\<lambda>valid.
      ifOk valid (\<lambda>e. denyAfterRevalidation co record decision (Some e))
      (revalidated co record ?start))) rest1 key t a"
    using revalidated_stands [OF assms(1) [unfolded execute_def Let_def] assms(2)] by blast
  then obtain rest2 where second: "rest1 = EvValidate (jr_Target record) (jr_Action record) None # rest2"
    "stands (revalidated co record ?start) rest2 key t a"
    by (auto simp: stands_ifOk noExecute_stands)
  obtain check2 rest3 decision now where third: "rest2 = check2 @ rest3" "passedCheck co record check2"
    "stands (?start decision now) rest3 key t a"
    using revalidated_stands [OF second(2) assms(2)] by blast
  from third(3) have "rest3 = startEvents co record \<and> key = ?key \<and> (\<exists>db executing.
     fst (startExecution (co_eng co) (co_lib co) ?key db) = Inr executing
     \<and> t = jr_Target executing \<and> a = jr_Action executing)"
    by (auto simp: stands_then publishRecoveryStarted_def publishEvent_def startEvents_def
        stands_ifOk stands_orElse split: if_splits dest!: runAction_stands)
  with first(1,2) second(1) third(1,2) show ?thesis by auto
qed

text \<open>Both ways into \<open>execute\<close>.\<close>

lemma noExecute_prepare: "noExecute (prepare co request now)"
  by (auto simp: prepare_def orElse_def Let_def noExecute_bindP split: sum.split prod.split)

lemma noExecute_ifOk: "(\<And>e. noExecute (h e)) \<Longrightarrow> noExecute p \<Longrightarrow> noExecute (ifOk r h p)"
  by (cases r) (simp_all add: ifOk_def)

lemma submitRecord_stands:
  assumes "stands (submitRecord co record duplicate decision) tr key t a"
  shows "\<not> duplicate \<and> de_Verdict decision = VerdictAllow \<and> stands (execute co record) tr key t a"
proof -
  have "noExecute (submitRecord co record duplicate decision)"
    if "duplicate \<or> de_Verdict decision \<noteq> VerdictAllow"
    using that
    by (auto simp: submitRecord_def publishApprovalRequested_def intro!: noExecute_bindP noExecute_ifOk)
  with assms have cond: "\<not> duplicate" "de_Verdict decision = VerdictAllow"
    by (auto dest: noExecute_stands)
  with assms show ?thesis by (simp add: submitRecord_def)
qed

definition entered :: "'db coordinator \<Rightarrow> string \<Rightarrow> ServiceTarget \<Rightarrow> TypedAction \<Rightarrow> event list \<Rightarrow> bool" where
  "entered co key t a tr \<longleftrightarrow>
     (\<exists>earlier record rest. tr = earlier @ rest \<and> stands (execute co record) rest key t a)"

lemma entered_then:
  assumes "stands (bindP p f) tr key t a" and "noExecute p"
    and "\<And>x rest. stands (f x) rest key t a \<Longrightarrow> entered co key t a rest"
  shows "entered co key t a tr"
proof -
  obtain x tr1 tr2 where split: "tr = tr1 @ tr2" "stands (f x) tr2 key t a"
    using assms(1,2) by (auto simp: stands_then after_def)
  obtain earlier old rest where "tr2 = earlier @ rest" "stands (execute co old) rest key t a"
    using assms(3) [OF split(2)] unfolding entered_def by blast
  with split(1) have "tr = (tr1 @ earlier) @ rest" "stands (execute co old) rest key t a" by simp_all
  then show ?thesis unfolding entered_def by blast
qed

lemma Submit_prepared_stands:
  assumes "stands (case persisted of
           None \<Rightarrow>
             bindP (publishPolicyDenied co request decision) (\<lambda>published.
               ifOk published failed
                 (finished (zeroResult\<lparr>rs_Outcome := OutcomeDenied, rs_Decision := decision\<rparr>)))
         | Some record \<Rightarrow> submitRecord co record duplicate decision) tr key t a"
  shows "entered co key t a tr"
proof (cases persisted)
  case None
  have "noExecute (bindP (publishPolicyDenied co request decision) (\<lambda>published.
               ifOk published failed
                 (finished (zeroResult\<lparr>rs_Outcome := OutcomeDenied, rs_Decision := decision\<rparr>))))"
    by (auto simp: publishPolicyDenied_def intro!: noExecute_bindP noExecute_ifOk)
  with assms None show ?thesis by (simp add: noExecute_stands)
next
  case (Some stored)
  with assms have "stands (execute co stored) tr key t a" by (simp add: submitRecord_stands)
  then show ?thesis unfolding entered_def by (metis append_Nil)
qed

lemma Submit_stands:
  assumes "stands (Submit co request) tr key t a"
  shows "entered co key t a tr"
proof -
  have analysis: "noExecute (publishAnalysisUnavailable co request)"
    by (simp add: publishAnalysisUnavailable_def)
  have step: "entered co key t a rest"
    if "stands (orElse prepared failed (\<lambda>(persisted, duplicate, decision).
         case persisted of
           None \<Rightarrow>
             bindP (publishPolicyDenied co request decision) (\<lambda>published.
               ifOk published failed
                 (finished (zeroResult\<lparr>rs_Outcome := OutcomeDenied, rs_Decision := decision\<rparr>)))
         | Some record \<Rightarrow> submitRecord co record duplicate decision)) rest key t a" for prepared rest
    using that by (auto simp: stands_orElse split: prod.splits dest: Submit_prepared_stands)
  show ?thesis
    using assms unfolding Submit_def
    by (auto simp: stands_ifOk stands_orElse noExecute_prepare analysis step
        elim!: entered_then split: if_splits)
qed

lemma Resume_stands:
  assumes "stands (Resume co commandID) tr key t a"
  shows "\<exists>stored rest. tr = EvTransaction # rest \<and> stands (execute co (sr_record stored)) rest key t a
    \<and> rc_ApprovalID (jr_Command (sr_record stored)) \<noteq> []
    \<and> jr_Phase (sr_record stored) = phaseAwaitingApproval
    \<and> (\<exists>db. View (co_eng co) (findRecordByCommandID (co_eng co) (co_lib co) commandID) db = Inr (Some stored))"
  using assms
  by (auto simp: Resume_def stands_then stands_orElse Let_def split: if_splits option.splits)

lemma Resume_entered:
  assumes "stands (Resume co commandID) tr key t a"
  shows "entered co key t a tr"
proof -
  obtain stored :: storedRecord and rest
    where run: "tr = [EvTransaction] @ rest" "stands (execute co (sr_record stored)) rest key t a"
    using Resume_stands [OF assms] by auto
  then show ?thesis unfolding entered_def by blast
qed

section \<open>Reconciliation leaves no interrupted command\<close>

definition interrupted :: "'db engine \<Rightarrow> journal_lib \<Rightarrow> 'db \<Rightarrow> string set" where
  "interrupted eng lib db =
     {key. HasPrefix key journalRecordPrefix
        \<and> (\<exists>record. loadRecord eng lib key db = Inr (Some record) \<and> isReconcilablePhase (jr_Phase record))}"

lemma reconcilable_fold:
  assumes "foldR (reconcilableStep lib) acc entries = Inr records"
  shows "set acc \<subseteq> set records
    \<and> (\<forall>(key, document) \<in> set entries. \<forall>record. HasPrefix key journalRecordPrefix \<longrightarrow>
         decodeAt lib key document = Inr record \<longrightarrow> isReconcilablePhase (jr_Phase record) \<longrightarrow>
         \<lparr>sr_key = key, sr_record = record\<rparr> \<in> set records)"
  using assms
proof (induction entries arbitrary: acc)
  case (Cons entry entries)
  obtain key document where entry: "entry = (key, document)" by (cases entry)
  with Cons.prems obtain acc' where acc': "reconcilableStep lib acc key document = Inr acc'"
    "foldR (reconcilableStep lib) acc' entries = Inr records"
    by (auto simp: result_simps)
  have grown: "set acc \<subseteq> set acc'" and added: "\<And>record. HasPrefix key journalRecordPrefix \<Longrightarrow>
      decodeAt lib key document = Inr record \<Longrightarrow> isReconcilablePhase (jr_Phase record) \<Longrightarrow>
      \<lparr>sr_key = key, sr_record = record\<rparr> \<in> set acc'"
    using acc'(1) by (auto simp: reconcilableStep_def result_simps split: if_splits)
  from Cons.IH [OF acc'(2)] grown added entry show ?case by auto
qed simp

context bbolt
begin

lemma reconcilableRecords_complete:
  assumes "reconcilableRecords eng lib db = Inr records" and "inv db"
  shows "interrupted eng lib db \<subseteq> sr_key ` set records"
proof
  fix key
  assume "key \<in> interrupted eng lib db"
  then obtain stored document where found: "HasPrefix key journalRecordPrefix"
    "holds eng db BucketCommandJournal key = Some document" "decodeAt lib key document = Inr stored"
    "isReconcilablePhase (jr_Phase stored)"
    by (auto simp: interrupted_def loadRecord_Some)
  have "foldR (reconcilableStep lib) [] (eng_each eng db (bucketName BucketCommandJournal)) = Inr records"
    using View_Inr [OF assms(1) [unfolded reconcilableRecords_def]]
    by (auto simp: tx_ForEach_def result_simps simp del: bucketName.simps)
  moreover have "(key, document) \<in> set (eng_each eng db (bucketName BucketCommandJournal))"
    using found(2) each_holds [OF assms(2), of key document BucketCommandJournal] by blast
  ultimately have "\<lparr>sr_key = key, sr_record = stored\<rparr> \<in> set records"
    using found(1,3,4) by (blast dest: reconcilable_fold)
  then show "key \<in> sr_key ` set records" by force
qed

lemma markVerifyAndNotify_clears:
  assumes "markVerifyAndNotify eng lib key snapshot verified now db = (Inr updated, db')"
    and "inv db" and "phase_codec lib"
  shows "inv db'" and "interrupted eng lib db' \<subseteq> interrupted eng lib db - {key}"
proof -
  obtain old where rec: "loadRecord eng lib key db = Inr (Some old)"
    "verifyRecord snapshot verified now old = Inr updated" "putRecord eng lib key updated db = Inr db'"
    by (rule updateRecord_Inr [OF assms(1) [unfolded markVerifyAndNotify_def]])
  show "inv db'" by (rule putRecord_ok(1) [OF rec(3) assms(2)])
  have "jr_Phase updated = phaseVerifyAndNotify"
    using rec(2) by (auto simp: verifyRecord_def Let_def split: if_splits)
  then have level: "5 \<le> keyLevel eng lib db' key"
    using putRecord_level(1) [OF rec(3) assms(2,3)] by simp
  have "key \<notin> interrupted eng lib db'"
  proof
    assume "key \<in> interrupted eng lib db'"
    then obtain new where "loadRecord eng lib key db' = Inr (Some new)" "isReconcilablePhase (jr_Phase new)"
      unfolding interrupted_def by blast
    with level show False by (auto simp: isReconcilablePhase_def dest!: loadRecord_level(1))
  qed
  moreover have "k \<in> interrupted eng lib db" if "k \<in> interrupted eng lib db'" "k \<noteq> key" for k
    using that putRecord_ok(4,6) [OF rec(3) assms(2)]
    by (auto simp: interrupted_def loadRecord_Some)
  ultimately show "interrupted eng lib db' \<subseteq> interrupted eng lib db - {key}" by blast
qed

end

text \<open>What a result of \<open>Reconcile\<close> says.\<close>

definition failClosed :: "ReconciliationResult \<Rightarrow> bool" where
  "failClosed r \<longleftrightarrow>
     rx_Outcome r = OutcomeVerifyAndNotify
     \<and> (if rx_Verified r then ds_TargetID (rx_Snapshot r) = rc_TargetID (rx_Command r)
        else rx_Snapshot r = zeroSnapshot)"

lemma reconciledResult_failClosed:
  assumes "markVerifyAndNotify eng lib key snapshot verified now db = (Inr updated, db')"
  shows "\<exists>result. reconciledResult updated = Inr result \<and> failClosed result"
proof -
  have "validateRecord updated = None"
    by (rule updateRecord_Inr [OF assms [unfolded markVerifyAndNotify_def]])
      (auto simp: putRecord_def split: if_splits)
  moreover have "jr_Phase updated = phaseVerifyAndNotify"
    by (rule updateRecord_Inr [OF assms [unfolded markVerifyAndNotify_def]])
      (auto simp: verifyRecord_def Let_def split: if_splits)
  ultimately show ?thesis
    by (auto simp: reconciledResult_def failClosed_def validateRecord_None)
qed

context coordinated
begin

lemma reconcileOne_final:
  assumes "final (reconcileOne co stored) db db' (Inr result)" and "inv db"
  shows "inv db'" and "failClosed result"
    and "interrupted (co_eng co) (co_lib co) db'
      \<subseteq> interrupted (co_eng co) (co_lib co) db - {sr_key stored}"
proof -
  obtain snapshot verified now r where run: "markVerifyAndNotify (co_eng co) (co_lib co)
      (sr_key stored) snapshot verified now db = (r, db')" "Inr result = bindR r reconciledResult"
    using assms(1)
    by (auto simp: reconcileOne_def coordinatorNow_def final_bindP Let_def split: if_splits)
  then obtain updated where mark: "markVerifyAndNotify (co_eng co) (co_lib co)
      (sr_key stored) snapshot verified now db = (Inr updated, db')" "reconciledResult updated = Inr result"
    by (cases r) simp_all
  show "inv db'" "interrupted (co_eng co) (co_lib co) db'
      \<subseteq> interrupted (co_eng co) (co_lib co) db - {sr_key stored}"
    using markVerifyAndNotify_clears [OF mark(1) assms(2) codec] by blast+
  show "failClosed result"
    using reconciledResult_failClosed [OF mark(1)] mark(2) by auto
qed

lemma reconcileAll_final:
  assumes "final (reconcileAll co records results) db db' (Inr out)" and "inv db"
    and "interrupted (co_eng co) (co_lib co) db \<subseteq> sr_key ` set records"
    and "\<forall>r \<in> set results. failClosed r"
  shows "inv db' \<and> interrupted (co_eng co) (co_lib co) db' = {}
    \<and> length out = length results + length records \<and> (\<forall>r \<in> set out. failClosed r)"
  using assms
proof (induction records arbitrary: db results)
  case (Cons stored records)
  from Cons.prems(1) obtain mid r where one: "final (reconcileOne co stored) db mid r"
    and rest: "final (orElse r (\<lambda>e. Ret (Inl e)) (\<lambda>result. reconcileAll co records (results @ [result])))
      mid db' (Inr out)"
    by (auto simp: final_bindP)
  from rest obtain result where r: "r = Inr result" by (cases r) simp_all
  note step = reconcileOne_final [OF one [unfolded r] Cons.prems(2)]
  have "final (reconcileAll co records (results @ [result])) mid db' (Inr out)" using rest r by simp
  from Cons.IH [OF this step(1)] step(2,3) Cons.prems(3,4) show ?case by auto
qed simp

lemma Reconcile_final:
  assumes "final (Reconcile co) db db' (Inr results)" and "inv db"
  shows "interrupted (co_eng co) (co_lib co) db' = {} \<and> (\<forall>r \<in> set results. failClosed r)"
proof -
  from assms(1) obtain records where records: "reconcilableRecords (co_eng co) (co_lib co) db = Inr records"
    "final (reconcileAll co records []) db db' (Inr results)"
    by (cases "reconcilableRecords (co_eng co) (co_lib co) db") (auto simp: Reconcile_def final_bindP)
  from reconcileAll_final [OF records(2) assms(2) reconcilableRecords_complete [OF records(1) assms(2)]]
  show ?thesis by simp
qed

end

section \<open>A concrete coordinator\<close>

text \<open>The records of one command, from pending to stabilizing and to verify-and-notify.\<close>

definition demoAt :: "RecoveryCommandState \<Rightarrow> journalPhase \<Rightarrow> journalRecord" where
  "demoAt state phase =
     demoRecord\<lparr>jr_Command := demoCommand\<lparr>rc_State := state\<rparr>, jr_Phase := phase\<rparr>"

definition demoVerified :: journalRecord where
  "demoVerified =
     (demoAt RecoveryExecuting phaseVerifyAndNotify)\<lparr>jr_Reconciliation :=
        Some \<lparr>rn_ObservedAt = 5, rn_Verified = False, rn_Snapshot = zeroSnapshot\<rparr>\<rparr>"

definition demoTable :: "(journalRecord \<times> string) list" where
  "demoTable =
     [(demoRecord, ''pending''), (demoAt RecoveryApproved phaseApproved, ''approved''),
      (demoAt RecoveryExecuting phaseExecuting, ''executing''),
      (demoAt RecoveryStabilizing phaseStabilizing, ''stabilizing''), (demoVerified, ''verify'')]"

definition demoLib :: journal_lib where
  "demoLib = \<lparr>jo_json = tableLib, jo_record = tableType demoTable, jo_sha = \<lambda>s. s\<rparr>"

definition demoCoordinator :: "mem_db coordinator" where
  "demoCoordinator =
     \<lparr>co_eng = mem_engine, co_lib = demoLib, co_publisher = True, co_source = externalSource\<rparr>"

definition demoRunbook :: Runbook where
  "demoRunbook =
     \<lparr>rb_SchemaVersion = ''v1'', rb_RunbookID = ''r'', rb_Version = ''1'', rb_Digest = ''d'',
      rb_AdapterType = ''docker'', rb_TargetConstraints = [], rb_TypedActions = [demoAction],
      rb_RiskTier = RiskLow, rb_AutoExecute = True, rb_ApprovalPolicy = \<lparr>ap_Required = False\<rparr>,
      rb_Preconditions = [], rb_RetryPolicy = \<lparr>rp_MaxAttempts = 1\<rparr>,
      rb_StabilizationPolicy = \<lparr>sp_RecoverySamples = 1, sp_Window = 1\<rparr>\<rparr>"

definition demoSnapshot :: Snapshot where
  "demoSnapshot =
     \<lparr>sn_Runbooks = [\<lparr>rr_Runbook = demoRunbook, rr_TargetID = ''web'', rr_AnalysisRequired = False\<rparr>],
      sn_AuthorizedApprovers = [''uid:0'']\<rparr>"

definition demoInput :: PolicyInput where
  "demoInput =
     \<lparr>pi_RunbookID = ''r'', pi_RunbookDigest = ''d'', pi_TargetID = ''web'', pi_ActionIndex = 0,
      pi_CommandID = [], pi_AnalysisAvailable = True, pi_AnalysisCandidateIDs = [],
      pi_AnalysisConfidence = [], pi_NotificationSuggestion = NotificationNone,
      pi_Preconditions = (\<lambda>_. None), pi_LastAttemptAt = 0, pi_Now = 0, pi_AttemptCount = 0,
      pi_Approval = None, pi_ApprovalRevoked = False\<rparr>"

definition demoRequest :: Request where
  "demoRequest =
     \<lparr>rq_IncidentID = ''i'', rq_Target = demoTarget, rq_PolicySnapshot = demoSnapshot,
      rq_PolicyInput = demoInput, rq_ExpiresAt = 100, rq_IdempotencyKey = ''k''\<rparr>"

definition demoState :: ExecutionState where
  "demoState = \<lparr>ex_Target = demoTarget, ex_PolicySnapshot = demoSnapshot, ex_PolicyInput = demoInput\<rparr>"

definition demoStart :: "event list" where
  "demoStart =
     [EvClock 1, EvNewID (Inr ''c''), EvTransaction, EvLoad demoCommand (Inr demoState), EvClock 2,
      EvValidate demoTarget demoAction None, EvLoad demoCommand (Inr demoState), EvClock 3,
      EvPublish (PublishRecoveryStarted demoCommand) None, EvTransaction, EvTransaction]"

definition demoJournal :: mem_db where
  "demoJournal = [(''command_journal'', [])]"

definition demoStored :: "string \<Rightarrow> mem_db" where
  "demoStored document =
     [(''command_journal'', [(recordKey demoLib demoCommand, document),
        (idempotencyIndexKey demoLib ''k'', recordKey demoLib demoCommand)])]"

lemma demoLib_codec: "phase_codec demoLib"
proof -
  have "distinct (map snd demoTable)" by code_simp
  moreover have "\<And>v. v \<in> set (map fst demoTable) \<Longrightarrow> jr_SchemaVersion v = ''v1''"
    by (auto simp: demoTable_def demoRecord_def demoAt_def demoVerified_def)
  ultimately have "json_codec tableLib (tableType demoTable) jr_SchemaVersion (\<lambda>_. True)"
    by (rule tableType_codec)
  then show ?thesis unfolding phase_codec_def json_codec_def demoLib_def by fastforce
qed

interpretation memory: coordinated demoCoordinator mem_inv
proof -
  show "coordinated demoCoordinator mem_inv"
    unfolding coordinated_def coordinated_axioms_def
    using mem.bbolt_axioms external.state_source_axioms demoLib_codec
    by (simp add: demoCoordinator_def)
qed

lemma demo_submit:
  "\<exists>k. thread_run (Submit demoCoordinator demoRequest) demoStart
     (AdapterExecute (recordKey demoLib demoCommand) demoTarget demoAction k)"
proof (rule replay_stands)
  show "replay (Submit demoCoordinator demoRequest) demoStart demoJournal
      = Some (demoStored ''executing'', AtExecute (recordKey demoLib demoCommand) demoTarget demoAction)"
    by code_simp
qed

lemma demo_reconcile:
  "final (Reconcile demoCoordinator) (demoStored ''executing'') (demoStored ''verify'')
     (Inr [\<lparr>rx_Command = jr_Command demoVerified, rx_Outcome = OutcomeVerifyAndNotify, rx_Verified = False,
            rx_Snapshot = zeroSnapshot\<rparr>])"
proof (rule replay_final)
  show "replay (Reconcile demoCoordinator)
      [EvTransaction, EvClock 5, EvVerify demoTarget (Inl DeadlineExceeded), EvTransaction]
      (demoStored ''executing'')
    = Some (demoStored ''verify'', Returned
        (Inr [\<lparr>rx_Command = jr_Command demoVerified, rx_Outcome = OutcomeVerifyAndNotify,
          rx_Verified = False, rx_Snapshot = zeroSnapshot\<rparr>]))"
    by code_simp
qed

section \<open>Properties\<close>

text \<open>
  C2: every execution is authorized. Whenever \<open>Submit\<close> or \<open>Resume\<close> is about to call
  \<open>Adapter.Execute\<close>, whatever happened to the store in between, its own calls so far end with
  exactly this: the state source and the clock gave a state and a time before the expiry for
  which the policy allows the recorded action; \<open>ValidateAction\<close> accepted the recorded target
  and action; the state was loaded and the policy evaluated once more, with the same result;
  \<open>RecoveryStarted\<close> was published, when a publisher is wired; and the transaction that starts
  the execution returned a valid record under the same journal key, whose enabled Docker target
  and restart action, with the target's own selector, are the arguments of the call. A state
  source is only asked not to execute actions itself.
\<close>

theorem execution_authorized:
  assumes "thread_run p tr (AdapterExecute key t a k)"
    and "p = Submit co request \<or> p = Resume co commandID"
    and "\<And>c. noExecute (co_source co c)"
  shows "\<exists>earlier record check1 check2 executing.
    tr = earlier @ check1 @ [EvValidate (jr_Target record) (jr_Action record) None]
      @ check2 @ startEvents co record
    \<and> passedCheck co record check1 \<and> passedCheck co record check2
    \<and> key = recordKey (co_lib co) (jr_Command record)
    \<and> recordKey (co_lib co) (jr_Command executing) = key
    \<and> validateRecord executing = None \<and> jr_Phase executing = phaseExecuting
    \<and> t = jr_Target executing \<and> a = jr_Action executing
    \<and> st_Enabled t \<and> ta_TargetSelector a = st_Selector t"
proof -
  have "stands p tr key t a" by (rule thread_run_stands [OF assms(1)])
  with assms(2) have "entered co key t a tr" by (auto dest: Submit_stands Resume_entered)
  then obtain earlier old rest where run: "tr = earlier @ rest" "stands (execute co old) rest key t a"
    unfolding entered_def by blast
  from execute_stands [OF run(2) assms(3)] obtain check1 check2 db executing where parts:
    "passedCheck co old check1" "passedCheck co old check2"
    "rest = check1 @ [EvValidate (jr_Target old) (jr_Action old) None] @ check2 @ startEvents co old"
    "key = recordKey (co_lib co) (jr_Command old)"
    "fst (startExecution (co_eng co) (co_lib co) key db) = Inr executing"
    "t = jr_Target executing" "a = jr_Action executing"
    by blast
  have "recordKey (co_lib co) (jr_Command executing) = key \<and> validateRecord executing = None
      \<and> jr_Phase executing = phaseExecuting"
    by (rule startExecution_record [OF parts(5)])
  moreover from this have "st_Enabled (jr_Target executing)
      \<and> ta_TargetSelector (jr_Action executing) = st_Selector (jr_Target executing)"
    by (auto simp: validateRecord_None validRecordTarget_def validAction_def)
  ultimately show ?thesis using run(1) parts(1-4,6,7) by blast
qed

theorem execution_authorized_witness:
  "\<exists>earlier record check1 check2.
     demoStart = earlier @ check1 @ [EvValidate (jr_Target record) (jr_Action record) None]
       @ check2 @ startEvents demoCoordinator record
     \<and> passedCheck demoCoordinator record check1 \<and> passedCheck demoCoordinator record check2
     \<and> st_Enabled demoTarget \<and> ta_TargetSelector demoAction = st_Selector demoTarget"
proof -
  obtain k where run: "thread_run (Submit demoCoordinator demoRequest) demoStart
      (AdapterExecute (recordKey demoLib demoCommand) demoTarget demoAction k)"
    using demo_submit by blast
  show ?thesis
    using execution_authorized [OF run disjI1 [OF refl]] by (force simp: demoCoordinator_def externalSource_def)
qed

text \<open>
  C5: recovery from a restart fails closed. When \<open>Reconcile\<close> runs alone and returns without an
  error, no command is left in an interrupted phase (pending, approved or executing): every
  one of them is now held in verify-and-notify. Each result says so, and carries a Docker
  snapshot only if it was read and is of the command's own target.
\<close>

theorem reconcile_fail_closed:
  assumes "bbolt (co_eng co) dbinv" and "dbinv db" and "phase_codec (co_lib co)"
    and "state_source (co_eng co) (co_lib co) dbinv (co_source co)"
    and "final (Reconcile co) db db' (Inr results)"
  shows "(\<forall>key record. HasPrefix key journalRecordPrefix
        \<and> loadRecord (co_eng co) (co_lib co) key db' = Inr (Some record)
        \<longrightarrow> \<not> isReconcilablePhase (jr_Phase record))
    \<and> (\<forall>r \<in> set results. rx_Outcome r = OutcomeVerifyAndNotify
        \<and> (if rx_Verified r then ds_TargetID (rx_Snapshot r) = rc_TargetID (rx_Command r)
           else rx_Snapshot r = zeroSnapshot))"
proof -
  have "coordinated co dbinv"
    using assms(1,3,4) by (simp add: coordinated_def coordinated_axioms_def)
  from coordinated.Reconcile_final [OF this assms(5,2)] show ?thesis
    by (auto simp: interrupted_def failClosed_def)
qed

theorem reconcile_fail_closed_witness:
  "loadRecord mem_engine demoLib (recordKey demoLib demoCommand) (demoStored ''verify'')
     = Inr (Some demoVerified) \<and> \<not> isReconcilablePhase (jr_Phase demoVerified)"
proof -
  have load: "loadRecord mem_engine demoLib (recordKey demoLib demoCommand) (demoStored ''verify'')
      = Inr (Some demoVerified)" by code_simp
  have inv: "mem_inv (demoStored ''executing'')"
    by (simp add: mem_inv_def keys_sorted_def demoStored_def) code_simp
  have "bbolt (co_eng demoCoordinator) mem_inv" "phase_codec (co_lib demoCoordinator)"
    "state_source (co_eng demoCoordinator) (co_lib demoCoordinator) mem_inv (co_source demoCoordinator)"
    using mem.bbolt_axioms demoLib_codec external.state_source_axioms [of mem_engine demoLib mem_inv]
    by (simp_all add: demoCoordinator_def)
  from reconcile_fail_closed [OF this(1) inv this(2,3) demo_reconcile]
  have "\<not> isReconcilablePhase (jr_Phase demoVerified)"
    using load HasPrefix_recordKey [of demoLib demoCommand] demoCoordinator_def
    by (metis coordinator.select_convs(1,2))
  with load show ?thesis by blast
qed

end
