(* ===== verification/Redaction.thy ===== *)
theory Redaction
  imports Prelude
begin

text \<open>
  Secret and PII detection (\<open>src/internal/redaction/redaction.go\<close>). The seven patterns are
  written as regular expressions over Unicode code points with the meaning Go's \<open>regexp\<close> gives
  them: leftmost-first matching, ASCII word boundaries, and case folding under \<open>(?i)\<close>, which
  lets U+017F match \<open>s\<close> and U+212A match \<open>k\<close>. The matcher lists the ends of all matches at a
  position in order of preference, so the first one is the match Go reports.
\<close>

section \<open>UTF-8\<close>

definition cont :: "int \<Rightarrow> bool" where
  "cont b \<longleftrightarrow> 0x80 \<le> b \<and> b \<le> 0xBF"

text \<open>The code points of a byte sequence, \<open>None\<close> where \<open>utf8.ValidString\<close> is false.\<close>

fun decodeRunes :: "int list \<Rightarrow> int list option" where
  "decodeRunes [] = Some []"
| "decodeRunes (a # rest) =
     (if a < 0x80 then map_option ((#) a) (decodeRunes rest)
      else if 0xC2 \<le> a \<and> a \<le> 0xDF then
        (case rest of
           b # rest' \<Rightarrow>
             if cont b
             then map_option ((#) ((a - 0xC0) * 64 + (b - 0x80))) (decodeRunes rest')
             else None
         | _ \<Rightarrow> None)
      else if 0xE0 \<le> a \<and> a \<le> 0xEF then
        (case rest of
           b # c # rest' \<Rightarrow>
             if cont b \<and> cont c \<and> (a = 0xE0 \<longrightarrow> 0xA0 \<le> b) \<and> (a = 0xED \<longrightarrow> b \<le> 0x9F)
             then map_option ((#) ((a - 0xE0) * 4096 + (b - 0x80) * 64 + (c - 0x80)))
                    (decodeRunes rest')
             else None
         | _ \<Rightarrow> None)
      else if 0xF0 \<le> a \<and> a \<le> 0xF4 then
        (case rest of
           b # c # d # rest' \<Rightarrow>
             if cont b \<and> cont c \<and> cont d \<and> (a = 0xF0 \<longrightarrow> 0x90 \<le> b) \<and> (a = 0xF4 \<longrightarrow> b \<le> 0x8F)
             then map_option
                    ((#) ((a - 0xF0) * 262144 + (b - 0x80) * 4096 + (c - 0x80) * 64 + (d - 0x80)))
                    (decodeRunes rest')
             else None
         | _ \<Rightarrow> None)
      else None)"

definition runes :: "string \<Rightarrow> int list option" where
  "runes s = decodeRunes (map of_char s)"

definition encodeRune :: "int \<Rightarrow> int list" where
  "encodeRune r =
     (if r < 0x80 then [r]
      else if r < 0x800 then [0xC0 + r div 64, 0x80 + r mod 64]
      else if r < 0x10000 then [0xE0 + r div 4096, 0x80 + r div 64 mod 64, 0x80 + r mod 64]
      else [0xF0 + r div 262144, 0x80 + r div 4096 mod 64, 0x80 + r div 64 mod 64, 0x80 + r mod 64])"

definition encodeRunes :: "int list \<Rightarrow> string" where
  "encodeRunes rs = map char_of (concat (map encodeRune rs))"

section \<open>Regular expressions\<close>

datatype re =
    RSet "int \<Rightarrow> bool"
  | REps
  | RSeq re re
  | RAlt re re
  | ROpt re
  | RStar re
  | RStarLazy re
  | RGroup nat re
  | RWordBoundary
  | REndText

text \<open>
  A position: the code points before it, nearest first, and those after it. A match in
  progress carries the groups captured so far, latest first.
\<close>

type_synonym position = "int list \<times> int list"
type_synonym match_state = "position \<times> (nat \<times> int list) list"

abbreviation remaining :: "match_state \<Rightarrow> nat" where
  "remaining st \<equiv> length (snd (fst st))"

definition wordRune :: "int \<Rightarrow> bool" where
  "wordRune r \<longleftrightarrow>
     (48 \<le> r \<and> r \<le> 57) \<or> (65 \<le> r \<and> r \<le> 90) \<or> (97 \<le> r \<and> r \<le> 122) \<or> r = 95"

fun wordAt :: "int list \<Rightarrow> bool" where
  "wordAt [] = False"
| "wordAt (r # _) = wordRune r"

text \<open>
  Repetition, greedy or lazy. The first argument bounds the number of rounds; a round that
  consumes nothing ends the repetition, so the length of the remaining text is enough.
\<close>

fun iterGreedy :: "nat \<Rightarrow> (match_state \<Rightarrow> match_state list) \<Rightarrow> match_state \<Rightarrow> match_state list" where
  "iterGreedy 0 f st = [st]"
| "iterGreedy (Suc n) f st =
     concat (map (\<lambda>st'. if remaining st' < remaining st then iterGreedy n f st' else []) (f st))
     @ [st]"

fun iterLazy :: "nat \<Rightarrow> (match_state \<Rightarrow> match_state list) \<Rightarrow> match_state \<Rightarrow> match_state list" where
  "iterLazy 0 f st = [st]"
| "iterLazy (Suc n) f st =
     st # concat (map (\<lambda>st'. if remaining st' < remaining st then iterLazy n f st' else []) (f st))"

primrec matchesAt :: "re \<Rightarrow> match_state \<Rightarrow> match_state list" where
  "matchesAt (RSet P) st =
     (case snd (fst st) of
        [] \<Rightarrow> []
      | r # rest \<Rightarrow> if P r then [((r # fst (fst st), rest), snd st)] else [])"
| "matchesAt REps st = [st]"
| "matchesAt (RSeq r1 r2) st = concat (map (matchesAt r2) (matchesAt r1 st))"
| "matchesAt (RAlt r1 r2) st = matchesAt r1 st @ matchesAt r2 st"
| "matchesAt (ROpt r) st = matchesAt r st @ [st]"
| "matchesAt (RStar r) st = iterGreedy (remaining st) (matchesAt r) st"
| "matchesAt (RStarLazy r) st = iterLazy (remaining st) (matchesAt r) st"
| "matchesAt (RGroup n r) st =
     map (\<lambda>st'. (fst st', (n, take (remaining st - remaining st') (snd (fst st))) # snd st'))
       (matchesAt r st)"
| "matchesAt RWordBoundary st =
     (if wordAt (fst (fst st)) \<noteq> wordAt (snd (fst st)) then [st] else [])"
| "matchesAt REndText st = (if snd (fst st) = [] then [st] else [])"

text \<open>The leftmost match of a pattern from a position on: where it starts and how it ends.\<close>

fun findFrom :: "re \<Rightarrow> int list \<Rightarrow> int list \<Rightarrow> (position \<times> match_state) option" where
  "findFrom r past [] =
     (case matchesAt r ((past, []), []) of [] \<Rightarrow> None | st # _ \<Rightarrow> Some ((past, []), st))"
| "findFrom r past (x # rest) =
     (case matchesAt r ((past, x # rest), []) of
        [] \<Rightarrow> findFrom r (x # past) rest
      | st # _ \<Rightarrow> Some ((past, x # rest), st))"

definition MatchString :: "re \<Rightarrow> int list \<Rightarrow> bool" where
  "MatchString r s \<longleftrightarrow> findFrom r [] s \<noteq> None"

text \<open>
  All successive non-overlapping matches, each with the text skipped before it, and the text
  behind the last one. The patterns below match no empty text; the search stops at an empty
  match.
\<close>

fun findAll :: "nat \<Rightarrow> re \<Rightarrow> position \<Rightarrow> (int list \<times> match_state) list \<times> int list" where
  "findAll 0 r p = ([], snd p)"
| "findAll (Suc n) r p =
     (case findFrom r (fst p) (snd p) of
        None \<Rightarrow> ([], snd p)
      | Some (start, st) \<Rightarrow>
          if remaining st < length (snd start) then
            (case findAll n r (fst st) of
               (ms, tail) \<Rightarrow>
                 ((take (length (snd p) - length (snd start)) (snd p), st) # ms, tail))
          else ([], snd p))"

definition FindAllSubmatch :: "re \<Rightarrow> int list \<Rightarrow> (nat \<times> int list) list list" where
  "FindAllSubmatch r s = map (\<lambda>m. snd (snd m)) (fst (findAll (Suc (length s)) r ([], s)))"

definition submatch :: "nat \<Rightarrow> (nat \<times> int list) list \<Rightarrow> int list" where
  "submatch n caps = (case map_of caps n of None \<Rightarrow> [] | Some s \<Rightarrow> s)"

definition ReplaceAll ::
    "re \<Rightarrow> ((nat \<times> int list) list \<Rightarrow> int list) \<Rightarrow> int list \<Rightarrow> int list" where
  "ReplaceAll r template s =
     (case findAll (Suc (length s)) r ([], s) of
        (ms, tail) \<Rightarrow> concat (map (\<lambda>(skipped, st). skipped @ template (snd st)) ms) @ tail)"

section \<open>Building patterns\<close>

definition lowerRune :: "int \<Rightarrow> int" where
  "lowerRune r =
     (if 65 \<le> r \<and> r \<le> 90 then r + 32 else if r = 0x17F then 115 else if r = 0x212A then 107 else r)"

definition litCI :: "char \<Rightarrow> re" where
  "litCI c = RSet (\<lambda>r. lowerRune r = lowerRune (of_char c))"

fun seqs :: "re list \<Rightarrow> re" where
  "seqs [] = REps"
| "seqs [r] = r"
| "seqs (r # rs) = RSeq r (seqs rs)"

fun alts :: "re list \<Rightarrow> re" where
  "alts [] = REps"
| "alts [r] = r"
| "alts (r # rs) = RAlt r (alts rs)"

definition wordCI :: "string \<Rightarrow> re" where
  "wordCI w = seqs (map litCI w)"

text \<open>A class of characters, with case folding and without.\<close>

definition letterCI :: "int \<Rightarrow> bool" where
  "letterCI r \<longleftrightarrow> 97 \<le> lowerRune r \<and> lowerRune r \<le> 122"

definition digitRune :: "int \<Rightarrow> bool" where
  "digitRune r \<longleftrightarrow> 48 \<le> r \<and> r \<le> 57"

definition anyOf :: "string \<Rightarrow> int \<Rightarrow> bool" where
  "anyOf cs r \<longleftrightarrow> r \<in> set (map of_char cs)"

definition alnumOr :: "string \<Rightarrow> re" where
  "alnumOr cs = RSet (\<lambda>r. letterCI r \<or> digitRune r \<or> anyOf cs r)"

definition spaceRune :: "int \<Rightarrow> bool" where
  "spaceRune r \<longleftrightarrow> r \<in> {9, 10, 12, 13, 32}"

definition digitRE :: re where "digitRE = RSet digitRune"
definition spaces :: re where "spaces = RStar (RSet spaceRune)"
definition charOf :: "string \<Rightarrow> re" where "charOf cs = RSet (anyOf cs)"

fun exactly :: "nat \<Rightarrow> re \<Rightarrow> re" where
  "exactly 0 r = REps"
| "exactly (Suc n) r = RSeq r (exactly n r)"

fun upTo :: "nat \<Rightarrow> re \<Rightarrow> re" where
  "upTo 0 r = REps"
| "upTo (Suc n) r = ROpt (RSeq r (upTo n r))"

definition atLeast :: "nat \<Rightarrow> re \<Rightarrow> re" where
  "atLeast n r = RSeq (exactly n r) (RStar r)"

definition between :: "nat \<Rightarrow> nat \<Rightarrow> re \<Rightarrow> re" where
  "between lo hi r = RSeq (exactly lo r) (upTo (hi - lo) r)"

section \<open>The patterns\<close>

definition sensitiveLabel :: re where
  "sensitiveLabel =
     RAlt
       (seqs [RStarLazy (alnumOr ''_-''),
              alts [seqs [wordCI ''api'', ROpt (charOf ''_-''), wordCI ''key''],
                    wordCI ''token'', wordCI ''password'', wordCI ''secret'',
                    wordCI ''credential'',
                    seqs [wordCI ''private'', ROpt (charOf ''_-''), wordCI ''key'']]])
       (seqs [wordCI ''customer'', ROpt (charOf ''_-''),
              alts [wordCI ''id'', wordCI ''name'', wordCI ''email'', wordCI ''phone'']])"

definition valueRune :: "int \<Rightarrow> bool" where
  "valueRune r \<longleftrightarrow> \<not> spaceRune r \<and> \<not> anyOf '',;'' r"

definition labeledValuePattern :: re where
  "labeledValuePattern =
     seqs [RWordBoundary, RGroup 1 sensitiveLabel, RWordBoundary, spaces,
           RGroup 2 (charOf '':=''), spaces, RGroup 3 (atLeast 1 (RSet valueRune))]"

definition emptyLabelPattern :: re where
  "emptyLabelPattern =
     seqs [RWordBoundary, sensitiveLabel, RWordBoundary, spaces, charOf '':='', spaces,
           RAlt REndText (charOf '',;'')]"

definition authorizationPattern :: re where
  "authorizationPattern =
     seqs [RWordBoundary, wordCI ''authorization'', spaces, charOf '':='', spaces,
           RGroup 1 (ROpt (seqs [wordCI ''bearer'', atLeast 1 (RSet spaceRune)])),
           RGroup 2 (atLeast 1 (RSet valueRune))]"

definition emailPattern :: re where
  "emailPattern =
     seqs [RWordBoundary, atLeast 1 (alnumOr ''._%+-''), charOf ''@'', atLeast 1 (alnumOr ''.-''),
           charOf ''.'', atLeast 2 (RSet letterCI), RWordBoundary]"

definition phonePattern :: re where
  "phonePattern =
     seqs [RWordBoundary,
           ROpt (seqs [ROpt (charOf ''+''), between 1 3 digitRE, ROpt (charOf '' -'')]),
           ROpt (seqs [between 2 4 digitRE, ROpt (charOf '' -'')]),
           between 3 4 digitRE, charOf '' -'', exactly 4 digitRE, RWordBoundary]"

definition opaqueTokenPattern :: re where
  "opaqueTokenPattern =
     seqs [RWordBoundary,
           alts [seqs [wordCI ''ghp_'', atLeast 20 (alnumOr '''')],
                 seqs [wordCI ''github_pat_'', atLeast 20 (alnumOr ''_'')],
                 seqs [wordCI ''xox'', alts (map litCI ''baprs''), charOf ''-'', atLeast 10 (alnumOr ''-'')],
                 seqs [wordCI ''sk'', charOf ''-_'', atLeast 8 (alnumOr ''_-'')],
                 seqs [wordCI ''AKIA'', exactly 16 (alnumOr '''')],
                 seqs [wordCI ''AIza'', atLeast 20 (alnumOr ''_-'')],
                 seqs [wordCI ''whsec_'', atLeast 16 (alnumOr ''_+/=-'')]],
           RWordBoundary]"

definition unknownTokenPattern :: re where
  "unknownTokenPattern =
     seqs [RWordBoundary, RSet letterCI, between 2 24 (alnumOr ''_-''), charOf ''.~'',
           atLeast 20 (alnumOr ''_-''), RWordBoundary]"

section \<open>Detection and replacement\<close>

definition isMarker :: "int list \<Rightarrow> bool" where
  "isMarker v \<longleftrightarrow>
     v \<in> set (map (map of_char)
       [''[REDACTED]'', ''[REDACTED_EMAIL]'', ''[REDACTED_PHONE]'', ''[REDACTED_TOKEN]''])"

text \<open>\<open>ContainsSensitive\<close> on the code points of a valid string without a NUL byte.\<close>

definition sensitiveRunes :: "int list \<Rightarrow> bool" where
  "sensitiveRunes rs \<longleftrightarrow>
     MatchString emptyLabelPattern rs
     \<or> list_ex (\<lambda>m. \<not> isMarker (submatch 3 m)) (FindAllSubmatch labeledValuePattern rs)
     \<or> list_ex (\<lambda>m. \<not> isMarker (submatch 2 m)) (FindAllSubmatch authorizationPattern rs)
     \<or> MatchString emailPattern rs \<or> MatchString phonePattern rs
     \<or> MatchString opaqueTokenPattern rs \<or> MatchString unknownTokenPattern rs"

definition ContainsSensitive :: "string \<Rightarrow> bool" where
  "ContainsSensitive v \<longleftrightarrow>
     (case runes v of None \<Rightarrow> True | Some rs \<Rightarrow> NUL \<in> set v \<or> sensitiveRunes rs)"

abbreviation text_runes :: "string \<Rightarrow> int list" where
  "text_runes s \<equiv> map of_char s"

definition Redact :: "string \<Rightarrow> string option" where
  "Redact v =
     (case runes v of
        None \<Rightarrow> None
      | Some rs \<Rightarrow>
          if NUL \<in> set v \<or> MatchString emptyLabelPattern rs then None
          else
            let r1 = ReplaceAll authorizationPattern
                  (\<lambda>c. text_runes ''Authorization: '' @ submatch 1 c @ text_runes ''[REDACTED]'') rs;
                r2 = ReplaceAll labeledValuePattern
                  (\<lambda>c. submatch 1 c @ submatch 2 c @ text_runes ''[REDACTED]'') r1;
                r3 = ReplaceAll emailPattern (\<lambda>_. text_runes ''[REDACTED_EMAIL]'') r2;
                r4 = ReplaceAll phonePattern (\<lambda>_. text_runes ''[REDACTED_PHONE]'') r3;
                r5 = ReplaceAll opaqueTokenPattern (\<lambda>_. text_runes ''[REDACTED_TOKEN]'') r4;
                redacted = encodeRunes r5
            in if ContainsSensitive redacted then None else Some redacted)"

end
