(* ===== verification/Audit_Chain.thy ===== *)
theory Audit_Chain
  imports Json_Decode Local_Store Redaction
begin

text \<open>
  The digest-linked audit chain (\<open>src/internal/audit/chain.go\<close>). The hash and the encoders are
  parameters, collected in the record \<open>audit_lib\<close>: \<open>al_sha\<close> is the lowercase hexadecimal
  SHA-256 of a byte sequence, \<open>al_canonical\<close> the encoding of the canonical form,
  \<open>al_format\<close> the RFC 3339 form of an instant. The lemmas read the audit bucket as a list of
  events and show what \<open>readChain\<close> accepts and what \<open>Append\<close> does to that list.
\<close>

section \<open>Events\<close>

record canonicalEvent =
  ce_SchemaVersion :: string
  ce_EventID :: string
  ce_AggregateType :: string
  ce_AggregateID :: string
  ce_ActorIdentity :: string
  ce_Action :: string
  ce_Result :: string
  ce_ReasonCode :: string
  ce_OccurredAt :: string
  ce_PreviousDigest :: string

record audit_lib =
  al_json :: json_lib
  al_event :: "AuditEvent json_type"
  al_canonical :: "canonicalEvent \<Rightarrow> error + string"
  al_format :: "Time \<Rightarrow> string"
  al_sha :: "string \<Rightarrow> string"

definition maxFieldBytes :: nat where "maxFieldBytes = 128"

definition inRange :: "char \<Rightarrow> char \<Rightarrow> char \<Rightarrow> bool" where
  "inRange lo hi c \<longleftrightarrow> lo \<le> c \<and> c \<le> hi"

text \<open>
  The characters an audit field may have. The source ranges over code points; a byte outside
  ASCII belongs to a code point that no case accepts.
\<close>

definition auditChar :: "char \<Rightarrow> bool" where
  "auditChar c \<longleftrightarrow>
     inRange CHR ''a'' CHR ''z'' c \<or> inRange CHR ''A'' CHR ''Z'' c \<or> inRange CHR ''0'' CHR ''9'' c
     \<or> c \<in> set ''._-:/@''"

definition validAuditField :: "string \<Rightarrow> bool" where
  "validAuditField v \<longleftrightarrow>
     v \<noteq> [] \<and> length v \<le> maxFieldBytes \<and> \<not> ContainsSensitive v \<and> list_all auditChar v"

definition auditFields :: "AuditEvent \<Rightarrow> string list" where
  "auditFields event =
     [ae_EventID event, ae_AggregateType event, ae_AggregateID event, ae_ActorIdentity event,
      ae_Action event, ae_Result event, ae_ReasonCode event]"

definition validateEventFields :: "AuditEvent \<Rightarrow> error option" where
  "validateEventFields event =
     (if ae_SchemaVersion event \<noteq> SchemaVersionV1 \<or> IsZero (ae_OccurredAt event)
      then Some (Audit ErrInvalidEvent)
      else if list_all validAuditField (auditFields event) then None
      else Some (Audit ErrInvalidEvent))"

definition hexChar :: "char \<Rightarrow> bool" where
  "hexChar c \<longleftrightarrow>
     inRange CHR ''0'' CHR ''9'' c \<or> inRange CHR ''a'' CHR ''f'' c \<or> inRange CHR ''A'' CHR ''F'' c"

definition validDigest :: "string \<Rightarrow> bool" where
  "validDigest v \<longleftrightarrow> length v = 64 \<and> list_all hexChar v"

definition validateStoredEvent :: "AuditEvent \<Rightarrow> error option" where
  "validateStoredEvent event =
     (case validateEventFields event of
        Some e \<Rightarrow> Some e
      | None \<Rightarrow>
          if \<not> validDigest (ae_Digest event)
             \<or> (ae_PreviousDigest event \<noteq> [] \<and> \<not> validDigest (ae_PreviousDigest event))
          then Some (Audit ErrInvalidEvent) else None)"

definition canonicalOf :: "audit_lib \<Rightarrow> AuditEvent \<Rightarrow> canonicalEvent" where
  "canonicalOf lib event =
     \<lparr>ce_SchemaVersion = ae_SchemaVersion event, ce_EventID = ae_EventID event,
      ce_AggregateType = ae_AggregateType event, ce_AggregateID = ae_AggregateID event,
      ce_ActorIdentity = ae_ActorIdentity event, ce_Action = ae_Action event,
      ce_Result = ae_Result event, ce_ReasonCode = ae_ReasonCode event,
      ce_OccurredAt = al_format lib (ae_OccurredAt event),
      ce_PreviousDigest = ae_PreviousDigest event\<rparr>"

definition canonicalBytes :: "audit_lib \<Rightarrow> AuditEvent \<Rightarrow> error + string" where
  "canonicalBytes lib event =
     (case validateEventFields event of
        Some e \<Rightarrow> Inl e
      | None \<Rightarrow>
          if ae_PreviousDigest event \<noteq> [] \<and> \<not> validDigest (ae_PreviousDigest event)
          then Inl (Audit ErrInvalidEvent)
          else al_canonical lib (canonicalOf lib event))"

definition CanonicalDigest :: "audit_lib \<Rightarrow> AuditEvent \<Rightarrow> error + string" where
  "CanonicalDigest lib event =
     bindR (canonicalBytes lib event) (\<lambda>canonical. Inr (al_sha lib canonical))"

definition eventDecodeOptions :: "AuditEvent DecodeOptions" where
  "eventDecodeOptions =
     \<lparr>do_MaxBytes = 0, do_SchemaVersion = SchemaVersionV1, do_Validate = Some validateStoredEvent\<rparr>"

definition decodeEvent :: "audit_lib \<Rightarrow> string \<Rightarrow> error + AuditEvent" where
  "decodeEvent lib document =
     (case Decode (al_json lib) (al_event lib) document eventDecodeOptions of
        Inl _ \<Rightarrow> Inl (Audit ErrChainInvalid)
      | Inr event \<Rightarrow>
          (case CanonicalDigest lib event of
             Inl _ \<Rightarrow> Inl (Audit ErrChainInvalid)
           | Inr expected \<Rightarrow>
               if ae_Digest event \<noteq> expected then Inl (Audit ErrChainInvalid) else Inr event))"

section \<open>Reading the chain\<close>

definition MaxUint64 :: int where "MaxUint64 = 2 ^ 64 - 1"

text \<open>\<open>fmt.Sprintf("%020d", index)\<close>.\<close>

definition eventKey :: "nat \<Rightarrow> string" where
  "eventKey index = replicate (20 - length (decimal index)) CHR ''0'' @ decimal index"

record chainState =
  cs_nextIndex :: nat
  cs_previousDigest :: string

text \<open>The callback of \<open>readChain\<close> on its captured state and the identifiers seen so far.\<close>

fun chainStep ::
    "audit_lib \<Rightarrow> chainState \<times> string list \<Rightarrow> string \<Rightarrow> string \<Rightarrow> error + (chainState \<times> string list)"
    where
  "chainStep lib (state, seen) key document =
     (if key \<noteq> eventKey (cs_nextIndex state) then Inl (Audit ErrChainInvalid)
      else bindR (decodeEvent lib document) (\<lambda>event.
        if ae_PreviousDigest event \<noteq> cs_previousDigest state then Inl (Audit ErrChainInvalid)
        else if ae_EventID event \<in> set seen then Inl (Audit ErrChainInvalid)
        else if int (cs_nextIndex state) = MaxUint64 then Inl (Audit ErrChainCapacity)
        else Inr (\<lparr>cs_nextIndex = cs_nextIndex state + 1, cs_previousDigest = ae_Digest event\<rparr>,
                  ae_EventID event # seen)))"

definition emptyChain :: chainState where
  "emptyChain = \<lparr>cs_nextIndex = 0, cs_previousDigest = []\<rparr>"

definition readChain :: "'db engine \<Rightarrow> audit_lib \<Rightarrow> 'db \<Rightarrow> error + chainState" where
  "readChain eng lib db =
     (case tx_ForEach eng BucketAudit (chainStep lib) (emptyChain, []) db of
        Inr (state, seen) \<Rightarrow> Inr state
      | Inl e \<Rightarrow>
          if e = Audit ErrChainCapacity \<or> e = Audit ErrChainInvalid then Inl e
          else Inl (Audit ErrChainInvalid))"

definition ValidateChain :: "'db engine \<Rightarrow> audit_lib \<Rightarrow> 'db \<Rightarrow> error option" where
  "ValidateChain eng lib db = (case readChain eng lib db of Inl e \<Rightarrow> Some e | Inr _ \<Rightarrow> None)"

section \<open>Appending\<close>

text \<open>
  \<open>Append\<close> inside a transaction. The mutation is \<open>None\<close> for nil; its error and every other
  error discard the transaction, so only the successful path returns contents.
\<close>

definition applyMutation ::
    "'db engine \<Rightarrow> audit_lib \<Rightarrow> chainState \<Rightarrow> ('db \<Rightarrow> error + 'db) option \<Rightarrow> 'db \<Rightarrow> error + 'db" where
  "applyMutation eng lib state change db =
     (case change of
        None \<Rightarrow> Inr db
      | Some mutation \<Rightarrow>
          bindR (mutation db) (\<lambda>db'.
          bindR (readChain eng lib db') (\<lambda>afterChange.
            if afterChange \<noteq> state then Inl (Audit ErrChainInvalid) else Inr db')))"

definition Append ::
    "'db engine \<Rightarrow> audit_lib \<Rightarrow> AuditEvent \<Rightarrow> ('db \<Rightarrow> error + 'db) option \<Rightarrow> 'db
      \<Rightarrow> error + (AuditEvent \<times> 'db)" where
  "Append eng lib event change db =
     bindR (readChain eng lib db) (\<lambda>state.
       if ae_PreviousDigest event \<noteq> [] \<or> ae_Digest event \<noteq> [] then Inl (Audit ErrInvalidEvent)
       else case validateEventFields event of
         Some e \<Rightarrow> Inl e
       | None \<Rightarrow>
           bindR (applyMutation eng lib state change db) (\<lambda>db'.
             if int (cs_nextIndex state) = MaxUint64 then Inl (Audit ErrChainCapacity)
             else
               let event' = event\<lparr>ae_PreviousDigest := cs_previousDigest state\<rparr> in
               bindR (CanonicalDigest lib event') (\<lambda>digest.
                 let event'' = event'\<lparr>ae_Digest := digest\<rparr> in
                 bindR (jt_marshal (al_event lib) event'') (\<lambda>document.
                 bindR (tx_AppendAudit eng (eventKey (cs_nextIndex state)) document db') (\<lambda>db''.
                   Inr (event'', db''))))))"

section \<open>The keys are in byte order\<close>

lemma decimalValue_Cons:
  "decimalValue (c # s) = (of_char c - 48) * 10 ^ length s + decimalValue s"
proof (induction s rule: rev_induct)
  case Nil
  then show ?case by (simp add: decimalValue_def)
next
  case (snoc x s)
  have "decimalValue (c # s @ [x]) = 10 * decimalValue (c # s) + (of_char x - 48)"
    using decimalValue_snoc [of "c # s" x] by simp
  with snoc show ?case by (simp add: algebra_simps)
qed

definition digitString :: "string \<Rightarrow> bool" where
  "digitString s \<longleftrightarrow> (\<forall>c \<in> set s. \<exists>d < 10. c = digitChar d)"

lemma digitString_Cons:
  "digitString (c # s) \<longleftrightarrow> (\<exists>d < 10. c = digitChar d) \<and> digitString s"
  by (auto simp: digitString_def)

lemma decimalValue_bound: "digitString s \<Longrightarrow> decimalValue s < 10 ^ length s"
proof (induction s)
  case Nil
  then show ?case by (simp add: decimalValue_def)
next
  case (Cons c s)
  then obtain d where d: "d < 10" "c = digitChar d" and s: "decimalValue s < 10 ^ length s"
    by (auto simp: digitString_Cons)
  have "decimalValue (c # s) = d * 10 ^ length s + decimalValue s"
    using d by (simp add: decimalValue_Cons of_char_digitChar)
  also have "\<dots> < d * 10 ^ length s + 10 ^ length s" using s by simp
  also have "\<dots> = Suc d * 10 ^ length s" by simp
  also have "\<dots> \<le> 10 * 10 ^ length s" using d(1) by (intro mult_le_mono1) simp
  finally show ?case by simp
qed

lemma digitChar_less:
  assumes "d < 10" and "e < 10"
  shows "digitChar d < digitChar e \<longleftrightarrow> d < e"
  using assms by (simp add: less_char_def of_char_digitChar)

text \<open>Digit strings of one length are ordered like the numbers they denote.\<close>

lemma digitString_less:
  assumes "length s = length t" and "digitString s" and "digitString t"
    and "decimalValue s < decimalValue t"
  shows "s < t"
  using assms
proof (induction s t rule: list_induct2)
  case Nil
  then show ?case by simp
next
  case (Cons c s b t)
  from Cons.prems obtain d e where d: "d < 10" "c = digitChar d" and e: "e < 10" "b = digitChar e"
    and digits: "digitString s" "digitString t"
    by (auto simp: digitString_Cons)
  have less: "d * 10 ^ length s + decimalValue s < e * 10 ^ length s + decimalValue t"
    using Cons.prems(3) Cons.hyps d e by (simp add: decimalValue_Cons of_char_digitChar)
  have "d \<le> e"
  proof (rule ccontr)
    assume "\<not> d \<le> e"
    then have "Suc e * 10 ^ length s \<le> d * 10 ^ length s" by (intro mult_le_mono1) simp
    with less decimalValue_bound [OF digits(2)] Cons.hyps show False by simp
  qed
  then consider "d < e" | "d = e" "decimalValue s < decimalValue t"
    using less by (cases "d = e") auto
  then show ?case
  proof cases
    case 1
    with d e show ?thesis by (simp add: digitChar_less)
  next
    case 2
    with Cons.IH digits d e show ?thesis by simp
  qed
qed

lemma decimal_digitString: "digitString (decimal n)"
  using decimal_digits by (auto simp: digitString_def)

lemma length_decimal: "n < 10 ^ k \<Longrightarrow> 0 < k \<Longrightarrow> length (decimal n) \<le> k"
proof (induction k arbitrary: n)
  case (Suc k)
  show ?case
  proof (cases "n < 10")
    case True
    then show ?thesis by (simp add: decimal.simps [of n])
  next
    case False
    with Suc.prems(1) have "k \<noteq> 0" by (intro notI) simp
    moreover from Suc.prems(1) have "n div 10 < 10 ^ k"
      by (simp add: less_mult_imp_div_less mult.commute)
    ultimately have "length (decimal (n div 10)) \<le> k" using Suc.IH by simp
    with False show ?thesis by (simp add: decimal.simps [of n])
  qed
qed simp

lemma MaxUint64_nonneg [simp]: "0 \<le> MaxUint64"
  by (simp add: MaxUint64_def)

lemma MaxUint64_digits: "int n \<le> MaxUint64 \<Longrightarrow> n < 10 ^ 20"
  by (simp add: MaxUint64_def)

lemma eventKey_props:
  assumes "int n \<le> MaxUint64"
  shows "length (eventKey n) = 20" and "digitString (eventKey n)" and "decimalValue (eventKey n) = n"
proof -
  have "length (decimal n) \<le> 20" using MaxUint64_digits [OF assms] by (intro length_decimal) simp_all
  then show "length (eventKey n) = 20" by (simp add: eventKey_def)
  have zero: "CHR ''0'' = digitChar 0" by code_simp
  have "\<exists>d < 10. digitChar 0 = digitChar d" by (rule exI [of _ 0]) simp
  with zero show "digitString (eventKey n)"
    using decimal_digitString [of n] by (auto simp: eventKey_def digitString_def)
  have "decimalValue (replicate m CHR ''0'' @ s) = decimalValue s" for m s
    by (induction m) (simp_all add: decimalValue_Cons)
  then show "decimalValue (eventKey n) = n" by (simp add: eventKey_def decimalValue_decimal)
qed

lemma eventKey_less: "m < n \<Longrightarrow> int n \<le> MaxUint64 \<Longrightarrow> eventKey m < eventKey n"
  by (rule digitString_less) (simp_all add: eventKey_props)

lemma eventKey_nonempty: "eventKey n \<noteq> []"
  by (simp add: eventKey_def decimal.simps [of n])

section \<open>The stored history\<close>

lemma decodeEvent_Inr:
  "decodeEvent lib document = Inr event \<longleftrightarrow>
     Decode (al_json lib) (al_event lib) document eventDecodeOptions = Inr event
     \<and> CanonicalDigest lib event = Inr (ae_Digest event)"
  by (auto simp: decodeEvent_def split: sum.splits if_splits)

text \<open>
  The pairs of the audit bucket hold these events: consecutive keys from \<open>n\<close>, each document
  decodes to its event, and each event names the digest of its predecessor.
\<close>

fun chained :: "audit_lib \<Rightarrow> nat \<Rightarrow> string \<Rightarrow> (string \<times> string) list \<Rightarrow> AuditEvent list \<Rightarrow> bool" where
  "chained lib n previous [] events \<longleftrightarrow> events = []"
| "chained lib n previous ((key, document) # rest) events \<longleftrightarrow>
     (\<exists>event events'. events = event # events' \<and> int n < MaxUint64 \<and> key = eventKey n
        \<and> decodeEvent lib document = Inr event \<and> ae_PreviousDigest event = previous
        \<and> chained lib (Suc n) (ae_Digest event) rest events')"

definition lastDigest :: "string \<Rightarrow> AuditEvent list \<Rightarrow> string" where
  "lastDigest previous events = (if events = [] then previous else ae_Digest (last events))"

lemma lastDigest_simps [simp]:
  "lastDigest previous [] = previous"
  "lastDigest previous (event # events) = lastDigest (ae_Digest event) events"
  "lastDigest previous (events @ [event]) = ae_Digest event"
  by (simp_all add: lastDigest_def)

text \<open>The history that a store holds, if its chain is intact.\<close>

definition history :: "'db engine \<Rightarrow> audit_lib \<Rightarrow> 'db \<Rightarrow> AuditEvent list \<Rightarrow> bool" where
  "history eng lib db events \<longleftrightarrow>
     eng_bucket eng db (bucketName BucketAudit)
     \<and> chained lib 0 [] (eng_each eng db (bucketName BucketAudit)) events
     \<and> distinct (map ae_EventID events)"

lemma fold_chainStep:
  assumes "int (cs_nextIndex state) \<le> MaxUint64"
  shows "foldR (chainStep lib) (state, seen) pairs = Inr (state', seen') \<longleftrightarrow>
     (\<exists>events. chained lib (cs_nextIndex state) (cs_previousDigest state) pairs events
        \<and> distinct (map ae_EventID events) \<and> set (map ae_EventID events) \<inter> set seen = {}
        \<and> state' = \<lparr>cs_nextIndex = cs_nextIndex state + length events,
                   cs_previousDigest = lastDigest (cs_previousDigest state) events\<rparr>
        \<and> seen' = rev (map ae_EventID events) @ seen)"
  using assms
proof (induction pairs arbitrary: state seen)
  case Nil
  then show ?case by auto
next
  case (Cons p pairs)
  obtain key document where p: "p = (key, document)" by (cases p)
  show ?case
  proof (cases "\<exists>event. key = eventKey (cs_nextIndex state) \<and> decodeEvent lib document = Inr event
      \<and> ae_PreviousDigest event = cs_previousDigest state \<and> ae_EventID event \<notin> set seen
      \<and> int (cs_nextIndex state) < MaxUint64")
    case False
    then have "foldR (chainStep lib) (state, seen) (p # pairs) \<noteq> Inr (state', seen')"
      using p Cons.prems by (auto simp: result_simps)
    moreover have "\<not> (\<exists>events. chained lib (cs_nextIndex state) (cs_previousDigest state) (p # pairs) events
        \<and> set (map ae_EventID events) \<inter> set seen = {})"
      using False p by auto
    ultimately show ?thesis by blast
  next
    case True
    then obtain event where event: "key = eventKey (cs_nextIndex state)"
      "decodeEvent lib document = Inr event" "ae_PreviousDigest event = cs_previousDigest state"
      "ae_EventID event \<notin> set seen" "int (cs_nextIndex state) < MaxUint64" by blast
    let ?state = "\<lparr>cs_nextIndex = cs_nextIndex state + 1, cs_previousDigest = ae_Digest event\<rparr>"
    have "foldR (chainStep lib) (state, seen) (p # pairs)
      = foldR (chainStep lib) (?state, ae_EventID event # seen) pairs"
      using p event by simp
    also have "\<dots> = Inr (state', seen') \<longleftrightarrow>
       (\<exists>events. chained lib (Suc (cs_nextIndex state)) (ae_Digest event) pairs events
        \<and> distinct (map ae_EventID events)
        \<and> set (map ae_EventID events) \<inter> set (ae_EventID event # seen) = {}
        \<and> state' = \<lparr>cs_nextIndex = Suc (cs_nextIndex state) + length events,
                   cs_previousDigest = lastDigest (ae_Digest event) events\<rparr>
        \<and> seen' = rev (map ae_EventID events) @ ae_EventID event # seen)"
      using Cons.IH [of ?state "ae_EventID event # seen"] event(5) by simp
    also have "\<dots> \<longleftrightarrow> (\<exists>events. chained lib (cs_nextIndex state) (cs_previousDigest state) (p # pairs) events
        \<and> distinct (map ae_EventID events) \<and> set (map ae_EventID events) \<inter> set seen = {}
        \<and> state' = \<lparr>cs_nextIndex = cs_nextIndex state + length events,
                   cs_previousDigest = lastDigest (cs_previousDigest state) events\<rparr>
        \<and> seen' = rev (map ae_EventID events) @ seen)"
      (is "(\<exists>events. ?L events) \<longleftrightarrow> (\<exists>events. ?R events)")
    proof
      assume "\<exists>events. ?L events"
      then obtain events where L: "?L events" by blast
      then have "?R (event # events)" using p event by auto
      then show "\<exists>events. ?R events" by blast
    next
      assume "\<exists>events. ?R events"
      then obtain events where R: "?R events" by blast
      then obtain events' where events: "events = event # events'" using p event by auto
      have "?L events'" using R p event unfolding events by auto
      then show "\<exists>events. ?L events" by blast
    qed
    finally show ?thesis .
  qed
qed

lemma readChain_Inr:
  "readChain eng lib db = Inr state \<longleftrightarrow>
     (\<exists>events. history eng lib db events
        \<and> state = \<lparr>cs_nextIndex = length events, cs_previousDigest = lastDigest [] events\<rparr>)"
proof -
  have "BucketAudit \<in> set dataBuckets" by (simp add: dataBuckets_def initialDataBuckets_def)
  moreover have "readChain eng lib db = Inr state \<longleftrightarrow>
      (\<exists>seen. tx_ForEach eng BucketAudit (chainStep lib) (emptyChain, []) db = Inr (state, seen))"
    by (auto simp: readChain_def split: sum.splits if_splits)
  ultimately show ?thesis
    using fold_chainStep [of emptyChain lib "[]" "eng_each eng db (bucketName BucketAudit)" state]
    by (auto simp: tx_ForEach_def result_simps history_def emptyChain_def
        simp del: bucketName.simps)
qed

lemma chained_unique:
  "chained lib n previous pairs events \<Longrightarrow> chained lib n previous pairs events' \<Longrightarrow> events' = events"
  by (induction lib n previous pairs events arbitrary: events' rule: chained.induct) auto

lemma history_unique: "history eng lib db events \<Longrightarrow> history eng lib db events' \<Longrightarrow> events' = events"
  unfolding history_def using chained_unique by blast

lemma chained_length: "chained lib n previous pairs events \<Longrightarrow> length events = length pairs"
  by (induction lib n previous pairs events rule: chained.induct) auto

lemma chained_bound:
  "chained lib n previous pairs events \<Longrightarrow> int n \<le> MaxUint64 \<Longrightarrow> int (n + length events) \<le> MaxUint64"
proof (induction lib n previous pairs events rule: chained.induct)
  case (2 lib n previous key document rest events)
  then show ?case by fastforce
qed simp

lemma chained_keys:
  "chained lib n previous pairs events \<Longrightarrow>
     map fst pairs = map eventKey [n ..< n + length events]"
proof (induction lib n previous pairs events rule: chained.induct)
  case (2 lib n previous key document rest events)
  then obtain event events' where e: "events = event # events'" "key = eventKey n"
    "chained lib (Suc n) (ae_Digest event) rest events'" by auto
  with 2(1) have "map fst rest = map eventKey [Suc n ..< Suc n + length events']" by blast
  with e show ?case by (simp add: upt_conv_Cons del: upt_Suc)
qed simp

lemma chained_snoc:
  "chained lib n previous (pairs @ [(key, document)]) events \<longleftrightarrow>
     (\<exists>es event. events = es @ [event] \<and> chained lib n previous pairs es
        \<and> int (n + length es) < MaxUint64 \<and> key = eventKey (n + length es)
        \<and> decodeEvent lib document = Inr event
        \<and> ae_PreviousDigest event = lastDigest previous es)"
proof (induction pairs arbitrary: n previous events)
  case Nil
  then show ?case by auto
next
  case (Cons p pairs)
  obtain k d where p: "p = (k, d)" by (cases p)
  show ?case
  proof
    assume "chained lib n previous ((p # pairs) @ [(key, document)]) events"
    then obtain e events' where e: "events = e # events'" "int n < MaxUint64" "k = eventKey n"
      "decodeEvent lib d = Inr e" "ae_PreviousDigest e = previous"
      "chained lib (Suc n) (ae_Digest e) (pairs @ [(key, document)]) events'"
      using p by auto
    from e(6) obtain es event where "events' = es @ [event]"
      "chained lib (Suc n) (ae_Digest e) pairs es" "int (Suc n + length es) < MaxUint64"
      "key = eventKey (Suc n + length es)" "decodeEvent lib document = Inr event"
      "ae_PreviousDigest event = lastDigest (ae_Digest e) es"
      using Cons.IH by blast
    with e p show "\<exists>es event. events = es @ [event] \<and> chained lib n previous (p # pairs) es
        \<and> int (n + length es) < MaxUint64 \<and> key = eventKey (n + length es)
        \<and> decodeEvent lib document = Inr event
        \<and> ae_PreviousDigest event = lastDigest previous es"
      by (intro exI [of _ "e # es"] exI [of _ event]) simp
  next
    assume "\<exists>es event. events = es @ [event] \<and> chained lib n previous (p # pairs) es
        \<and> int (n + length es) < MaxUint64 \<and> key = eventKey (n + length es)
        \<and> decodeEvent lib document = Inr event
        \<and> ae_PreviousDigest event = lastDigest previous es"
    then obtain e es event where e: "events = (e # es) @ [event]" "int n < MaxUint64" "k = eventKey n"
      "decodeEvent lib d = Inr e" "ae_PreviousDigest e = previous"
      "chained lib (Suc n) (ae_Digest e) pairs es" "int (Suc n + length es) < MaxUint64"
      "key = eventKey (Suc n + length es)" "decodeEvent lib document = Inr event"
      "ae_PreviousDigest event = lastDigest (ae_Digest e) es"
      using p by auto
    then have "chained lib (Suc n) (ae_Digest e) (pairs @ [(key, document)]) (es @ [event])"
      using Cons.IH by blast
    with e p show "chained lib n previous ((p # pairs) @ [(key, document)]) events" by simp
  qed
qed

section \<open>What the chain relies on of its libraries\<close>

text \<open>
  Valid events, whose fields are short ASCII strings, survive encoding and decoding, their
  documents fit the size limit, and a hash value is 64 hexadecimal digits.
\<close>

definition audit_lib_ok :: "audit_lib \<Rightarrow> bool" where
  "audit_lib_ok lib \<longleftrightarrow>
     json_codec (al_json lib) (al_event lib) ae_SchemaVersion
       (\<lambda>event. validateStoredEvent event = None)
     \<and> (\<forall>event document. validateStoredEvent event = None
          \<and> jt_marshal (al_event lib) event = Inr document
          \<longrightarrow> int (length document) \<le> MaxDocumentBytes)
     \<and> (\<forall>document. validDigest (al_sha lib document))"

lemma CanonicalDigest_Inr:
  "CanonicalDigest lib event = Inr digest \<longleftrightarrow>
     validateEventFields event = None
     \<and> (ae_PreviousDigest event = [] \<or> validDigest (ae_PreviousDigest event))
     \<and> (\<exists>canonical. al_canonical lib (canonicalOf lib event) = Inr canonical
          \<and> digest = al_sha lib canonical)"
  by (auto simp: CanonicalDigest_def canonicalBytes_def result_simps split: option.splits if_splits)

lemma validateEventFields_digest [simp]:
  "validateEventFields (event\<lparr>ae_Digest := d\<rparr>) = validateEventFields event"
  "validateEventFields (event\<lparr>ae_PreviousDigest := p\<rparr>) = validateEventFields event"
  by (simp_all add: validateEventFields_def auditFields_def)

lemma canonicalOf_digest [simp]: "canonicalOf lib (event\<lparr>ae_Digest := d\<rparr>) = canonicalOf lib event"
  by (simp add: canonicalOf_def)

lemma CanonicalDigest_digest [simp]:
  "CanonicalDigest lib (event\<lparr>ae_Digest := d\<rparr>) = CanonicalDigest lib event"
  by (cases "validateEventFields event")
    (simp_all add: CanonicalDigest_def canonicalBytes_def cong: if_cong)

lemma validateStoredEvent_None:
  "validateStoredEvent event = None \<longleftrightarrow>
     validateEventFields event = None \<and> validDigest (ae_Digest event)
     \<and> (ae_PreviousDigest event = [] \<or> validDigest (ae_PreviousDigest event))"
  by (auto simp: validateStoredEvent_def split: option.splits)

lemma validateEventFields_None:
  "validateEventFields event = None \<longleftrightarrow>
     ae_SchemaVersion event = SchemaVersionV1 \<and> ae_OccurredAt event \<noteq> 0
     \<and> list_all validAuditField (auditFields event)"
  by (auto simp: validateEventFields_def)

text \<open>The document of a digested valid event decodes to the event.\<close>

lemma decodeEvent_marshal:
  assumes "audit_lib_ok lib" and "CanonicalDigest lib event = Inr (ae_Digest event)"
    and "jt_marshal (al_event lib) event = Inr document"
  shows "decodeEvent lib document = Inr event"
proof -
  have valid: "validateStoredEvent event = None"
    using assms(1,2) by (auto simp: validateStoredEvent_None CanonicalDigest_Inr audit_lib_ok_def)
  then have "ae_SchemaVersion event = SchemaVersionV1"
    by (simp add: validateStoredEvent_None validateEventFields_None)
  then have "Decode (al_json lib) (al_event lib) document eventDecodeOptions = Inr event"
    using assms(1,3) valid unfolding audit_lib_ok_def
    by (intro Decode_marshal [where ok = "\<lambda>event. validateStoredEvent event = None"
          and version = ae_SchemaVersion and validate = validateStoredEvent])
      (auto simp: eventDecodeOptions_def SchemaVersionV1_def decodeLimit_def)
  with assms(2) show ?thesis by (simp add: decodeEvent_Inr)
qed

section \<open>What Append does\<close>

text \<open>A mutation as the callers write it: it keeps the engine well-formed and the audit bucket.\<close>

definition audit_neutral :: "'db engine \<Rightarrow> ('db \<Rightarrow> bool) \<Rightarrow> ('db \<Rightarrow> error + 'db) option \<Rightarrow> bool" where
  "audit_neutral eng dbinv change \<longleftrightarrow>
     (\<forall>mutation db db'. change = Some mutation \<and> dbinv db \<and> mutation db = Inr db' \<longrightarrow>
        dbinv db' \<and> same_bucket eng BucketAudit db db')"

lemma Append_Inr:
  assumes "Append eng lib event change db = Inr (ev, db'')"
  obtains state db' document where
    "readChain eng lib db = Inr state" "ae_PreviousDigest event = []" "ae_Digest event = []"
    "applyMutation eng lib state change db = Inr db'" "int (cs_nextIndex state) \<noteq> MaxUint64"
    "ev = event\<lparr>ae_PreviousDigest := cs_previousDigest state, ae_Digest := ae_Digest ev\<rparr>"
    "CanonicalDigest lib ev = Inr (ae_Digest ev)"
    "jt_marshal (al_event lib) ev = Inr document"
    "tx_AppendAudit eng (eventKey (cs_nextIndex state)) document db' = Inr db''"
  using assms
  by (auto simp: Append_def result_simps Let_def split: if_splits option.splits)

context bbolt
begin

lemma same_bucket_history:
  assumes "same_bucket eng BucketAudit db db'" and "inv db" and "inv db'"
  shows "history eng lib db' events = history eng lib db events"
  using same_bucket_each [OF assms] assms(1) unfolding history_def same_bucket_def by simp

lemma applyMutation_neutral:
  assumes "applyMutation eng lib state change db = Inr db'" and "audit_neutral eng inv change"
    and "inv db"
  shows "inv db' \<and> same_bucket eng BucketAudit db db'"
  using assms
  by (cases change) (auto simp: applyMutation_def audit_neutral_def result_simps split: if_splits)

lemma audit_append_each:
  assumes "tx_AppendAudit eng (eventKey (length events)) document db = Inr db'" and "inv db"
    and "history eng lib db events" and "int (length events) < MaxUint64"
  shows "eng_each eng db' (bucketName BucketAudit)
    = eng_each eng db (bucketName BucketAudit) @ [(eventKey (length events), document)]"
    (is "?new = ?old @ [(?key, document)]")
proof (rule keys_sorted_unique)
  show "keys_sorted ?new" by (rule each_sorted [OF tx_AppendAudit_ok(1) [OF assms(1,2)]])
  have chain: "chained lib 0 [] ?old events" using assms(3) unfolding history_def by blast
  show "keys_sorted (?old @ [(?key, document)])"
  proof (rule keys_sorted_snoc [OF each_sorted [OF assms(2)]])
    fix p
    assume "p \<in> set ?old"
    then have "fst p \<in> set (map fst ?old)" by simp
    then have "fst p \<in> set (map eventKey [0 ..< length events])"
      unfolding chained_keys [OF chain] by simp
    then obtain m where "m < length events" "fst p = eventKey m" by auto
    with assms(4) show "fst p < ?key" by (simp add: eventKey_less)
  qed
  show "map_of ?new = map_of (?old @ [(?key, document)])"
  proof
    fix k
    have "map_of ?new k = (if k = ?key then Some document else map_of ?old k)"
      using each_get [OF tx_AppendAudit_ok(1) [OF assms(1,2)]] each_get [OF assms(2)]
        tx_AppendAudit_ok(5) [OF assms(1,2)]
      by simp
    moreover have "map_of ?old ?key = None"
      using tx_AppendAudit_ok(3) [OF assms(1,2)] each_get [OF assms(2)] by simp
    ultimately show "map_of ?new k = map_of (?old @ [(?key, document)]) k"
      by (auto simp: map_add_def split: option.splits)
  qed
qed

text \<open>An append runs its mutation and touches no other bucket.\<close>

lemma Append_writes:
  assumes "Append eng lib event change db = Inr (ev, db')" and "inv db"
    and "\<And>mutation db1. change = Some mutation \<Longrightarrow> mutation db = Inr db1 \<Longrightarrow> inv db1"
  obtains db1 where "case change of None \<Rightarrow> db1 = db | Some mutation \<Rightarrow> mutation db = Inr db1"
    "inv db1" "inv db'"
    "\<And>c. c \<noteq> BucketAudit \<Longrightarrow> c \<in> set dataBuckets \<Longrightarrow> same_bucket eng c db1 db'"
proof -
  obtain state db1 document where a: "applyMutation eng lib state change db = Inr db1"
    "tx_AppendAudit eng (eventKey (cs_nextIndex state)) document db1 = Inr db'"
    by (rule Append_Inr [OF assms(1)])
  have ran: "case change of None \<Rightarrow> db1 = db | Some mutation \<Rightarrow> mutation db = Inr db1"
    using a(1) by (cases change) (auto simp: applyMutation_def result_simps split: if_splits)
  then have "inv db1" using assms(2,3) by (cases change) auto
  then show ?thesis
    using that [OF ran _ tx_AppendAudit_ok(1) [OF a(2)]] tx_AppendAudit_other [OF a(2)] by blast
qed

lemma Append_chained:
  assumes "Append eng lib event change db = Inr (ev, db')" and "inv db" and "audit_lib_ok lib"
    and "audit_neutral eng inv change" and "history eng lib db events"
  shows "inv db'"
    and "eng_bucket eng db' (bucketName BucketAudit)"
    and "chained lib 0 [] (eng_each eng db' (bucketName BucketAudit)) (events @ [ev])"
    and "ev = event\<lparr>ae_PreviousDigest := lastDigest [] events, ae_Digest := ae_Digest ev\<rparr>"
proof -
  obtain state db1 document where a: "readChain eng lib db = Inr state"
    "applyMutation eng lib state change db = Inr db1" "int (cs_nextIndex state) \<noteq> MaxUint64"
    "ev = event\<lparr>ae_PreviousDigest := cs_previousDigest state, ae_Digest := ae_Digest ev\<rparr>"
    "CanonicalDigest lib ev = Inr (ae_Digest ev)"
    "jt_marshal (al_event lib) ev = Inr document"
    "tx_AppendAudit eng (eventKey (cs_nextIndex state)) document db1 = Inr db'"
    by (rule Append_Inr [OF assms(1)])
  have state: "state = \<lparr>cs_nextIndex = length events, cs_previousDigest = lastDigest [] events\<rparr>"
    using a(1) assms(5) history_unique by (fastforce simp: readChain_Inr)
  have db1: "inv db1" "same_bucket eng BucketAudit db db1"
    using applyMutation_neutral [OF a(2) assms(4,2)] by blast+
  have hist: "history eng lib db1 events"
    using same_bucket_history [OF db1(2) assms(2) db1(1)] assms(5) by simp
  have chain: "chained lib 0 [] (eng_each eng db1 (bucketName BucketAudit)) events"
    and bucket: "eng_bucket eng db1 (bucketName BucketAudit)"
    using hist unfolding history_def by blast+
  have "int (length events) \<le> MaxUint64" using chained_bound [OF chain] by simp
  then have room: "int (length events) < MaxUint64" using a(3) state by simp
  from a(7) state have app: "tx_AppendAudit eng (eventKey (length events)) document db1 = Inr db'"
    by simp
  show "inv db'" by (rule tx_AppendAudit_ok(1) [OF app db1(1)])
  show "eng_bucket eng db' (bucketName BucketAudit)"
    using tx_AppendAudit_ok(4) [OF app db1(1)] bucket by simp
  show ev: "ev = event\<lparr>ae_PreviousDigest := lastDigest [] events, ae_Digest := ae_Digest ev\<rparr>"
    using a(4) state by simp
  have "ae_PreviousDigest ev = lastDigest [] events" using arg_cong [OF ev, of ae_PreviousDigest] by simp
  then show "chained lib 0 [] (eng_each eng db' (bucketName BucketAudit)) (events @ [ev])"
    unfolding audit_append_each [OF app db1(1) hist room] chained_snoc
    using chain room decodeEvent_marshal [OF assms(3) a(5,6)] by auto
qed

end

section \<open>Tamper evidence\<close>













section \<open>A concrete chain\<close>

text \<open>Two events with one identifier, their digests and documents, for evaluation.\<close>

definition demoDigest :: string where
  "demoDigest = replicate 64 CHR ''0''"

definition demoEvent :: AuditEvent where
  "demoEvent =
     \<lparr>ae_SchemaVersion = ''v1'', ae_EventID = ''e'', ae_AggregateType = ''t'', ae_AggregateID = ''a'',
      ae_ActorIdentity = ''u'', ae_Action = ''x'', ae_Result = ''r'', ae_ReasonCode = ''c'',
      ae_OccurredAt = 1, ae_PreviousDigest = [], ae_Digest = []\<rparr>"

definition demoEvent1 :: AuditEvent where
  "demoEvent1 = demoEvent\<lparr>ae_Digest := demoDigest\<rparr>"

definition demoEvent2 :: AuditEvent where
  "demoEvent2 = demoEvent\<lparr>ae_PreviousDigest := demoDigest, ae_Digest := demoDigest\<rparr>"

definition demoAuditLib :: audit_lib where
  "demoAuditLib =
     \<lparr>al_json = tableLib,
      al_event = tableType [(demoEvent1, ''d1''), (demoEvent2, ''d2'')],
      al_canonical = (\<lambda>c. if ce_PreviousDigest c = [] then
          (if c = \<lparr>ce_SchemaVersion = ''v1'', ce_EventID = ''e'', ce_AggregateType = ''t'',
              ce_AggregateID = ''a'', ce_ActorIdentity = ''u'', ce_Action = ''x'', ce_Result = ''r'',
              ce_ReasonCode = ''c'', ce_OccurredAt = ''1'', ce_PreviousDigest = []\<rparr>
           then Inr ''c1'' else Inl (External ''json''))
        else if c = \<lparr>ce_SchemaVersion = ''v1'', ce_EventID = ''e'', ce_AggregateType = ''t'',
              ce_AggregateID = ''a'', ce_ActorIdentity = ''u'', ce_Action = ''x'', ce_Result = ''r'',
              ce_ReasonCode = ''c'', ce_OccurredAt = ''1'', ce_PreviousDigest = demoDigest\<rparr>
           then Inr ''c2'' else Inl (External ''json'')),
      al_format = Itoa,
      al_sha = (\<lambda>_. demoDigest)\<rparr>"

definition demoStore0 :: mem_db where "demoStore0 = [(''audit'', [])]"
definition demoStore1 :: mem_db where "demoStore1 = [(''audit'', [(eventKey 0, ''d1'')])]"

lemma demoAuditLib_ok: "audit_lib_ok demoAuditLib"
proof -
  have "json_codec tableLib (tableType [(demoEvent1, ''d1''), (demoEvent2, ''d2'')])
      ae_SchemaVersion (\<lambda>_. True)"
    by (rule tableType_codec) (auto simp: demoEvent1_def demoEvent2_def demoEvent_def)
  then have codec: "json_codec tableLib (tableType [(demoEvent1, ''d1''), (demoEvent2, ''d2'')])
      ae_SchemaVersion (\<lambda>event. validateStoredEvent event = None)"
    by (rule json_codec_mono) simp
  have "validDigest demoDigest" by code_simp
  with codec show ?thesis
    by (auto simp: audit_lib_ok_def demoAuditLib_def tableType_def MaxDocumentBytes_def
        split: option.splits if_splits)
qed

lemma demoStore_inv: "mem_inv demoStore0" "mem_inv demoStore1"
  by (simp_all add: mem_inv_def keys_sorted_def demoStore0_def demoStore1_def)

lemma demo_Append1: "Append mem_engine demoAuditLib demoEvent None demoStore0 = Inr (demoEvent1, demoStore1)"
  by code_simp


lemma demo_history0: "history mem_engine demoAuditLib demoStore0 []"
  by (simp add: history_def demoStore0_def)


lemma demo_neutral: "audit_neutral mem_engine mem_inv None"
  by (simp add: audit_neutral_def)


section \<open>Properties\<close>

text \<open>
  C8: appending extends the history by one. On a store whose chain is intact, a successful
  \<open>Append\<close> of an event with a new identifier leaves an intact chain whose history is the old
  one followed by the event, linked to the previous digest and otherwise unchanged; so the
  next read of the chain succeeds.
\<close>

theorem Append_extends_history:
  assumes "bbolt eng dbinv" and "dbinv db" and "audit_lib_ok lib"
    and "audit_neutral eng dbinv change"
    and "history eng lib db events" and "Append eng lib event change db = Inr (ev, db')"
    and "ae_EventID event \<notin> set (map ae_EventID events)"
  shows "history eng lib db' (events @ [ev])
    \<and> ev = event\<lparr>ae_PreviousDigest := lastDigest [] events, ae_Digest := ae_Digest ev\<rparr>
    \<and> readChain eng lib db'
        = Inr \<lparr>cs_nextIndex = Suc (length events), cs_previousDigest = ae_Digest ev\<rparr>"
proof -
  note app = bbolt.Append_chained [OF assms(1,6,2,3,4,5)]
  have "ae_EventID ev = ae_EventID event" by (subst app(4)) simp
  then have "distinct (map ae_EventID (events @ [ev]))"
    using assms(5,7) by (simp add: history_def)
  with app(2,3) have "history eng lib db' (events @ [ev])" by (simp add: history_def)
  with app(4) show ?thesis by (auto simp: readChain_Inr)
qed

theorem Append_extends_history_witness:
  "history mem_engine demoAuditLib demoStore1 ([] @ [demoEvent1])"
  using Append_extends_history [OF mem.bbolt_axioms demoStore_inv(1) demoAuditLib_ok demo_neutral
      demo_history0 demo_Append1]
  by simp







end
