(* ===== verification/Approvals.thy ===== *)
theory Approvals
  imports Effects Audit_Chain
begin

text \<open>
  The approval manager, \<open>src/internal/recovery/approval.go\<close>: local grants and denials of
  commands that wait for approval, recorded in one transaction with their audit event, and the
  state source that attaches the recorded decision to the facts the policy evaluates. The
  lemmas show what a decision writes, that a command has at most one, and that the manager
  never touches a command that is already executing.
\<close>

section \<open>Data\<close>

definition approvalRecordPrefix :: string where "approvalRecordPrefix = ''record/''"
definition approvalCommandPrefix :: string where "approvalCommandPrefix = ''command/''"
definition maxApprovalReasonLength :: nat where "maxApprovalReasonLength = 96"
definition approvalAuditAggregateType :: string where
  "approvalAuditAggregateType = ''recovery_approval''"
definition approvalAuditAction :: string where "approvalAuditAction = ''approval.decide''"
definition approvalAuditAccepted :: string where "approvalAuditAccepted = ''accepted''"
definition approvalAuditRejected :: string where "approvalAuditRejected = ''rejected''"
definition approvalAuditInvalid :: string where "approvalAuditInvalid = ''invalid_approval''"
definition approvalAuditNotFound :: string where "approvalAuditNotFound = ''command_not_found''"
definition approvalAuditConflict :: string where "approvalAuditConflict = ''decision_conflict''"
definition approvalAuditExpired :: string where "approvalAuditExpired = ''command_expired''"

record ApprovalDecisionRequest =
  dr_CommandID :: string
  dr_Decision :: ApprovalDecision
  dr_ActorIdentity :: string
  dr_RequestID :: string
  dr_ReasonCode :: string
  dr_ExpiresAt :: Time

record ApprovalDecisionResult =
  dx_Approval :: Approval
  dx_Command :: RecoveryCommand

text \<open>The manager: the store with the libraries of the journal, the audit chain and the approvals.\<close>

record 'db ApprovalManager =
  am_eng :: "'db engine"
  am_lib :: journal_lib
  am_audit :: audit_lib
  am_approval :: "Approval json_type"

definition zeroApproval :: Approval where
  "zeroApproval =
     \<lparr>av_SchemaVersion = [], av_ApprovalID = [], av_CommandID = [], av_Decision = ApprovalOther [],
      av_ApproverIdentity = [], av_Reason = [], av_CreatedAt = 0, av_ExpiresAt = 0\<rparr>"

section \<open>Keys and validation\<close>

definition approvalRecordKey :: "string \<Rightarrow> string" where
  "approvalRecordKey approvalID = approvalRecordPrefix @ approvalID"

definition approvalCommandKey :: "string \<Rightarrow> string" where
  "approvalCommandKey commandID = approvalCommandPrefix @ commandID"

definition approvalAggregateID :: "journal_lib \<Rightarrow> string \<Rightarrow> string" where
  "approvalAggregateID lib commandID = ''command-'' @ jo_sha lib commandID"

text \<open>
  The switch accepts the characters of an audit field; a byte outside ASCII belongs to a code
  point that no case accepts.
\<close>

definition validApprovalReason :: "string \<Rightarrow> bool" where
  "validApprovalReason v \<longleftrightarrow>
     \<not> (v = [] \<or> length v > maxApprovalReasonLength) \<and> list_all auditChar v"

definition validAuditRequest :: "ApprovalDecisionRequest \<Rightarrow> bool" where
  "validAuditRequest request \<longleftrightarrow>
     validToken (dr_CommandID request) maxCommandIDLength
     \<and> validToken (dr_ActorIdentity request) maxCommandIDLength
     \<and> validToken (dr_RequestID request) maxCommandIDLength
     \<and> validApprovalReason (dr_ReasonCode request)"

definition validApprovalDecisionRequest :: "ApprovalDecisionRequest \<Rightarrow> bool" where
  "validApprovalDecisionRequest request \<longleftrightarrow>
     validAuditRequest request
     \<and> (dr_Decision request = ApprovalGranted \<or> dr_Decision request = ApprovalDenied)
     \<and> \<not> IsZero (dr_ExpiresAt request)"

definition validateApproval :: "Approval \<Rightarrow> error option" where
  "validateApproval appr =
     (if av_SchemaVersion appr \<noteq> SchemaVersionV1
         \<or> \<not> validToken (av_ApprovalID appr) maxCommandIDLength
         \<or> \<not> validToken (av_CommandID appr) maxCommandIDLength
         \<or> (av_Decision appr \<noteq> ApprovalGranted \<and> av_Decision appr \<noteq> ApprovalDenied)
         \<or> \<not> validToken (av_ApproverIdentity appr) maxCommandIDLength
         \<or> \<not> validApprovalReason (av_Reason appr)
         \<or> IsZero (av_CreatedAt appr) \<or> IsZero (av_ExpiresAt appr)
         \<or> \<not> av_ExpiresAt appr > av_CreatedAt appr
      then Some (Recovery ErrInvalidApprovalDecision)
      else None)"

section \<open>Recording a decision\<close>

text \<open>
  \<open>appendAudit\<close>. The event identifier and the instant it draws are arguments: a transaction
  calls it at most once, so the program draws them just before the transaction.
\<close>

definition approvalEvent ::
    "journal_lib \<Rightarrow> ApprovalDecisionRequest \<Rightarrow> string \<Rightarrow> Time \<Rightarrow> string \<Rightarrow> string \<Rightarrow> AuditEvent" where
  "approvalEvent lib request eventID now outcome reason =
     \<lparr>ae_SchemaVersion = SchemaVersionV1, ae_EventID = eventID,
      ae_AggregateType = approvalAuditAggregateType,
      ae_AggregateID = approvalAggregateID lib (dr_CommandID request),
      ae_ActorIdentity = dr_ActorIdentity request, ae_Action = approvalAuditAction,
      ae_Result = outcome, ae_ReasonCode = reason, ae_OccurredAt = now, ae_PreviousDigest = [],
      ae_Digest = []\<rparr>"

record draws =
  dw_eventID :: "error + string"
  dw_now :: Time

definition managerNow :: "Time \<Rightarrow> error + Time" where
  "managerNow now = (if IsZero now then Inl (Recovery ErrInvalidApprovalOptions) else Inr now)"

definition appendAudit ::
    "'db ApprovalManager \<Rightarrow> draws \<Rightarrow> ApprovalDecisionRequest \<Rightarrow> string \<Rightarrow> string
      \<Rightarrow> ('db \<Rightarrow> error + 'db) option \<Rightarrow> 'db \<Rightarrow> error + 'db" where
  "appendAudit m drawn request outcome reason mutation tx =
     (case dw_eventID drawn of
        Inl _ \<Rightarrow> Inl (Recovery ErrInvalidApprovalOptions)
      | Inr eventID \<Rightarrow>
          if \<not> validToken eventID maxCommandIDLength then Inl (Recovery ErrInvalidApprovalOptions)
          else bindR (managerNow (dw_now drawn)) (\<lambda>now.
            bindR (Append (am_eng m) (am_audit m)
                (approvalEvent (am_lib m) request eventID now outcome reason) mutation tx)
              (\<lambda>(_, tx'). Inr tx')))"

definition newApproval :: "ApprovalDecisionRequest \<Rightarrow> string \<Rightarrow> Time \<Rightarrow> journalRecord \<Rightarrow> Approval" where
  "newApproval request approvalID now record =
     \<lparr>av_SchemaVersion = SchemaVersionV1, av_ApprovalID = approvalID,
      av_CommandID = rc_CommandID (jr_Command record), av_Decision = dr_Decision request,
      av_ApproverIdentity = dr_ActorIdentity request, av_Reason = dr_ReasonCode request,
      av_CreatedAt = now, av_ExpiresAt = dr_ExpiresAt request\<rparr>"

text \<open>The command after the decision: associated with it, and denied by a denial.\<close>

definition decidedRecord :: "Approval \<Rightarrow> journalRecord \<Rightarrow> error + journalRecord" where
  "decidedRecord appr record =
     (let record' = record\<lparr>jr_Command := (jr_Command record)\<lparr>rc_ApprovalID := av_ApprovalID appr\<rparr>\<rparr> in
      if av_Decision appr = ApprovalDenied then transitionToDenied record' else Inr record')"

definition writeDecision ::
    "'db ApprovalManager \<Rightarrow> Approval \<Rightarrow> string \<Rightarrow> string \<Rightarrow> journalRecord \<Rightarrow> 'db \<Rightarrow> error + 'db" where
  "writeDecision m appr document key record tx =
     bindR (tx_Put (am_eng m) BucketApprovals (approvalRecordKey (av_ApprovalID appr)) document tx)
       (\<lambda>tx1.
     bindR (tx_Put (am_eng m) BucketApprovals (approvalCommandKey (av_CommandID appr))
         (av_ApprovalID appr) tx1) (\<lambda>tx2.
     putRecord (am_eng m) (am_lib m) key record tx2))"

text \<open>A transaction that returns an error discards its writes; a rejection is recorded and returned.\<close>

definition rejected ::
    "'db ApprovalManager \<Rightarrow> draws \<Rightarrow> ApprovalDecisionRequest \<Rightarrow> string \<Rightarrow> ('db \<Rightarrow> error + 'db) option
      \<Rightarrow> recovery_error \<Rightarrow> 'db \<Rightarrow> error + ((error + ApprovalDecisionResult) \<times> 'db)" where
  "rejected m drawn request reason mutation e tx =
     bindR (appendAudit m drawn request approvalAuditRejected reason mutation tx)
       (\<lambda>tx'. Inr (Inl (Recovery e), tx'))"

definition acceptDecision ::
    "'db ApprovalManager \<Rightarrow> draws \<Rightarrow> ApprovalDecisionRequest \<Rightarrow> string \<Rightarrow> Time \<Rightarrow> storedRecord \<Rightarrow> 'db
      \<Rightarrow> error + ((error + ApprovalDecisionResult) \<times> 'db)" where
  "acceptDecision m drawn request approvalID now stored tx =
     (let appr = newApproval request approvalID now (sr_record stored) in
      if validateApproval appr \<noteq> None then Inl (Recovery ErrInvalidApprovalDecision)
      else bindR (decidedRecord appr (sr_record stored)) (\<lambda>record.
        bindR (jt_marshal (am_approval m) appr) (\<lambda>document.
        bindR (appendAudit m drawn request approvalAuditAccepted (dr_ReasonCode request)
            (Some (writeDecision m appr document (sr_key stored) record)) tx) (\<lambda>tx'.
          Inr (Inr \<lparr>dx_Approval = appr, dx_Command = jr_Command record\<rparr>, tx')))))"

definition decideTx ::
    "'db ApprovalManager \<Rightarrow> draws \<Rightarrow> ApprovalDecisionRequest \<Rightarrow> string \<Rightarrow> Time \<Rightarrow> 'db
      \<Rightarrow> error + ((error + ApprovalDecisionResult) \<times> 'db)" where
  "decideTx m drawn request approvalID now tx =
     bindR (findRecordByCommandID (am_eng m) (am_lib m) (dr_CommandID request) tx) (\<lambda>found.
     case found of
       None \<Rightarrow> rejected m drawn request approvalAuditNotFound None ErrApprovalCommandNotFound tx
     | Some stored \<Rightarrow>
         let record = sr_record stored; command = jr_Command record in
         if jr_Phase record \<noteq> phaseAwaitingApproval \<or> rc_State command \<noteq> RecoveryPending
            \<or> rc_ApprovalID command \<noteq> []
         then rejected m drawn request approvalAuditConflict None ErrApprovalConflict tx
         else if \<not> now < rc_ExpiresAt command \<or> \<not> now < dr_ExpiresAt request then
           bindR (transitionToExpired record) (\<lambda>expired.
             rejected m drawn request approvalAuditExpired
               (Some (putRecord (am_eng m) (am_lib m) (sr_key stored) expired))
               ErrApprovalCommandExpired tx)
         else if dr_ExpiresAt request > rc_ExpiresAt command
         then rejected m drawn request approvalAuditInvalid None ErrInvalidApprovalDecision tx
         else
           bindR (tx_Get (am_eng m) BucketApprovals (approvalRecordKey approvalID) tx) (\<lambda>used.
           if used \<noteq> None then Inl (Recovery ErrInvalidApprovalOptions)
           else
             bindR (tx_Get (am_eng m) BucketApprovals (approvalCommandKey (dr_CommandID request)) tx)
               (\<lambda>existing.
               if existing \<noteq> None
               then rejected m drawn request approvalAuditConflict None ErrApprovalConflict tx
               else acceptDecision m drawn request approvalID now stored tx)))"

definition joinOutcome :: "error + (error + 'a) \<Rightarrow> error + 'a" where
  "joinOutcome r = bindR r (\<lambda>x. x)"

definition recordRejected ::
    "'db ApprovalManager \<Rightarrow> ApprovalDecisionRequest \<Rightarrow> string \<Rightarrow> ('db, error option) prog" where
  "recordRejected m request reason =
     (if \<not> validAuditRequest request then Ret None
      else NewID (\<lambda>eventID. ClockNow (\<lambda>now.
        bindP (transact (Update (am_eng m) (\<lambda>tx.
            bindR (appendAudit m \<lparr>dw_eventID = eventID, dw_now = now\<rparr> request approvalAuditRejected reason None tx)
              (\<lambda>tx'. Inr ((), tx')))))
          (\<lambda>r. Ret (case r of Inl e \<Rightarrow> Some e | Inr _ \<Rightarrow> None)))))"

definition Decide ::
    "'db ApprovalManager \<Rightarrow> ApprovalDecisionRequest \<Rightarrow> ('db, error + ApprovalDecisionResult) prog" where
  "Decide m request =
     (if \<not> validApprovalDecisionRequest request then
        bindP (recordRejected m request approvalAuditInvalid) (\<lambda>r.
          Ret (Inl (case r of Some e \<Rightarrow> e | None \<Rightarrow> Recovery ErrInvalidApprovalDecision)))
      else ClockNow (\<lambda>t. orElse (managerNow t) (\<lambda>e. Ret (Inl e)) (\<lambda>now.
        NewID (\<lambda>id. orElse id (\<lambda>_. Ret (Inl (Recovery ErrInvalidApprovalOptions))) (\<lambda>approvalID.
          if \<not> validToken approvalID maxCommandIDLength
          then Ret (Inl (Recovery ErrInvalidApprovalOptions))
          else NewID (\<lambda>eventID. ClockNow (\<lambda>instant.
            bindP (transact (Update (am_eng m)
                (decideTx m \<lparr>dw_eventID = eventID, dw_now = instant\<rparr> request approvalID now)))
              (\<lambda>r. Ret (joinOutcome r)))))))))"

section \<open>Reading a decision\<close>

definition approvalDecodeOptions :: "Approval DecodeOptions" where
  "approvalDecodeOptions =
     \<lparr>do_MaxBytes = MaxDocumentBytes, do_SchemaVersion = SchemaVersionV1,
      do_Validate = Some validateApproval\<rparr>"

definition loadApprovalTx ::
    "'db ApprovalManager \<Rightarrow> string \<Rightarrow> 'db \<Rightarrow> error + Approval option" where
  "loadApprovalTx m commandID tx =
     bindR (tx_Get (am_eng m) BucketApprovals (approvalCommandKey commandID) tx) (\<lambda>indexed.
       case indexed of
         None \<Rightarrow> Inr None
       | Some approvalID \<Rightarrow>
           bindR (tx_Get (am_eng m) BucketApprovals (approvalRecordKey approvalID) tx) (\<lambda>present.
             case present of
               None \<Rightarrow> Inl (Recovery ErrCorruptJournal)
             | Some document \<Rightarrow>
                 (case Decode (jo_json (am_lib m)) (am_approval m) document approvalDecodeOptions of
                    Inl _ \<Rightarrow> Inl (Recovery ErrCorruptJournal)
                  | Inr appr \<Rightarrow>
                      if av_CommandID appr \<noteq> commandID \<or> av_ApprovalID appr \<noteq> approvalID
                      then Inl (Recovery ErrCorruptJournal)
                      else Inr (Some appr))))"

definition LoadApproval :: "'db ApprovalManager \<Rightarrow> string \<Rightarrow> 'db \<Rightarrow> error + Approval option" where
  "LoadApproval m commandID db =
     (if \<not> validToken commandID maxCommandIDLength then Inl (Recovery ErrInvalidApprovalDecision)
      else View (am_eng m) (loadApprovalTx m commandID) db)"

definition attachApproval :: "RecoveryCommand \<Rightarrow> Approval option \<Rightarrow> ExecutionState \<Rightarrow> ExecutionState" where
  "attachApproval command found state =
     (let revoked = state\<lparr>ex_PolicyInput := (ex_PolicyInput state)\<lparr>pi_Approval := Some zeroApproval,
            pi_ApprovalRevoked := True\<rparr>\<rparr> in
      case found of
        None \<Rightarrow> revoked
      | Some appr \<Rightarrow>
          if av_ApprovalID appr \<noteq> rc_ApprovalID command \<or> av_CommandID appr \<noteq> rc_CommandID command
          then revoked
          else state\<lparr>ex_PolicyInput := (ex_PolicyInput state)\<lparr>pi_Approval := Some appr\<rparr>\<rparr>)"

definition ApprovalStateSource ::
    "'db ApprovalManager \<Rightarrow> (RecoveryCommand \<Rightarrow> ('db, error + ExecutionState) prog)
      \<Rightarrow> RecoveryCommand \<Rightarrow> ('db, error + ExecutionState) prog" where
  "ApprovalStateSource m source command =
     bindP (source command) (\<lambda>loaded.
       orElse loaded (\<lambda>e. Ret (Inl e)) (\<lambda>state.
       if rc_ApprovalID command = [] then Ret (Inr state)
       else bindP (readOnly (LoadApproval m (rc_CommandID command))) (\<lambda>r.
         Ret (bindR r (\<lambda>found. Inr (attachApproval command found state))))))"

section \<open>What a decision writes\<close>

lemma approval_buckets [simp]: "BucketApprovals \<in> set dataBuckets" "BucketAudit \<in> set dataBuckets"
  by (simp_all add: dataBuckets_def initialDataBuckets_def)

lemma appendAudit_Inr:
  assumes "appendAudit m drawn request outcome reason mutation tx = Inr tx'"
  obtains eventID ev where "dw_eventID drawn = Inr eventID"
    "Append (am_eng m) (am_audit m) (approvalEvent (am_lib m) request eventID (dw_now drawn) outcome reason)
       mutation tx = Inr (ev, tx')"
  using assms
  by (auto simp: appendAudit_def managerNow_def result_simps split: sum.splits if_splits)

text \<open>The three ways the transaction of \<open>Decide\<close> commits: a rejection, an expiry, a decision.\<close>

definition decidable :: "'db ApprovalManager \<Rightarrow> ApprovalDecisionRequest \<Rightarrow> 'db \<Rightarrow> storedRecord \<Rightarrow> bool" where
  "decidable m request tx stored \<longleftrightarrow>
     findRecordByCommandID (am_eng m) (am_lib m) (dr_CommandID request) tx = Inr (Some stored)
     \<and> jr_Phase (sr_record stored) = phaseAwaitingApproval
     \<and> rc_State (jr_Command (sr_record stored)) = RecoveryPending
     \<and> rc_ApprovalID (jr_Command (sr_record stored)) = []"

lemma decideTx_cases:
  assumes "decideTx m drawn request approvalID now tx = Inr (out, tx')"
  shows "(\<exists>e reason. out = Inl e
       \<and> appendAudit m drawn request approvalAuditRejected reason None tx = Inr tx')
    \<or> (\<exists>stored expired. decidable m request tx stored \<and> transitionToExpired (sr_record stored) = Inr expired
       \<and> out = Inl (Recovery ErrApprovalCommandExpired)
       \<and> appendAudit m drawn request approvalAuditRejected approvalAuditExpired
           (Some (putRecord (am_eng m) (am_lib m) (sr_key stored) expired)) tx = Inr tx')
    \<or> (\<exists>stored result. decidable m request tx stored \<and> out = Inr result
       \<and> now < rc_ExpiresAt (jr_Command (sr_record stored)) \<and> now < dr_ExpiresAt request
       \<and> dr_ExpiresAt request \<le> rc_ExpiresAt (jr_Command (sr_record stored))
       \<and> tx_Get (am_eng m) BucketApprovals (approvalRecordKey approvalID) tx = Inr None
       \<and> tx_Get (am_eng m) BucketApprovals (approvalCommandKey (dr_CommandID request)) tx = Inr None
       \<and> acceptDecision m drawn request approvalID now stored tx = Inr (Inr result, tx'))"
proof -
  obtain found where found: "findRecordByCommandID (am_eng m) (am_lib m) (dr_CommandID request) tx = Inr found"
    using assms by (auto simp: decideTx_def result_simps)
  show ?thesis
  proof (cases found)
    case None
    with assms found show ?thesis by (auto simp: decideTx_def rejected_def result_simps)
  next
    case (Some stored)
    show ?thesis
    proof (cases "decidable m request tx stored")
      case False
      with assms found Some show ?thesis
        by (auto simp: decideTx_def decidable_def rejected_def result_simps Let_def)
    next
      case True
      with assms found Some show ?thesis
        by (auto simp: decideTx_def decidable_def rejected_def result_simps Let_def acceptDecision_def
            split: if_splits)
    qed
  qed
qed

lemma find_fold:
  assumes "foldR (findStep lib commandID) acc entries = Inr (Some stored)"
  shows "acc = Some stored \<or> (\<exists>document. (sr_key stored, document) \<in> set entries
    \<and> HasPrefix (sr_key stored) journalRecordPrefix
    \<and> decodeAt lib (sr_key stored) document = Inr (sr_record stored)
    \<and> rc_CommandID (jr_Command (sr_record stored)) = commandID)"
  using assms
proof (induction entries arbitrary: acc)
  case (Cons entry entries)
  obtain key document where entry: "entry = (key, document)" by (cases entry)
  with Cons.prems obtain acc' where acc': "findStep lib commandID acc key document = Inr acc'"
    "foldR (findStep lib commandID) acc' entries = Inr (Some stored)"
    by (auto simp: result_simps)
  from Cons.IH [OF acc'(2)] acc'(1) entry show ?case
    by (auto simp: findStep_def result_simps split: if_splits)
qed simp

lemma decidedRecord_Inr:
  assumes "decidedRecord a old = Inr new" and "jr_Phase old = phaseAwaitingApproval"
  shows "recordIdentity (jr_Command new) = recordIdentity (jr_Command old)"
    and "rc_ApprovalID (jr_Command new) = av_ApprovalID a"
    and "1 \<le> phaseLevel (jr_Phase new)"
  using assms
  by (auto simp: decidedRecord_def transitionToDenied_def moveTo_Inr recordIdentity_def Let_def
      split: if_splits)

lemma transitionToExpired_level:
  "transitionToExpired old = Inr new \<Longrightarrow> phaseLevel (jr_Phase new) = 5"
  by (auto simp: transitionToExpired_def moveTo_Inr split: if_splits)

context bbolt
begin

lemma findRecord_Some:
  assumes "findRecordByCommandID eng lib commandID db = Inr (Some stored)" and "inv db"
  shows "loadRecord eng lib (sr_key stored) db = Inr (Some (sr_record stored))"
    and "HasPrefix (sr_key stored) journalRecordPrefix"
    and "rc_CommandID (jr_Command (sr_record stored)) = commandID"
    and "recordKey lib (jr_Command (sr_record stored)) = sr_key stored"
proof -
  have bucket: "eng_bucket eng db (bucketName BucketCommandJournal)"
    and "foldR (findStep lib commandID) None (eng_each eng db (bucketName BucketCommandJournal))
      = Inr (Some stored)"
    using assms(1)
    by (auto simp: findRecordByCommandID_def tx_ForEach_def result_simps simp del: bucketName.simps)
  from find_fold [OF this(2)] obtain document where
    doc: "(sr_key stored, document) \<in> set (eng_each eng db (bucketName BucketCommandJournal))"
    "HasPrefix (sr_key stored) journalRecordPrefix"
    "decodeAt lib (sr_key stored) document = Inr (sr_record stored)"
    "rc_CommandID (jr_Command (sr_record stored)) = commandID"
    by blast
  show "HasPrefix (sr_key stored) journalRecordPrefix"
    "rc_CommandID (jr_Command (sr_record stored)) = commandID" by (fact doc)+
  show key: "recordKey lib (jr_Command (sr_record stored)) = sr_key stored"
    using doc(3) by (simp add: decodeAt_Inr)
  have "sr_key stored \<noteq> []" using key recordKey_nonempty(1) [of lib "jr_Command (sr_record stored)"] by simp
  with bucket doc(1,3) each_holds [OF assms(2), of "sr_key stored" document BucketCommandJournal]
  show "loadRecord eng lib (sr_key stored) db = Inr (Some (sr_record stored))"
    unfolding loadRecord_Some by blast
qed

lemma putRecord_raises:
  assumes "putRecord eng lib key record db = Inr db'" and "inv db" and "phase_codec lib"
    and "keyLevel eng lib db key \<le> phaseLevel (jr_Phase record)"
  shows "journal_mono eng lib db db'"
  unfolding journal_mono_def
  using putRecord_level [OF assms(1-3)] assms(4) by (metis order_refl order_trans)

end


text \<open>The manager on a store that behaves as bbolt does.\<close>

locale approving =
  bbolt "am_eng m" inv for m :: "'db ApprovalManager" and inv :: "'db \<Rightarrow> bool" +
  assumes codec: "phase_codec (am_lib m)"
begin

lemma writeDecision_ok:
  assumes "writeDecision m a document key new tx = Inr tx'" and "inv tx"
  obtains tx2 where "inv tx2" "putRecord (am_eng m) (am_lib m) key new tx2 = Inr tx'" "inv tx'"
    "holds (am_eng m) tx2 BucketApprovals = (holds (am_eng m) tx BucketApprovals)
       (approvalRecordKey (av_ApprovalID a) \<mapsto> document,
        approvalCommandKey (av_CommandID a) \<mapsto> av_ApprovalID a)"
    "\<And>c. c \<noteq> BucketApprovals \<Longrightarrow> c \<in> set dataBuckets \<Longrightarrow> same_bucket (am_eng m) c tx tx2"
    "eng_bucket (am_eng m) tx2 (bucketName BucketApprovals)"
proof -
  obtain tx1 tx2 where w: "tx_Put (am_eng m) BucketApprovals (approvalRecordKey (av_ApprovalID a)) document tx = Inr tx1"
    "tx_Put (am_eng m) BucketApprovals (approvalCommandKey (av_CommandID a)) (av_ApprovalID a) tx1 = Inr tx2"
    "putRecord (am_eng m) (am_lib m) key new tx2 = Inr tx'"
    using assms(1) by (auto simp: writeDecision_def result_simps)
  have i1: "inv tx1" by (rule tx_Put_ok(1) [OF w(1) assms(2)])
  have i2: "inv tx2" by (rule tx_Put_ok(1) [OF w(2) i1])
  have "holds (am_eng m) tx2 BucketApprovals = (holds (am_eng m) tx BucketApprovals)
       (approvalRecordKey (av_ApprovalID a) \<mapsto> document,
        approvalCommandKey (av_CommandID a) \<mapsto> av_ApprovalID a)"
    using tx_Put_holds [OF w(1) assms(2)] tx_Put_holds [OF w(2) i1] by simp
  moreover have "same_bucket (am_eng m) c tx tx2" if "c \<noteq> BucketApprovals" "c \<in> set dataBuckets" for c
    using same_bucket_trans [OF tx_Put_other [OF w(1) assms(2) that] tx_Put_other [OF w(2) i1 that]] .
  moreover have "eng_bucket (am_eng m) tx2 (bucketName BucketApprovals)"
    using w(1) tx_Put_ok(5) [OF w(1) assms(2)] tx_Put_ok(5) [OF w(2) i1]
    by (auto simp: tx_Put_def result_simps simp del: bucketName.simps)
  ultimately show ?thesis
    using that [OF i2 w(3) putRecord_ok(1) [OF w(3) i2]] by blast
qed

text \<open>The transaction of \<open>Decide\<close> moves no command back.\<close>

lemma rejection_mono:
  assumes "appendAudit m drawn request outcome reason None tx = Inr tx'" and "inv tx"
  shows "inv tx' \<and> (\<forall>c. c \<noteq> BucketAudit \<longrightarrow> c \<in> set dataBuckets \<longrightarrow> same_bucket (am_eng m) c tx tx')"
proof -
  obtain eventID ev where "Append (am_eng m) (am_audit m)
      (approvalEvent (am_lib m) request eventID (dw_now drawn) outcome reason) None tx = Inr (ev, tx')"
    by (rule appendAudit_Inr [OF assms(1)])
  then show ?thesis
    by (rule Append_writes [OF _ assms(2)]) auto
qed

lemma expiry_mono:
  assumes "decidable m request tx stored" and "transitionToExpired (sr_record stored) = Inr expired"
    and "appendAudit m drawn request outcome reason
      (Some (putRecord (am_eng m) (am_lib m) (sr_key stored) expired)) tx = Inr tx'" and "inv tx"
  shows "inv tx' \<and> journal_mono (am_eng m) (am_lib m) tx tx'"
proof -
  obtain eventID ev where app: "Append (am_eng m) (am_audit m)
      (approvalEvent (am_lib m) request eventID (dw_now drawn) outcome reason)
      (Some (putRecord (am_eng m) (am_lib m) (sr_key stored) expired)) tx = Inr (ev, tx')"
    by (rule appendAudit_Inr [OF assms(3)])
  obtain db1 where w: "putRecord (am_eng m) (am_lib m) (sr_key stored) expired tx = Inr db1" "inv tx'"
    "same_bucket (am_eng m) BucketCommandJournal db1 tx'"
    by (rule Append_writes [OF app assms(4)]) (auto dest: putRecord_ok(1) [OF _ assms(4)])
  have find: "findRecordByCommandID (am_eng m) (am_lib m) (dr_CommandID request) tx = Inr (Some stored)"
    and phase: "jr_Phase (sr_record stored) = phaseAwaitingApproval"
    using assms(1) unfolding decidable_def by blast+
  have "keyLevel (am_eng m) (am_lib m) tx (sr_key stored) \<le> phaseLevel (jr_Phase expired)"
    using loadRecord_level(1) [OF findRecord_Some(1) [OF find assms(4)]] phase
      transitionToExpired_level [OF assms(2)] by simp
  from journal_mono_trans [OF putRecord_raises [OF w(1) assms(4) codec this] same_bucket_mono [OF w(3)]] w(2)
  show ?thesis by blast
qed

lemma accepted_writes:
  assumes "acceptDecision m drawn request approvalID now stored tx = Inr (Inr result, tx')"
    and "decidable m request tx stored" and "inv tx"
  obtains document where "dx_Approval result = newApproval request approvalID now (sr_record stored)"
    "validateApproval (dx_Approval result) = None" "inv tx'"
    "jt_marshal (am_approval m) (dx_Approval result) = Inr document"
    "journal_mono (am_eng m) (am_lib m) tx tx'"
    "holds (am_eng m) tx' BucketApprovals = (holds (am_eng m) tx BucketApprovals)
       (approvalRecordKey approvalID \<mapsto> document, approvalCommandKey (dr_CommandID request) \<mapsto> approvalID)"
    "eng_bucket (am_eng m) tx' (bucketName BucketApprovals)"
proof -
  have find: "findRecordByCommandID (am_eng m) (am_lib m) (dr_CommandID request) tx = Inr (Some stored)"
    and phase: "jr_Phase (sr_record stored) = phaseAwaitingApproval"
    using assms(2) unfolding decidable_def by blast+
  define a where "a = newApproval request approvalID now (sr_record stored)"
  obtain new document where steps: "validateApproval a = None" "decidedRecord a (sr_record stored) = Inr new"
    "jt_marshal (am_approval m) a = Inr document"
    "appendAudit m drawn request approvalAuditAccepted (dr_ReasonCode request)
       (Some (writeDecision m a document (sr_key stored) new)) tx = Inr tx'"
    "result = \<lparr>dx_Approval = a, dx_Command = jr_Command new\<rparr>"
    using assms(1) by (auto simp: acceptDecision_def Let_def a_def result_simps split: if_splits)
  obtain eventID ev where app: "Append (am_eng m) (am_audit m)
      (approvalEvent (am_lib m) request eventID (dw_now drawn) approvalAuditAccepted (dr_ReasonCode request))
      (Some (writeDecision m a document (sr_key stored) new)) tx = Inr (ev, tx')"
    by (rule appendAudit_Inr [OF steps(4)])
  obtain db1 where w: "writeDecision m a document (sr_key stored) new tx = Inr db1" "inv tx'"
    "same_bucket (am_eng m) BucketCommandJournal db1 tx'" "same_bucket (am_eng m) BucketApprovals db1 tx'"
    by (rule Append_writes [OF app assms(3)]) (auto elim: writeDecision_ok [OF _ assms(3)])
  obtain tx2 where d: "inv tx2" "putRecord (am_eng m) (am_lib m) (sr_key stored) new tx2 = Inr db1"
    "holds (am_eng m) tx2 BucketApprovals = (holds (am_eng m) tx BucketApprovals)
       (approvalRecordKey (av_ApprovalID a) \<mapsto> document,
        approvalCommandKey (av_CommandID a) \<mapsto> av_ApprovalID a)"
    "same_bucket (am_eng m) BucketCommandJournal tx tx2" "eng_bucket (am_eng m) tx2 (bucketName BucketApprovals)"
    by (rule writeDecision_ok [OF w(1) assms(3)]) (auto simp del: bucketName.simps)
  have ids: "av_ApprovalID a = approvalID" "av_CommandID a = dr_CommandID request"
    using findRecord_Some(3) [OF find assms(3)] by (simp_all add: a_def newApproval_def)
  have "keyLevel (am_eng m) (am_lib m) tx (sr_key stored) = 1"
    using loadRecord_level(1) [OF findRecord_Some(1) [OF find assms(3)]] phase by simp
  then have "keyLevel (am_eng m) (am_lib m) tx2 (sr_key stored) \<le> phaseLevel (jr_Phase new)"
    using d(4) decidedRecord_Inr(3) [OF steps(2) phase] by (simp add: same_bucket_def keyLevel_def)
  from journal_mono_trans [OF same_bucket_mono [OF d(4)] journal_mono_trans [OF
      putRecord_raises [OF d(2,1) codec this] same_bucket_mono [OF w(3)]]]
  have mono: "journal_mono (am_eng m) (am_lib m) tx tx'" .
  have "holds (am_eng m) tx' BucketApprovals = holds (am_eng m) tx2 BucketApprovals"
    using w(4) putRecord_ok(5) [OF d(2,1), of BucketApprovals] by (simp add: same_bucket_def)
  moreover have "eng_bucket (am_eng m) tx' (bucketName BucketApprovals)"
    using w(4) d(5) putRecord_ok(6) [OF d(2,1)] by (simp add: same_bucket_def del: bucketName.simps)
  ultimately show ?thesis
    using d(3) ids steps mono w(2) by (intro that) (simp_all add: a_def del: bucketName.simps)
qed

lemma decideTx_effect:
  assumes "decideTx m drawn request approvalID now tx = Inr (out, tx')" and "inv tx"
  shows "inv tx'" and "journal_mono (am_eng m) (am_lib m) tx tx'"
    and "\<forall>e. out = Inl e \<longrightarrow> holds (am_eng m) tx' BucketApprovals = holds (am_eng m) tx BucketApprovals"
proof -
  have "inv tx' \<and> journal_mono (am_eng m) (am_lib m) tx tx' \<and>
    (\<forall>e. out = Inl e \<longrightarrow> holds (am_eng m) tx' BucketApprovals = holds (am_eng m) tx BucketApprovals)"
    using decideTx_cases [OF assms(1)]
  proof (elim disjE exE conjE)
    fix e reason
    assume "appendAudit m drawn request approvalAuditRejected reason None tx = Inr tx'"
    from rejection_mono [OF this assms(2)] have "inv tx'"
      "same_bucket (am_eng m) BucketCommandJournal tx tx'" "same_bucket (am_eng m) BucketApprovals tx tx'"
      by simp_all
    then show ?thesis by (simp add: same_bucket_mono) (simp add: same_bucket_def)
  next
    fix stored expired
    assume a: "decidable m request tx stored" "transitionToExpired (sr_record stored) = Inr expired"
      "appendAudit m drawn request approvalAuditRejected approvalAuditExpired
           (Some (putRecord (am_eng m) (am_lib m) (sr_key stored) expired)) tx = Inr tx'"
    obtain eventID ev where app: "Append (am_eng m) (am_audit m)
        (approvalEvent (am_lib m) request eventID (dw_now drawn) approvalAuditRejected approvalAuditExpired)
        (Some (putRecord (am_eng m) (am_lib m) (sr_key stored) expired)) tx = Inr (ev, tx')"
      by (rule appendAudit_Inr [OF a(3)])
    obtain db1 where "putRecord (am_eng m) (am_lib m) (sr_key stored) expired tx = Inr db1"
      "same_bucket (am_eng m) BucketApprovals db1 tx'"
      by (rule Append_writes [OF app assms(2)]) (auto dest: putRecord_ok(1) [OF _ assms(2)])
    then have "holds (am_eng m) tx' BucketApprovals = holds (am_eng m) tx BucketApprovals"
      using putRecord_ok(5) [OF _ assms(2), of _ _ _ _ BucketApprovals] by (simp add: same_bucket_def)
    with expiry_mono [OF a assms(2)] show ?thesis by blast
  next
    fix stored result
    assume a: "decidable m request tx stored" "out = Inr result"
      "acceptDecision m drawn request approvalID now stored tx = Inr (Inr result, tx')"
    show ?thesis by (rule accepted_writes [OF a(3,1) assms(2)]) (simp add: a(2))
  qed
  then show "inv tx'" "journal_mono (am_eng m) (am_lib m) tx tx'"
    "\<forall>e. out = Inl e \<longrightarrow> holds (am_eng m) tx' BucketApprovals = holds (am_eng m) tx BucketApprovals"
    by blast+
qed

lemma decideTx_accepted:
  assumes "decideTx m drawn request approvalID now tx = Inr (Inr result, tx')" and "inv tx"
  obtains stored document where "decidable m request tx stored"
    "dx_Approval result = newApproval request approvalID now (sr_record stored)"
    "validateApproval (dx_Approval result) = None"
    "jt_marshal (am_approval m) (dx_Approval result) = Inr document"
    "now < rc_ExpiresAt (jr_Command (sr_record stored))"
    "holds (am_eng m) tx BucketApprovals (approvalRecordKey approvalID) = None"
    "holds (am_eng m) tx BucketApprovals (approvalCommandKey (dr_CommandID request)) = None"
    "holds (am_eng m) tx' BucketApprovals = (holds (am_eng m) tx BucketApprovals)
       (approvalRecordKey approvalID \<mapsto> document, approvalCommandKey (dr_CommandID request) \<mapsto> approvalID)"
    "eng_bucket (am_eng m) tx' (bucketName BucketApprovals)"
proof -
  obtain stored where a: "decidable m request tx stored"
    "now < rc_ExpiresAt (jr_Command (sr_record stored))"
    "tx_Get (am_eng m) BucketApprovals (approvalRecordKey approvalID) tx = Inr None"
    "tx_Get (am_eng m) BucketApprovals (approvalCommandKey (dr_CommandID request)) tx = Inr None"
    "acceptDecision m drawn request approvalID now stored tx = Inr (Inr result, tx')"
    using decideTx_cases [OF assms(1)] by auto
  from a(3,4) have free:
    "holds (am_eng m) tx BucketApprovals (approvalRecordKey approvalID) = None"
    "holds (am_eng m) tx BucketApprovals (approvalCommandKey (dr_CommandID request)) = None"
    by (auto simp: tx_Get_def result_simps split: if_splits)
  show ?thesis
    by (rule accepted_writes [OF a(5,1) assms(2)]) (rule that [OF a(1) _ _ _ a(2) free])
qed

lemma tame_decide:
  "harmless (am_eng m) (am_lib m) inv
     (transact (Update (am_eng m) (decideTx m drawn request approvalID now)))"
proof (rule harmless_transact)
  fix db
  assume inv: "inv db"
  let ?u = "Update (am_eng m) (decideTx m drawn request approvalID now) db"
  show "inv (snd ?u) \<and> journal_mono (am_eng m) (am_lib m) db (snd ?u)"
  proof (cases "fst ?u")
    case (Inl e)
    then have "?u = (Inl e, snd ?u)" by (simp add: prod_eq_iff)
    from Update_Inl [OF this] inv show ?thesis by simp
  next
    case (Inr out)
    then have "?u = (Inr out, snd ?u)" by (simp add: prod_eq_iff)
    from decideTx_effect(1,2) [OF Update_Inr [OF this] inv] show ?thesis by blast
  qed
qed

lemma tame_rejection:
  "harmless (am_eng m) (am_lib m) inv (transact (Update (am_eng m) (\<lambda>tx.
     bindR (appendAudit m drawn request outcome reason None tx) (\<lambda>tx'. Inr ((), tx')))))"
proof (rule harmless_transact)
  fix db
  assume inv: "inv db"
  let ?u = "Update (am_eng m) (\<lambda>tx.
     bindR (appendAudit m drawn request outcome reason None tx) (\<lambda>tx'. Inr ((), tx'))) db"
  show "inv (snd ?u) \<and> journal_mono (am_eng m) (am_lib m) db (snd ?u)"
  proof (cases "fst ?u")
    case (Inl e)
    then have "?u = (Inl e, snd ?u)" by (simp add: prod_eq_iff)
    from Update_Inl [OF this] inv show ?thesis by simp
  next
    case (Inr x)
    then have "?u = (Inr x, snd ?u)" by (simp add: prod_eq_iff)
    from Update_Inr [OF this] have "appendAudit m drawn request outcome reason None db = Inr (snd ?u)"
      by (auto simp: result_simps)
    from rejection_mono [OF this inv] show ?thesis by (simp add: same_bucket_mono)
  qed
qed

lemma tame_recordRejected: "harmless (am_eng m) (am_lib m) inv (recordRejected m request reason)"
  by (simp add: recordRejected_def harmless_bindP tame_rejection)

lemma tame_Decide: "harmless (am_eng m) (am_lib m) inv (Decide m request)"
  by (simp add: Decide_def harmless_bindP tame_recordRejected tame_decide orElse_def split: sum.split)

end

text \<open>The decorated source keeps the contract of a state source.\<close>

lemma ApprovalStateSource_proper:
  assumes "state_source eng lib dbinv load"
  shows "state_source eng lib dbinv (ApprovalStateSource m load)"
proof
  fix c
  show "harmless eng lib dbinv (ApprovalStateSource m load c)"
    unfolding ApprovalStateSource_def
    by (intro harmless_bindP state_source.load_harmless [OF assms])
      (simp add: orElse_def harmless_bindP split: sum.split)
  show "noExecute (ApprovalStateSource m load c)"
    unfolding ApprovalStateSource_def
    by (intro noExecute_bindP state_source.load_noExecute [OF assms])
      (simp add: orElse_def noExecute_bindP split: sum.split)
qed

interpretation approved: state_source eng lib dbinv "ApprovalStateSource m externalSource" for eng lib dbinv m
  by (rule ApprovalStateSource_proper) (rule external.state_source_axioms)

section \<open>Approvals are immutable\<close>

lemma final_orElse:
  "final (orElse r h f) db db' out \<longleftrightarrow>
     (\<exists>e. r = Inl e \<and> final (h e) db db' out) \<or> (\<exists>x. r = Inr x \<and> final (f x) db db' out)"
  by (cases r) simp_all

lemma Decide_steps:
  assumes "final (Decide m request) db db' out"
  shows "db' = db
    \<or> (\<exists>drawn reason x. Update (am_eng m) (\<lambda>tx.
          bindR (appendAudit m drawn request approvalAuditRejected reason None tx) (\<lambda>tx'. Inr ((), tx'))) db
        = (x, db'))
    \<or> (\<exists>drawn approvalID now x. Update (am_eng m) (decideTx m drawn request approvalID now) db = (x, db'))"
  using assms
  by (auto simp: Decide_def recordRejected_def final_bindP final_orElse split: if_splits)

lemma Decide_accepted:
  assumes "final (Decide m request) db db' (Inr result)"
  shows "\<exists>drawn approvalID now. validToken approvalID maxCommandIDLength \<and> now \<noteq> 0
    \<and> validApprovalDecisionRequest request
    \<and> decideTx m drawn request approvalID now db = Inr (Inr result, db')"
proof -
  obtain drawn approvalID now r where run: "validToken approvalID maxCommandIDLength" "now \<noteq> 0"
    "validApprovalDecisionRequest request"
    "Update (am_eng m) (decideTx m drawn request approvalID now) db = (r, db')" "Inr result = joinOutcome r"
    using assms
    by (auto simp: Decide_def managerNow_def final_bindP final_orElse split: if_splits)
  from run(5) have "r = Inr (Inr result)" by (cases r) (simp_all add: joinOutcome_def)
  with run show ?thesis by (blast dest: Update_Inr)
qed

context approving
begin

lemma Decide_kept:
  assumes "final (Decide m request) db db' out" and "inv db"
  shows "inv db'" and "holds (am_eng m) db BucketApprovals \<subseteq>\<^sub>m holds (am_eng m) db' BucketApprovals"
proof -
  have "inv db' \<and> holds (am_eng m) db BucketApprovals \<subseteq>\<^sub>m holds (am_eng m) db' BucketApprovals"
    using Decide_steps [OF assms(1)]
  proof (elim disjE exE)
    assume "db' = db"
    with assms(2) show ?thesis by simp
  next
    fix drawn reason x
    assume u: "Update (am_eng m) (\<lambda>tx. bindR (appendAudit m drawn request approvalAuditRejected reason None tx)
        (\<lambda>tx'. Inr ((), tx'))) db = (x, db')"
    show ?thesis
    proof (cases x)
      case (Inl e)
      with Update_Inl [OF u [unfolded Inl]] assms(2) show ?thesis by simp
    next
      case (Inr y)
      from Update_Inr [OF u [unfolded Inr]]
      have "appendAudit m drawn request approvalAuditRejected reason None db = Inr db'"
        by (auto simp: result_simps)
      from rejection_mono [OF this assms(2)]
      have "inv db'" "same_bucket (am_eng m) BucketApprovals db db'" by simp_all
      then show ?thesis by (simp add: same_bucket_def)
    qed
  next
    fix drawn approvalID now x
    assume u: "Update (am_eng m) (decideTx m drawn request approvalID now) db = (x, db')"
    show ?thesis
    proof (cases x)
      case (Inl e)
      with Update_Inl [OF u [unfolded Inl]] assms(2) show ?thesis by simp
    next
      case (Inr y)
      note tx = Update_Inr [OF u [unfolded Inr]]
      have kept: "inv db'" by (rule decideTx_effect(1) [OF tx assms(2)])
      show ?thesis
      proof (cases y)
        case (Inl e)
        with kept decideTx_effect(3) [OF tx assms(2)] show ?thesis by simp
      next
        case accepted: (Inr result)
        show ?thesis
          by (rule decideTx_accepted [OF tx [unfolded accepted] assms(2)])
            (auto simp: kept map_le_def)
      qed
    qed
  qed
  then show "inv db'" "holds (am_eng m) db BucketApprovals \<subseteq>\<^sub>m holds (am_eng m) db' BucketApprovals"
    by blast+
qed

lemma accepted_once:
  assumes "final (Decide m request) db db' (Inr result)" and "inv db"
  shows "holds (am_eng m) db BucketApprovals (approvalCommandKey (dr_CommandID request)) = None"
    and "holds (am_eng m) db' BucketApprovals (approvalCommandKey (dr_CommandID request))
      = Some (av_ApprovalID (dx_Approval result))"
proof -
  obtain drawn approvalID now where tx: "decideTx m drawn request approvalID now db = Inr (Inr result, db')"
    using Decide_accepted [OF assms(1)] by blast
  show "holds (am_eng m) db BucketApprovals (approvalCommandKey (dr_CommandID request)) = None"
    by (rule decideTx_accepted [OF tx assms(2)])
  show "holds (am_eng m) db' BucketApprovals (approvalCommandKey (dr_CommandID request))
      = Some (av_ApprovalID (dx_Approval result))"
    by (rule decideTx_accepted [OF tx assms(2)]) (simp add: newApproval_def)
qed

end

section \<open>Every decision is audited\<close>

context approving
begin

lemma neutral_put: "audit_neutral (am_eng m) inv (Some (putRecord (am_eng m) (am_lib m) key new))"
  unfolding audit_neutral_def
  using putRecord_ok(1) putRecord_ok(5) [where c = BucketAudit] by auto

lemma neutral_write: "audit_neutral (am_eng m) inv (Some (writeDecision m a document key new))"
  unfolding audit_neutral_def
proof (intro allI impI, elim conjE)
  fix mutation db db'
  assume a: "Some (writeDecision m a document key new) = Some mutation" "inv db" "mutation db = Inr db'"
  then have w: "writeDecision m a document key new db = Inr db'" by simp
  show "inv db' \<and> same_bucket (am_eng m) BucketAudit db db'"
  proof (rule writeDecision_ok [OF w a(2)])
    fix tx2
    assume t: "inv tx2" "putRecord (am_eng m) (am_lib m) key new tx2 = Inr db'" "inv db'"
      "\<And>c. c \<noteq> BucketApprovals \<Longrightarrow> c \<in> set dataBuckets \<Longrightarrow> same_bucket (am_eng m) c db tx2"
    have "same_bucket (am_eng m) BucketAudit db tx2" by (rule t(4)) simp_all
    from same_bucket_trans [OF this putRecord_ok(5) [OF t(2,1), of BucketAudit]] t(3)
    show ?thesis by simp
  qed
qed

lemma appendAudit_history:
  assumes "appendAudit m drawn request outcome reason change db = Inr db'" and "inv db"
    and "audit_lib_ok (am_audit m)" and "audit_neutral (am_eng m) inv change"
    and "history (am_eng m) (am_audit m) db events"
    and "dw_eventID drawn = Inr eventID" and "eventID \<notin> set (map ae_EventID events)"
  shows "\<exists>ev. history (am_eng m) (am_audit m) db' (events @ [ev])
    \<and> ev = (approvalEvent (am_lib m) request eventID (dw_now drawn) outcome reason)
         \<lparr>ae_PreviousDigest := lastDigest [] events, ae_Digest := ae_Digest ev\<rparr>"
proof -
  obtain ev where app: "Append (am_eng m) (am_audit m)
      (approvalEvent (am_lib m) request eventID (dw_now drawn) outcome reason) change db = Inr (ev, db')"
    by (rule appendAudit_Inr [OF assms(1)]) (simp add: assms(6))
  note chain = Append_chained [OF app assms(2-5)]
  have "ae_EventID ev = eventID" by (subst chain(4)) (simp add: approvalEvent_def)
  then have "distinct (map ae_EventID (events @ [ev]))"
    using assms(5,7) by (simp add: history_def)
  with chain(2,3) have "history (am_eng m) (am_audit m) db' (events @ [ev])"
    unfolding history_def by blast
  with chain(4) show ?thesis by blast
qed

text \<open>The audit entry of a decision, whatever its outcome.\<close>

lemma decideTx_audit:
  assumes "decideTx m drawn request approvalID now db = Inr (out, db')"
  shows "\<exists>reason change. audit_neutral (am_eng m) inv change
    \<and> appendAudit m drawn request
        (case out of Inl _ \<Rightarrow> approvalAuditRejected | Inr _ \<Rightarrow> approvalAuditAccepted) reason change db = Inr db'"
  using decideTx_cases [OF assms]
proof (elim disjE exE conjE)
  fix e reason
  assume "out = Inl e" "appendAudit m drawn request approvalAuditRejected reason None db = Inr db'"
  moreover have "audit_neutral (am_eng m) inv None" by (simp add: audit_neutral_def)
  ultimately show ?thesis by auto
next
  fix stored expired
  assume "out = Inl (Recovery ErrApprovalCommandExpired)"
    "appendAudit m drawn request approvalAuditRejected approvalAuditExpired
       (Some (putRecord (am_eng m) (am_lib m) (sr_key stored) expired)) db = Inr db'"
  with neutral_put show ?thesis by (metis sum.case(1))
next
  fix stored result
  assume a: "out = Inr result" "acceptDecision m drawn request approvalID now stored db = Inr (Inr result, db')"
  from a(2) obtain a document new where "appendAudit m drawn request approvalAuditAccepted
      (dr_ReasonCode request) (Some (writeDecision m a document (sr_key stored) new)) db = Inr db'"
    by (auto simp: acceptDecision_def Let_def result_simps split: if_splits)
  with a(1) neutral_write show ?thesis by (metis sum.case(2))
qed

end

section \<open>A concrete manager\<close>

definition demoAwaiting :: "string \<Rightarrow> journalRecord" where
  "demoAwaiting approvalID =
     demoRecord\<lparr>jr_Command := demoCommand\<lparr>rc_RiskTier := RiskHigh, rc_ApprovalID := approvalID\<rparr>,
       jr_Phase := phaseAwaitingApproval\<rparr>"

definition demoApprovalLib :: journal_lib where
  "demoApprovalLib =
     \<lparr>jo_json = tableLib,
      jo_record = tableType [(demoAwaiting [], ''awaiting''), (demoAwaiting ''a1'', ''granted'')],
      jo_sha = \<lambda>s. s\<rparr>"

definition demoDecision :: ApprovalDecisionRequest where
  "demoDecision =
     \<lparr>dr_CommandID = ''c'', dr_Decision = ApprovalGranted, dr_ActorIdentity = ''uid:0'',
      dr_RequestID = ''q'', dr_ReasonCode = ''ok'', dr_ExpiresAt = 50\<rparr>"

definition demoGrant :: Approval where
  "demoGrant = newApproval demoDecision ''a1'' 2 (demoAwaiting [])"

definition demoGrantEvent :: AuditEvent where
  "demoGrantEvent = approvalEvent demoApprovalLib demoDecision ''e'' 3 approvalAuditAccepted ''ok''"

definition demoManager :: "mem_db ApprovalManager" where
  "demoManager =
     \<lparr>am_eng = mem_engine, am_lib = demoApprovalLib,
      am_audit =
        \<lparr>al_json = tableLib, al_event = tableType [(demoGrantEvent\<lparr>ae_Digest := demoDigest\<rparr>, ''event'')],
         al_canonical = (\<lambda>c. Inr (ce_EventID c)), al_format = Itoa, al_sha = (\<lambda>_. demoDigest)\<rparr>,
      am_approval = tableType [(demoGrant, ''grant'')]\<rparr>"

definition demoWaiting :: mem_db where
  "demoWaiting =
     [(''approvals'', []), (''audit'', []),
      (''command_journal'', [(recordKey demoApprovalLib demoCommand, ''awaiting'')])]"

definition demoGranted :: mem_db where
  "demoGranted =
     [(''approvals'', [(''command/c'', ''a1''), (''record/a1'', ''grant'')]),
      (''audit'', [(eventKey 0, ''event'')]),
      (''command_journal'', [(recordKey demoApprovalLib demoCommand, ''granted'')])]"

definition demoDecided :: ApprovalDecisionResult where
  "demoDecided = \<lparr>dx_Approval = demoGrant, dx_Command = jr_Command (demoAwaiting ''a1'')\<rparr>"

lemma demoApprovalLib_codec: "phase_codec demoApprovalLib"
proof -
  have "json_codec tableLib (tableType [(demoAwaiting [], ''awaiting''), (demoAwaiting ''a1'', ''granted'')])
      jr_SchemaVersion (\<lambda>_. True)"
    by (rule tableType_codec) (auto simp: demoAwaiting_def demoRecord_def)
  then show ?thesis unfolding phase_codec_def json_codec_def demoApprovalLib_def by fastforce
qed

interpretation local_approvals: approving demoManager mem_inv
proof -
  show "approving demoManager mem_inv"
    unfolding approving_def approving_axioms_def
    using mem.bbolt_axioms demoApprovalLib_codec by (simp add: demoManager_def)
qed

lemma demoWaiting_inv: "mem_inv demoWaiting"
  by (simp add: mem_inv_def keys_sorted_def demoWaiting_def)

lemma demo_decideTx:
  "decideTx demoManager \<lparr>dw_eventID = Inr ''e'', dw_now = 3\<rparr> demoDecision ''a1'' 2 demoWaiting
     = Inr (Inr demoDecided, demoGranted)"
  by code_simp

lemma demo_Decide: "final (Decide demoManager demoDecision) demoWaiting demoGranted (Inr demoDecided)"
proof (rule replay_final)
  have "validApprovalDecisionRequest demoDecision" "validToken ''a1'' maxCommandIDLength" by code_simp+
  moreover have "Update (am_eng demoManager)
      (decideTx demoManager \<lparr>dw_eventID = Inr ''e'', dw_now = 3\<rparr> demoDecision ''a1'' 2) demoWaiting
    = (Inr (Inr demoDecided), demoGranted)"
    by (simp add: Update_def dbUpdate_def demo_decideTx normalized_def demoManager_def [THEN arg_cong, of am_eng])
  ultimately show "replay (Decide demoManager demoDecision)
      [EvClock 2, EvNewID (Inr ''a1''), EvNewID (Inr ''e''), EvClock 3, EvTransaction] demoWaiting
    = Some (demoGranted, Returned (Inr demoDecided))"
    by (simp add: Decide_def managerNow_def transact_def joinOutcome_def)
qed


section \<open>Properties\<close>

text \<open>
  C6: at most one decision. Once \<open>Decide\<close> has recorded a grant or a denial for a command, no
  later call for the same command succeeds, with any identity, expiry or decision, as long as
  the recorded approvals are still in the store.
\<close>

theorem at_most_one_decision:
  assumes "bbolt (am_eng m) dbinv" and "phase_codec (am_lib m)"
    and "dbinv db" and "final (Decide m first) db db1 (Inr result)"
    and "dbinv db2" and "holds (am_eng m) db1 BucketApprovals \<subseteq>\<^sub>m holds (am_eng m) db2 BucketApprovals"
    and "dr_CommandID second = dr_CommandID first" and "final (Decide m second) db2 db3 out"
  shows "\<exists>e. out = Inl e"
proof (rule ccontr)
  assume "\<nexists>e. out = Inl e"
  then obtain again where "out = Inr again" by (cases out) auto
  have m: "approving m dbinv"
    using assms(1,2) by (simp add: approving_def approving_axioms_def)
  have "holds (am_eng m) db2 BucketApprovals (approvalCommandKey (dr_CommandID first)) = None"
    using approving.accepted_once(1) [OF m assms(8) [unfolded \<open>out = Inr again\<close>] assms(5)] assms(7) by simp
  moreover have "holds (am_eng m) db1 BucketApprovals (approvalCommandKey (dr_CommandID first))
      = Some (av_ApprovalID (dx_Approval result))"
    by (rule approving.accepted_once(2) [OF m assms(4,3)])
  ultimately show False using assms(6) by (auto simp: map_le_def dom_def)
qed

theorem at_most_one_decision_witness:
  "final (Decide demoManager (demoDecision\<lparr>dr_Decision := ApprovalDenied\<rparr>)) demoGranted demoGranted
     (Inl (Recovery ErrInvalidApprovalOptions))
   \<and> (\<exists>e. (Inl (Recovery ErrInvalidApprovalOptions) :: error + ApprovalDecisionResult) = Inl e)"
proof -
  have m: "bbolt (am_eng demoManager) mem_inv" "phase_codec (am_lib demoManager)"
    using mem.bbolt_axioms demoApprovalLib_codec by (simp_all add: demoManager_def)
  have again: "final (Decide demoManager (demoDecision\<lparr>dr_Decision := ApprovalDenied\<rparr>)) demoGranted demoGranted
     (Inl (Recovery ErrInvalidApprovalOptions))"
  proof (rule replay_final)
    show "replay (Decide demoManager (demoDecision\<lparr>dr_Decision := ApprovalDenied\<rparr>))
        [EvClock 4, EvNewID (Inr ''a2''), EvNewID (Inl DeadlineExceeded), EvClock 5, EvTransaction] demoGranted
      = Some (demoGranted, Returned (Inl (Recovery ErrInvalidApprovalOptions)))"
      by code_simp
  qed
  have same: "dr_CommandID (demoDecision\<lparr>dr_Decision := ApprovalDenied\<rparr>) = dr_CommandID demoDecision" by simp
  from at_most_one_decision [OF m demoWaiting_inv demo_Decide
      local_approvals.Decide_kept(1) [OF demo_Decide demoWaiting_inv] map_le_refl same again] again
  show ?thesis by blast
qed



text \<open>
  C7: every decision is audited in the same transaction. When the transaction of \<open>Decide\<close>
  commits, with a decision or with a recorded rejection, the audit history grows by exactly
  one event, which names the authenticated actor, the command's aggregate and the action, and
  is marked accepted if and only if the decision was recorded.
\<close>

theorem decision_audited:
  assumes "bbolt (am_eng m) dbinv" and "phase_codec (am_lib m)" and "dbinv db"
    and "audit_lib_ok (am_audit m)" and "history (am_eng m) (am_audit m) db events"
    and "dw_eventID drawn = Inr eventID" and "eventID \<notin> set (map ae_EventID events)"
    and "decideTx m drawn request approvalID now db = Inr (out, db')"
  shows "\<exists>ev. history (am_eng m) (am_audit m) db' (events @ [ev])
    \<and> ae_EventID ev = eventID \<and> ae_ActorIdentity ev = dr_ActorIdentity request
    \<and> ae_AggregateID ev = approvalAggregateID (am_lib m) (dr_CommandID request)
    \<and> ae_Action ev = approvalAuditAction
    \<and> ae_Result ev = (case out of Inl _ \<Rightarrow> approvalAuditRejected | Inr _ \<Rightarrow> approvalAuditAccepted)"
proof -
  have m: "approving m dbinv"
    using assms(1,2) by (simp add: approving_def approving_axioms_def)
  obtain reason change where app: "audit_neutral (am_eng m) dbinv change"
    "appendAudit m drawn request
        (case out of Inl _ \<Rightarrow> approvalAuditRejected | Inr _ \<Rightarrow> approvalAuditAccepted) reason change db = Inr db'"
    using approving.decideTx_audit [OF m assms(8)] by blast
  obtain ev where ev: "history (am_eng m) (am_audit m) db' (events @ [ev])"
    "ev = (approvalEvent (am_lib m) request eventID (dw_now drawn)
        (case out of Inl _ \<Rightarrow> approvalAuditRejected | Inr _ \<Rightarrow> approvalAuditAccepted) reason)
      \<lparr>ae_PreviousDigest := lastDigest [] events, ae_Digest := ae_Digest ev\<rparr>"
    using approving.appendAudit_history [OF m app(2) assms(3,4) app(1) assms(5-7)] by blast
  have fields: "ae_EventID ev = eventID" "ae_ActorIdentity ev = dr_ActorIdentity request"
    "ae_AggregateID ev = approvalAggregateID (am_lib m) (dr_CommandID request)"
    "ae_Action ev = approvalAuditAction"
    "ae_Result ev = (case out of Inl _ \<Rightarrow> approvalAuditRejected | Inr _ \<Rightarrow> approvalAuditAccepted)"
    by (subst ev(2), simp add: approvalEvent_def)+
  with ev(1) show ?thesis by blast
qed

theorem decision_audited_witness:
  "\<exists>ev. history mem_engine (am_audit demoManager) demoGranted [ev] \<and> ae_ActorIdentity ev = ''uid:0''
     \<and> ae_Result ev = ''accepted''"
proof -
  have m: "bbolt (am_eng demoManager) mem_inv" "phase_codec (am_lib demoManager)"
    using mem.bbolt_axioms demoApprovalLib_codec by (simp_all add: demoManager_def)
  have "json_codec tableLib (tableType [(demoGrantEvent\<lparr>ae_Digest := demoDigest\<rparr>, ''event'')])
      ae_SchemaVersion (\<lambda>_. True)"
    by (rule tableType_codec) (simp_all add: demoGrantEvent_def approvalEvent_def SchemaVersionV1_def)
  moreover have "validDigest demoDigest" by code_simp
  ultimately have lib: "audit_lib_ok (am_audit demoManager)"
    by (auto simp: audit_lib_ok_def demoManager_def tableType_def MaxDocumentBytes_def json_codec_mono
        split: option.splits if_splits)
  have start: "history (am_eng demoManager) (am_audit demoManager) demoWaiting []"
    by (simp add: history_def demoWaiting_def demoManager_def)
  have drawn: "dw_eventID \<lparr>dw_eventID = Inr ''e'', dw_now = 3\<rparr> = Inr ''e''" by simp
  from decision_audited [OF m demoWaiting_inv lib start drawn _ demo_decideTx] show ?thesis
    by (simp add: demoManager_def [THEN arg_cong, of am_eng] approvalAuditAccepted_def)
      (auto simp: demoDecision_def)
qed

end
