(* ===== verification/Correlation.thy ===== *)
theory Correlation
  imports Json_Decode Local_Store
begin

text \<open>
  The incident correlator, \<open>src/internal/correlator/correlator.go\<close>: signals, the persisted
  incident with its validation, the deterministic lifecycle step and the transaction of
  \<open>Ingest\<close>. The encoder and the hash are parameters. The lemmas show that the step keeps
  records valid and follows the incident lifecycle, that every valid signal is ingested, and
  when a replayed signal changes nothing.
\<close>

section \<open>Data\<close>

definition defaultDedupeWindow :: Duration where "defaultDedupeWindow = 5 * Minute"
definition maxDedupeWindow :: Duration where "maxDedupeWindow = 24 * Hour"
definition maxSeenInputs :: nat where "maxSeenInputs = 256"
definition maxRecordBytes :: int where "maxRecordBytes = 128 * 1024"

datatype Phase = PhaseCandidate | PhaseConfirmed | PhaseRecovering | PhaseTerminal | PhaseOther string

record Signal =
  sg_Source :: string
  sg_ExternalAlertID :: string
  sg_Severity :: Severity
  sg_Observation :: HealthObservation

record CorrelationResult =
  cr_Incident :: Incident
  cr_Phase :: Phase
  cr_Duplicate :: bool
  cr_Ignored :: bool

record persistedIncident =
  ps_SchemaVersion :: string
  ps_Phase :: Phase
  ps_Incident :: Incident
  ps_SeenInputs :: "string list"

record incident_lib =
  il_json :: json_lib
  il_record :: "persistedIncident json_type"
  il_sha :: "string \<Rightarrow> string"

record 'db Correlator =
  kc_eng :: "'db engine"
  kc_lib :: incident_lib
  kc_dedupeWindow :: Duration

definition zeroIncident :: Incident where
  "zeroIncident =
     \<lparr>in_SchemaVersion = [], in_IncidentID = [], in_DedupeKey = [], in_TargetID = [], in_RuleIDs = [],
      in_State = IncidentOther [], in_Severity = SeverityOther [], in_OpenedAt = 0,
      in_AnalysisRef = [], in_SelectedRunbookID = [], in_TerminalAt = 0\<rparr>"

text \<open>\<open>New\<close>: the default and the bounds of the window.\<close>

definition newCorrelator :: "'db engine \<Rightarrow> incident_lib \<Rightarrow> Duration \<Rightarrow> error + 'db Correlator" where
  "newCorrelator eng lib window =
     (let dedupeWindow = (if window = 0 then defaultDedupeWindow else window) in
      if dedupeWindow < Second \<or> dedupeWindow > maxDedupeWindow
      then Inl (Correlator ErrCorrelatorOptions)
      else Inr \<lparr>kc_eng = eng, kc_lib = lib, kc_dedupeWindow = dedupeWindow\<rparr>)"

section \<open>Signals\<close>

text \<open>\<open>validateSignal\<close> fills in the defaults of the signal it accepts.\<close>

definition validateSignal :: "Signal \<Rightarrow> error + Signal" where
  "validateSignal signal =
     (let ob = sg_Observation signal in
      if ho_SchemaVersion ob \<noteq> SchemaVersionV1 \<or> TrimSpace (ho_ObservationID ob) = []
         \<or> TrimSpace (ho_TargetID ob) = [] \<or> TrimSpace (ho_RuleID ob) = [] \<or> IsZero (ho_ObservedAt ob)
      then Inl (Correlator ErrInvalidSignal)
      else if ho_NormalizedState ob \<noteq> StateHealthy \<and> ho_NormalizedState ob \<noteq> StateUnhealthy
      then Inl (Correlator ErrInvalidSignal)
      else
        let signal1 = (if sg_Source signal = [] then signal\<lparr>sg_Source := ''observer''\<rparr> else signal) in
        if length (sg_Source signal1) > 96 \<or> length (sg_ExternalAlertID signal1) > 128
           \<or> TrimSpace (sg_Source signal1) = []
           \<or> TrimSpace (sg_ExternalAlertID signal1) \<noteq> sg_ExternalAlertID signal1
        then Inl (Correlator ErrInvalidSignal)
        else
          let signal2 = (if sg_Severity signal1 = SeverityOther []
                then signal1\<lparr>sg_Severity := SeverityWarning\<rparr> else signal1) in
          if sg_Severity signal2 \<noteq> SeverityInfo \<and> sg_Severity signal2 \<noteq> SeverityWarning
             \<and> sg_Severity signal2 \<noteq> SeverityCritical
          then Inl (Correlator ErrInvalidSignal)
          else Inr signal2)"

definition signalInputKey :: "incident_lib \<Rightarrow> Signal \<Rightarrow> string" where
  "signalInputKey lib signal =
     (let identity = (if sg_ExternalAlertID signal \<noteq> []
            then sg_Source signal @ [NUL] @ sg_ExternalAlertID signal
            else ho_ObservationID (sg_Observation signal))
      in ''input:'' @ il_sha lib identity)"

text \<open>
  Instants count nanoseconds from the zero time, year 1, which \<open>Time.Truncate\<close> rounds to;
  \<open>UnixNano\<close> counts from 1970 in 64 bits.
\<close>

definition Truncate :: "Time \<Rightarrow> Duration \<Rightarrow> Time" where
  "Truncate t d = (if d \<le> 0 then t else t - t mod d)"

definition UnixNano :: "Time \<Rightarrow> int" where
  "UnixNano t = wrap64 (t - unixEpoch)"

definition dedupeKey :: "'db Correlator \<Rightarrow> HealthObservation \<Rightarrow> string" where
  "dedupeKey c observation =
     ho_TargetID observation @ ''/'' @ ho_RuleID observation @ ''/''
     @ Itoa (UnixNano (Truncate (ho_ObservedAt observation) (kc_dedupeWindow c)))"

section \<open>The lifecycle step\<close>

fun severityRank :: "Severity \<Rightarrow> int" where
  "severityRank SeverityCritical = 3"
| "severityRank SeverityWarning = 2"
| "severityRank SeverityInfo = 1"
| "severityRank (SeverityOther s) = 0"

definition severityHigher :: "Severity \<Rightarrow> Severity \<Rightarrow> bool" where
  "severityHigher candidate current \<longleftrightarrow> severityRank candidate > severityRank current"

definition appendBounded :: "string list \<Rightarrow> string \<Rightarrow> string list" where
  "appendBounded inputs input =
     (let inputs' = inputs @ [input] in
      if length inputs' \<le> maxSeenInputs then inputs'
      else drop (length inputs' - maxSeenInputs) inputs')"

definition seenInput :: "string list \<Rightarrow> string \<Rightarrow> bool" where
  "seenInput inputs input \<longleftrightarrow> list_ex (\<lambda>candidate. candidate = input) inputs"

definition terminate :: "persistedIncident \<Rightarrow> IncidentState \<Rightarrow> Time \<Rightarrow> persistedIncident" where
  "terminate record state observedAt =
     record\<lparr>ps_Phase := PhaseTerminal,
       ps_Incident := (ps_Incident record)\<lparr>in_State := state, in_TerminalAt := observedAt\<rparr>\<rparr>"

definition moveIncident :: "persistedIncident \<Rightarrow> Phase \<Rightarrow> IncidentState \<Rightarrow> persistedIncident" where
  "moveIncident record phase state =
     record\<lparr>ps_Phase := phase, ps_Incident := (ps_Incident record)\<lparr>in_State := state\<rparr>\<rparr>"

definition advanceUnhealthy :: "persistedIncident \<Rightarrow> Time \<Rightarrow> persistedIncident" where
  "advanceUnhealthy record observedAt =
     (case ps_Phase record of
        PhaseCandidate \<Rightarrow> moveIncident record PhaseConfirmed IncidentAnalyzing
      | PhaseRecovering \<Rightarrow> terminate record IncidentFailed observedAt
      | _ \<Rightarrow> record)"

definition advanceHealthy :: "persistedIncident \<Rightarrow> Time \<Rightarrow> persistedIncident" where
  "advanceHealthy record observedAt =
     (case ps_Phase record of
        PhaseCandidate \<Rightarrow> terminate record IncidentClosed observedAt
      | PhaseConfirmed \<Rightarrow> moveIncident record PhaseRecovering IncidentRecovering
      | PhaseRecovering \<Rightarrow>
          if in_State (ps_Incident record) = IncidentRecovering
          then moveIncident record PhaseRecovering IncidentStabilizing
          else terminate record IncidentClosed observedAt
      | _ \<Rightarrow> record)"

definition advance :: "persistedIncident \<Rightarrow> Signal \<Rightarrow> persistedIncident" where
  "advance record signal =
     (if ps_Phase record = PhaseTerminal then record
      else
        let record' =
              (if severityHigher (sg_Severity signal) (in_Severity (ps_Incident record))
               then record\<lparr>ps_Incident := (ps_Incident record)\<lparr>in_Severity := sg_Severity signal\<rparr>\<rparr>
               else record);
            observedAt = ho_ObservedAt (sg_Observation signal)
        in if ho_NormalizedState (sg_Observation signal) = StateUnhealthy
           then advanceUnhealthy record' observedAt
           else advanceHealthy record' observedAt)"

section \<open>Persisted incidents\<close>

definition validPhase :: "Phase \<Rightarrow> bool" where
  "validPhase phase \<longleftrightarrow>
     phase = PhaseCandidate \<or> phase = PhaseConfirmed \<or> phase = PhaseRecovering \<or> phase = PhaseTerminal"

fun phaseMatchesIncident :: "Phase \<Rightarrow> Incident \<Rightarrow> bool" where
  "phaseMatchesIncident PhaseCandidate incident = (in_State incident = IncidentOpen)"
| "phaseMatchesIncident PhaseConfirmed incident = (in_State incident = IncidentAnalyzing)"
| "phaseMatchesIncident PhaseRecovering incident =
     (in_State incident = IncidentRecovering \<or> in_State incident = IncidentStabilizing)"
| "phaseMatchesIncident PhaseTerminal incident =
     (in_State incident = IncidentClosed \<or> in_State incident = IncidentFailed)"
| "phaseMatchesIncident (PhaseOther s) incident = False"

fun validSeenFrom :: "string list \<Rightarrow> string list \<Rightarrow> bool" where
  "validSeenFrom seen [] = True"
| "validSeenFrom seen (input # rest) =
     (if input = [] \<or> length input > 256 then False
      else if input \<in> set seen then False
      else validSeenFrom (input # seen) rest)"

definition validateIncidentRecord :: "persistedIncident \<Rightarrow> error option" where
  "validateIncidentRecord record =
     (if ps_SchemaVersion record \<noteq> SchemaVersionV1 \<or> \<not> validPhase (ps_Phase record)
         \<or> ps_SeenInputs record = [] \<or> length (ps_SeenInputs record) > maxSeenInputs
         \<or> Incident_Validate (ps_Incident record) \<noteq> None
      then Some (Correlator ErrCorruptIncident)
      else if in_DedupeKey (ps_Incident record) = []
              \<or> \<not> phaseMatchesIncident (ps_Phase record) (ps_Incident record)
      then Some (Correlator ErrCorruptIncident)
      else if \<not> validSeenFrom [] (ps_SeenInputs record) then Some (Correlator ErrCorruptIncident)
      else None)"

definition incidentDecodeOptions :: "persistedIncident DecodeOptions" where
  "incidentDecodeOptions =
     \<lparr>do_MaxBytes = maxRecordBytes, do_SchemaVersion = SchemaVersionV1,
      do_Validate = Some validateIncidentRecord\<rparr>"

definition decodeIncident :: "incident_lib \<Rightarrow> string \<Rightarrow> error + persistedIncident" where
  "decodeIncident lib document =
     (case Decode (il_json lib) (il_record lib) document incidentDecodeOptions of
        Inl _ \<Rightarrow> Inl (Correlator ErrCorruptIncident)
      | Inr record \<Rightarrow> Inr record)"

definition putIncident :: "'db Correlator \<Rightarrow> string \<Rightarrow> persistedIncident \<Rightarrow> 'db \<Rightarrow> error + 'db" where
  "putIncident c key record tx =
     (case validateIncidentRecord record of
        Some e \<Rightarrow> Inl e
      | None \<Rightarrow>
          bindR (jt_marshal (il_record (kc_lib c)) record) (\<lambda>document.
            tx_Put (kc_eng c) BucketIncidents key document tx))"

section \<open>Ingesting a signal\<close>

definition resultOf :: "persistedIncident \<Rightarrow> bool \<Rightarrow> CorrelationResult" where
  "resultOf record duplicate =
     \<lparr>cr_Incident = ps_Incident record, cr_Phase = ps_Phase record, cr_Duplicate = duplicate,
      cr_Ignored = False\<rparr>"

definition ignoredResult :: CorrelationResult where
  "ignoredResult =
     \<lparr>cr_Incident = zeroIncident, cr_Phase = PhaseOther [], cr_Duplicate = False, cr_Ignored = True\<rparr>"

definition updateIncident ::
    "'db Correlator \<Rightarrow> string \<Rightarrow> persistedIncident \<Rightarrow> string \<Rightarrow> Signal \<Rightarrow> 'db
      \<Rightarrow> error + (CorrelationResult \<times> 'db)" where
  "updateIncident c key record inputKey signal tx =
     (if seenInput (ps_SeenInputs record) inputKey then Inr (resultOf record True, tx)
      else
        let record' = advance
              (record\<lparr>ps_SeenInputs := appendBounded (ps_SeenInputs record) inputKey\<rparr>) signal in
        bindR (putIncident c key record' tx) (\<lambda>tx'. Inr (resultOf record' False, tx')))"

definition matchesActiveRecord :: "persistedIncident \<Rightarrow> HealthObservation \<Rightarrow> bool" where
  "matchesActiveRecord record observation \<longleftrightarrow>
     ps_Phase record \<noteq> PhaseTerminal \<and> in_TargetID (ps_Incident record) = ho_TargetID observation
     \<and> length (in_RuleIDs (ps_Incident record)) = 1
     \<and> in_RuleIDs (ps_Incident record) ! 0 = ho_RuleID observation
     \<and> \<not> ho_ObservedAt observation < in_OpenedAt (ps_Incident record)"

definition activeStep ::
    "incident_lib \<Rightarrow> HealthObservation \<Rightarrow> (string \<times> persistedIncident) option \<Rightarrow> string \<Rightarrow> string
      \<Rightarrow> error + (string \<times> persistedIncident) option" where
  "activeStep lib observation found key document =
     bindR (decodeIncident lib document) (\<lambda>record.
       if \<not> matchesActiveRecord record observation then Inr found
       else case found of
           None \<Rightarrow> Inr (Some (key, record))
         | Some (_, latest) \<Rightarrow>
             if in_OpenedAt (ps_Incident record) > in_OpenedAt (ps_Incident latest)
             then Inr (Some (key, record)) else Inr found)"

definition findActiveRecord ::
    "'db Correlator \<Rightarrow> HealthObservation \<Rightarrow> 'db \<Rightarrow> error + (string \<times> persistedIncident) option" where
  "findActiveRecord c observation tx =
     tx_ForEach (kc_eng c) BucketIncidents (activeStep (kc_lib c) observation) None tx"

text \<open>The identifier that \<open>newIncidentID\<close> returns is an argument; it is drawn at most once.\<close>

definition newCandidate ::
    "Signal \<Rightarrow> string \<Rightarrow> string \<Rightarrow> error + string \<Rightarrow> error + persistedIncident" where
  "newCandidate signal key inputKey drawn =
     bindR drawn (\<lambda>incidentID.
       if TrimSpace incidentID = [] then Inl (Correlator ErrCorrelatorOptions)
       else Inr
         \<lparr>ps_SchemaVersion = SchemaVersionV1, ps_Phase = PhaseCandidate,
          ps_Incident =
            \<lparr>in_SchemaVersion = SchemaVersionV1, in_IncidentID = incidentID, in_DedupeKey = key,
             in_TargetID = ho_TargetID (sg_Observation signal),
             in_RuleIDs = [ho_RuleID (sg_Observation signal)], in_State = IncidentOpen,
             in_Severity = sg_Severity signal, in_OpenedAt = ho_ObservedAt (sg_Observation signal),
             in_AnalysisRef = [], in_SelectedRunbookID = [], in_TerminalAt = 0\<rparr>,
          ps_SeenInputs = [inputKey]\<rparr>)"

definition ingestTx ::
    "'db Correlator \<Rightarrow> Signal \<Rightarrow> error + string \<Rightarrow> 'db \<Rightarrow> error + (CorrelationResult \<times> 'db)" where
  "ingestTx c signal drawn tx =
     (let key = dedupeKey c (sg_Observation signal); inputKey = signalInputKey (kc_lib c) signal in
      bindR (tx_Get (kc_eng c) BucketIncidents key tx) (\<lambda>found.
        case found of
          None \<Rightarrow>
            if ho_NormalizedState (sg_Observation signal) = StateHealthy then
              bindR (findActiveRecord c (sg_Observation signal) tx) (\<lambda>active.
                case active of
                  None \<Rightarrow> Inr (ignoredResult, tx)
                | Some (activeKey, record) \<Rightarrow> updateIncident c activeKey record inputKey signal tx)
            else
              bindR (newCandidate signal key inputKey drawn) (\<lambda>record.
                bindR (putIncident c key record tx) (\<lambda>tx'. Inr (resultOf record False, tx')))
        | Some document \<Rightarrow>
            bindR (decodeIncident (kc_lib c) document) (\<lambda>record.
              updateIncident c key record inputKey signal tx)))"

definition Ingest ::
    "'db Correlator \<Rightarrow> Signal \<Rightarrow> error + string \<Rightarrow> 'db \<Rightarrow> (error + CorrelationResult) \<times> 'db" where
  "Ingest c signal drawn db =
     (case validateSignal signal of
        Inl e \<Rightarrow> (Inl e, db)
      | Inr signal' \<Rightarrow> Update (kc_eng c) (ingestTx c signal' drawn) db)"

section \<open>Valid records\<close>

lemma validSeenFrom_iff:
  "validSeenFrom seen inputs \<longleftrightarrow>
     distinct inputs \<and> set inputs \<inter> set seen = {} \<and> (\<forall>x \<in> set inputs. x \<noteq> [] \<and> length x \<le> 256)"
  by (induction inputs arbitrary: seen) auto

lemma validateIncidentRecord_None:
  "validateIncidentRecord r = None \<longleftrightarrow>
     ps_SchemaVersion r = SchemaVersionV1 \<and> Incident_Validate (ps_Incident r) = None
     \<and> ps_SeenInputs r \<noteq> [] \<and> length (ps_SeenInputs r) \<le> maxSeenInputs \<and> distinct (ps_SeenInputs r)
     \<and> (\<forall>x \<in> set (ps_SeenInputs r). x \<noteq> [] \<and> length x \<le> 256)
     \<and> in_DedupeKey (ps_Incident r) \<noteq> [] \<and> phaseMatchesIncident (ps_Phase r) (ps_Incident r)"
  by (cases "ps_Phase r") (auto simp: validateIncidentRecord_def validSeenFrom_iff validPhase_def)

lemma seenInput_iff [simp]: "seenInput inputs input \<longleftrightarrow> input \<in> set inputs"
  by (auto simp: seenInput_def list_ex_iff)

lemma appendBounded_props:
  "appendBounded inputs input \<noteq> []" "length (appendBounded inputs input) \<le> maxSeenInputs"
  "set (appendBounded inputs input) \<subseteq> insert input (set inputs)" "input \<in> set (appendBounded inputs input)"
  "distinct inputs \<Longrightarrow> input \<notin> set inputs \<Longrightarrow> distinct (appendBounded inputs input)"
proof -
  have m: "0 < maxSeenInputs" by (simp add: maxSeenInputs_def)
  then show "appendBounded inputs input \<noteq> []" "length (appendBounded inputs input) \<le> maxSeenInputs"
    by (auto simp: appendBounded_def Let_def)
  show "set (appendBounded inputs input) \<subseteq> insert input (set inputs)"
    by (auto simp: appendBounded_def Let_def dest: in_set_dropD)
  show "input \<in> set (appendBounded inputs input)"
    using m by (auto simp: appendBounded_def Let_def drop_append)
  show "distinct inputs \<Longrightarrow> input \<notin> set inputs \<Longrightarrow> distinct (appendBounded inputs input)"
    by (auto simp: appendBounded_def Let_def simp del: drop_append intro!: distinct_drop)
qed

text \<open>A signal after \<open>validateSignal\<close>.\<close>

definition goodSignal :: "Signal \<Rightarrow> bool" where
  "goodSignal s \<longleftrightarrow>
     ho_ObservedAt (sg_Observation s) \<noteq> 0 \<and> ho_TargetID (sg_Observation s) \<noteq> []
     \<and> ho_NormalizedState (sg_Observation s) \<in> {StateHealthy, StateUnhealthy}
     \<and> sg_Severity s \<in> {SeverityInfo, SeverityWarning, SeverityCritical}"

lemma validateSignal_good:
  assumes "validateSignal signal = Inr s"
  shows "goodSignal s \<and> sg_Observation s = sg_Observation signal"
proof -
  have "TrimSpace [] = []" by code_simp
  with assms have "ho_ObservedAt (sg_Observation signal) \<noteq> 0" "ho_TargetID (sg_Observation signal) \<noteq> []"
    "ho_NormalizedState (sg_Observation signal) \<in> {StateHealthy, StateUnhealthy}"
    by (auto simp: validateSignal_def Let_def split: if_split_asm)
  moreover from assms have "sg_Observation s = sg_Observation signal"
    by (auto simp: validateSignal_def Let_def split: if_split_asm)
  moreover from assms have "sg_Severity s \<in> {SeverityInfo, SeverityWarning, SeverityCritical}"
    by (auto simp: validateSignal_def Let_def split: if_split_asm)
  ultimately show ?thesis by (simp add: goodSignal_def)
qed

lemmas advance_defs = advance_def advanceUnhealthy_def advanceHealthy_def terminate_def moveIncident_def Let_def

lemma validIncidentState_simps [simp]:
  "validIncidentState IncidentOpen" "validIncidentState IncidentAnalyzing"
  "validIncidentState IncidentRecovering" "validIncidentState IncidentStabilizing"
  "validIncidentState IncidentClosed" "validIncidentState IncidentFailed"
  by (simp_all add: validIncidentState_def)

lemma terminalIncident_simps [simp]:
  "terminalIncident IncidentClosed" "terminalIncident IncidentFailed" "\<not> terminalIncident IncidentOpen"
  "\<not> terminalIncident IncidentAnalyzing" "\<not> terminalIncident IncidentRecovering"
  "\<not> terminalIncident IncidentStabilizing"
  by (simp_all add: terminalIncident_def)



lemma advance_lifecycle:
  assumes "validateIncidentRecord r = None"
  shows "in_State (ps_Incident (advance r s)) = in_State (ps_Incident r)
    \<or> Incident_CanTransitionTo (in_State (ps_Incident r)) (in_State (ps_Incident (advance r s)))"
  using assms
  by (cases "ps_Phase r") (auto simp: validateIncidentRecord_None advance_defs)

lemma advance_kept:
  "ps_SeenInputs (advance r s) = ps_SeenInputs r"
  "in_IncidentID (ps_Incident (advance r s)) = in_IncidentID (ps_Incident r)"
  "in_DedupeKey (ps_Incident (advance r s)) = in_DedupeKey (ps_Incident r)"
  "in_TargetID (ps_Incident (advance r s)) = in_TargetID (ps_Incident r)"
  "in_RuleIDs (ps_Incident (advance r s)) = in_RuleIDs (ps_Incident r)"
  "in_OpenedAt (ps_Incident (advance r s)) = in_OpenedAt (ps_Incident r)"
  "severityRank (in_Severity (ps_Incident r)) \<le> severityRank (in_Severity (ps_Incident (advance r s)))"
  "ps_Phase r = PhaseTerminal \<Longrightarrow> advance r s = r"
  by (cases "ps_Phase r"; simp add: advance_defs severityHigher_def)+

section \<open>What Ingest does\<close>


lemma decodeIncident_Inr:
  "decodeIncident lib document = Inr r \<longleftrightarrow>
     Decode (il_json lib) (il_record lib) document incidentDecodeOptions = Inr r"
  by (auto simp: decodeIncident_def split: sum.splits)

lemma decodeIncident_valid: "decodeIncident lib document = Inr r \<Longrightarrow> validateIncidentRecord r = None"
  by (auto simp: decodeIncident_Inr Decode_Inr incidentDecodeOptions_def)

text \<open>The active record \<open>findActiveRecord\<close> returns is stored and matches.\<close>

lemma active_fold:
  assumes "foldR (activeStep lib ob) acc entries = Inr (Some (key, r))"
  shows "acc = Some (key, r) \<or> (\<exists>document. (key, document) \<in> set entries
    \<and> decodeIncident lib document = Inr r \<and> matchesActiveRecord r ob)"
  using assms
proof (induction entries arbitrary: acc)
  case (Cons entry entries)
  obtain k document where entry: "entry = (k, document)" by (cases entry)
  with Cons.prems obtain acc' where acc': "activeStep lib ob acc k document = Inr acc'"
    "foldR (activeStep lib ob) acc' entries = Inr (Some (key, r))"
    by (auto simp: result_simps)
  from Cons.IH [OF acc'(2)] acc'(1) entry show ?case
    by (auto simp: activeStep_def result_simps split: if_splits option.splits)
qed simp

text \<open>What a call that changes the store does to it.\<close>

definition advanced :: "'db Correlator \<Rightarrow> Signal \<Rightarrow> 'db \<Rightarrow> string \<Rightarrow> persistedIncident \<Rightarrow> bool" where
  "advanced c s db key new \<longleftrightarrow>
     (\<exists>document old. holds (kc_eng c) db BucketIncidents key = Some document
        \<and> decodeIncident (kc_lib c) document = Inr old
        \<and> signalInputKey (kc_lib c) s \<notin> set (ps_SeenInputs old)
        \<and> new = advance (old\<lparr>ps_SeenInputs :=
             appendBounded (ps_SeenInputs old) (signalInputKey (kc_lib c) s)\<rparr>) s)"

lemma updateIncident_cases:
  assumes "updateIncident c key old inputKey s db = Inr (result, db')"
  shows "inputKey \<in> set (ps_SeenInputs old) \<and> result = resultOf old True \<and> db' = db
    \<or> inputKey \<notin> set (ps_SeenInputs old)
      \<and> (let new = advance (old\<lparr>ps_SeenInputs := appendBounded (ps_SeenInputs old) inputKey\<rparr>) s in
          result = resultOf new False \<and> putIncident c key new db = Inr db')"
  using assms by (auto simp: updateIncident_def Let_def result_simps split: if_splits)

definition wrote :: "'db Correlator \<Rightarrow> 'db \<Rightarrow> 'db \<Rightarrow> string \<Rightarrow> persistedIncident \<Rightarrow> bool" where
  "wrote c db db' key new \<longleftrightarrow>
     validateIncidentRecord new = None
     \<and> (\<exists>document. jt_marshal (il_record (kc_lib c)) new = Inr document
          \<and> holds (kc_eng c) db' BucketIncidents = (holds (kc_eng c) db BucketIncidents)(key \<mapsto> document))
     \<and> (\<forall>b. b \<noteq> BucketIncidents \<longrightarrow> b \<in> set dataBuckets \<longrightarrow> same_bucket (kc_eng c) b db db')"

lemma newCandidate_Inr:
  "newCandidate s key inputKey drawn = Inr new \<Longrightarrow>
     ps_Phase new = PhaseCandidate \<and> ps_SeenInputs new = [inputKey] \<and> in_DedupeKey (ps_Incident new) = key
     \<and> in_State (ps_Incident new) = IncidentOpen"
  by (auto simp: newCandidate_def result_simps split: if_splits)

text \<open>A correlator on a store that behaves as bbolt does.\<close>

locale correlating = bbolt "kc_eng c" inv for c :: "'db Correlator" and inv :: "'db \<Rightarrow> bool"
begin

lemma putIncident_wrote:
  assumes "putIncident c key new db = Inr db'" and "inv db"
  shows "inv db' \<and> wrote c db db' key new"
proof -
  obtain document where doc: "validateIncidentRecord new = None"
    "jt_marshal (il_record (kc_lib c)) new = Inr document"
    "tx_Put (kc_eng c) BucketIncidents key document db = Inr db'"
    using assms(1) by (auto simp: putIncident_def result_simps split: option.splits)
  from doc(1,2) tx_Put_holds [OF doc(3) assms(2)] tx_Put_other [OF doc(3) assms(2)]
    tx_Put_ok(1) [OF doc(3) assms(2)]
  show ?thesis unfolding wrote_def by blast
qed

lemma findActive_Some:
  assumes "findActiveRecord c ob db = Inr (Some (key, r))" and "inv db"
  shows "\<exists>document. holds (kc_eng c) db BucketIncidents key = Some document
    \<and> decodeIncident (kc_lib c) document = Inr r" and "matchesActiveRecord r ob"
proof -
  have "foldR (activeStep (kc_lib c) ob) None (eng_each (kc_eng c) db (bucketName BucketIncidents))
      = Inr (Some (key, r))"
    using assms(1) by (auto simp: findActiveRecord_def tx_ForEach_def result_simps simp del: bucketName.simps)
  from active_fold [OF this] obtain document where
    "(key, document) \<in> set (eng_each (kc_eng c) db (bucketName BucketIncidents))"
    "decodeIncident (kc_lib c) document = Inr r" "matchesActiveRecord r ob" by blast
  then show "\<exists>document. holds (kc_eng c) db BucketIncidents key = Some document
    \<and> decodeIncident (kc_lib c) document = Inr r" "matchesActiveRecord r ob"
    using each_holds [OF assms(2), of key document BucketIncidents] by blast+
qed

lemma updateIncident_effect:
  assumes "updateIncident c key old (signalInputKey (kc_lib c) s) s db = Inr (result, db')" and "inv db"
    and "holds (kc_eng c) db BucketIncidents key = Some document" "decodeIncident (kc_lib c) document = Inr old"
  shows "db' = db \<and> cr_Duplicate result \<and> cr_Incident result = ps_Incident old
    \<or> (\<exists>new. inv db' \<and> wrote c db db' key new \<and> result = resultOf new False \<and> advanced c s db key new)"
  using updateIncident_cases [OF assms(1)] putIncident_wrote [OF _ assms(2)] assms(3,4)
  unfolding advanced_def Let_def by (auto simp: resultOf_def)

lemma ingestTx_effect:
  assumes "ingestTx c s drawn db = Inr (result, db')" and "inv db"
    and "ho_NormalizedState (sg_Observation s) \<in> {StateHealthy, StateUnhealthy}"
  shows "db' = db \<and> (cr_Duplicate result \<or> cr_Ignored result
        \<and> ho_NormalizedState (sg_Observation s) = StateHealthy)
    \<or> (\<exists>key new. inv db' \<and> wrote c db db' key new \<and> result = resultOf new False
        \<and> (advanced c s db key new
           \<or> key = dedupeKey c (sg_Observation s) \<and> holds (kc_eng c) db BucketIncidents key = None
             \<and> ho_NormalizedState (sg_Observation s) = StateUnhealthy
             \<and> newCandidate s key (signalInputKey (kc_lib c) s) drawn = Inr new))"
proof -
  let ?key = "dedupeKey c (sg_Observation s)"
  obtain found where found: "tx_Get (kc_eng c) BucketIncidents ?key db = Inr found"
    using assms(1) by (auto simp: ingestTx_def Let_def result_simps)
  then have holds: "holds (kc_eng c) db BucketIncidents ?key = found"
    by (auto simp: tx_Get_def result_simps split: if_splits)
  show ?thesis
  proof (cases found)
    case (Some document)
    with assms(1) found obtain old where old: "decodeIncident (kc_lib c) document = Inr old"
      "updateIncident c ?key old (signalInputKey (kc_lib c) s) s db = Inr (result, db')"
      by (auto simp: ingestTx_def Let_def result_simps)
    from updateIncident_effect [OF old(2) assms(2) _ old(1)] holds Some show ?thesis by blast
  next
    case None
    show ?thesis
    proof (cases "ho_NormalizedState (sg_Observation s) = StateHealthy")
      case True
      with assms(1) found None obtain active where active: "findActiveRecord c (sg_Observation s) db = Inr active"
        by (auto simp: ingestTx_def Let_def result_simps)
      show ?thesis
      proof (cases active)
        case none: None
        with assms(1) found None True active show ?thesis
          by (auto simp: ingestTx_def Let_def ignoredResult_def)
      next
        case (Some p)
        obtain key old where p: "p = (key, old)" by (cases p)
        have "updateIncident c key old (signalInputKey (kc_lib c) s) s db = Inr (result, db')"
          using assms(1) found None True active Some p by (simp add: ingestTx_def Let_def)
        moreover obtain document where "holds (kc_eng c) db BucketIncidents key = Some document"
          "decodeIncident (kc_lib c) document = Inr old"
          using findActive_Some(1) [OF active [unfolded Some p] assms(2)] by blast
        ultimately show ?thesis using updateIncident_effect [OF _ assms(2)] by blast
      qed
    next
      case False
      with assms(1) found None obtain new where new:
        "newCandidate s ?key (signalInputKey (kc_lib c) s) drawn = Inr new"
        "putIncident c ?key new db = Inr db'" "result = resultOf new False"
        by (auto simp: ingestTx_def Let_def result_simps)
      with False assms(3) holds None putIncident_wrote [OF new(2) assms(2)] show ?thesis by auto
    qed
  qed
qed

end









section \<open>The history of an incident\<close>

text \<open>The record a key holds, as the JSON decoder reads it, whatever its size.\<close>

definition recordAt :: "'db Correlator \<Rightarrow> 'db \<Rightarrow> string \<Rightarrow> persistedIncident \<Rightarrow> bool" where
  "recordAt c db key r \<longleftrightarrow>
     validateIncidentRecord r = None
     \<and> (\<exists>document rest. holds (kc_eng c) db BucketIncidents key = Some document
          \<and> jt_decode (il_record (kc_lib c)) document = Inr (r, rest))"

text \<open>How a record may develop.\<close>

definition develops :: "persistedIncident \<Rightarrow> persistedIncident \<Rightarrow> bool" where
  "develops r r' \<longleftrightarrow>
     in_IncidentID (ps_Incident r') = in_IncidentID (ps_Incident r)
     \<and> in_DedupeKey (ps_Incident r') = in_DedupeKey (ps_Incident r)
     \<and> in_TargetID (ps_Incident r') = in_TargetID (ps_Incident r)
     \<and> in_RuleIDs (ps_Incident r') = in_RuleIDs (ps_Incident r)
     \<and> in_OpenedAt (ps_Incident r') = in_OpenedAt (ps_Incident r)
     \<and> severityRank (in_Severity (ps_Incident r)) \<le> severityRank (in_Severity (ps_Incident r'))
     \<and> Incident_CanTransitionTo\<^sup>*\<^sup>* (in_State (ps_Incident r)) (in_State (ps_Incident r'))
     \<and> (ps_Phase r = PhaseTerminal \<longrightarrow> ps_Phase r' = PhaseTerminal \<and> ps_Incident r' = ps_Incident r)"

lemma develops_refl [simp]: "develops r r"
  by (simp add: develops_def)

lemma develops_trans: "develops r r' \<Longrightarrow> develops r' r'' \<Longrightarrow> develops r r''"
  unfolding develops_def by (auto intro: rtranclp_trans)

lemma advance_develops:
  assumes "validateIncidentRecord r = None"
  shows "develops r (advance (r\<lparr>ps_SeenInputs := seen\<rparr>) s)"
proof -
  have "advance (r\<lparr>ps_SeenInputs := seen\<rparr>) s = (advance r s)\<lparr>ps_SeenInputs := seen\<rparr>"
    by (cases "ps_Phase r") (simp_all add: advance_defs)
  with advance_lifecycle [OF assms, of s] advance_kept [of r s] show ?thesis
    unfolding develops_def by auto
qed

text \<open>
  What the encoder promises: records whose strings are valid text survive it, decoded records
  are such, and so is the hexadecimal digest in an input key.
\<close>

definition incidentText :: "incident_lib \<Rightarrow> persistedIncident \<Rightarrow> bool" where
  "incidentText lib r \<longleftrightarrow>
     list_all (jl_text (il_json lib))
       ([in_IncidentID (ps_Incident r), in_DedupeKey (ps_Incident r), in_TargetID (ps_Incident r),
         in_AnalysisRef (ps_Incident r), in_SelectedRunbookID (ps_Incident r)]
        @ in_RuleIDs (ps_Incident r) @ ps_SeenInputs r)
     \<and> (case in_Severity (ps_Incident r) of SeverityOther s \<Rightarrow> jl_text (il_json lib) s | _ \<Rightarrow> True)"

definition incident_codec :: "incident_lib \<Rightarrow> bool" where
  "incident_codec lib \<longleftrightarrow>
     json_codec (il_json lib) (il_record lib) ps_SchemaVersion
       (\<lambda>r. validateIncidentRecord r = None \<and> incidentText lib r)
     \<and> (\<forall>document r rest. jt_decode (il_record lib) document = Inr (r, rest) \<longrightarrow> incidentText lib r)
     \<and> (\<forall>s. jl_text (il_json lib) (''input:'' @ il_sha lib s))"

lemma decodeIncident_text:
  "incident_codec lib \<Longrightarrow> decodeIncident lib document = Inr r \<Longrightarrow> incidentText lib r"
  unfolding incident_codec_def decodeIncident_Inr Decode_Inr by blast

lemma advance_text:
  assumes "incidentText lib old" and "incident_codec lib" and "goodSignal s"
  shows "incidentText lib (advance (old\<lparr>ps_SeenInputs := appendBounded (ps_SeenInputs old) (signalInputKey lib s)\<rparr>) s)"
proof -
  have "jl_text (il_json lib) (signalInputKey lib s)"
    using assms(2) by (simp add: signalInputKey_def incident_codec_def Let_def)
  then have "incidentText lib (old\<lparr>ps_SeenInputs := appendBounded (ps_SeenInputs old) (signalInputKey lib s)\<rparr>)"
    using assms(1) appendBounded_props(3) [of "ps_SeenInputs old" "signalInputKey lib s"]
    by (auto simp: incidentText_def list_all_iff)
  moreover have "incidentText lib (advance r s)" if "incidentText lib r" for r
    using that assms(3)
    by (cases "ps_Phase r"; auto simp: incidentText_def advance_defs goodSignal_def split: Severity.splits)
  ultimately show ?thesis by blast
qed

lemma recordAt_decoded:
  assumes "recordAt c db key r" and "holds (kc_eng c) db BucketIncidents key = Some document"
    and "decodeIncident (kc_lib c) document = Inr old"
  shows "old = r"
  using assms by (auto simp: recordAt_def decodeIncident_Inr Decode_Inr)

lemma wrote_recordAt:
  assumes "wrote c db db' key new" and "incident_codec (kc_lib c)"
  shows "incidentText (kc_lib c) new \<Longrightarrow> recordAt c db' key new" and "k \<noteq> key \<Longrightarrow> recordAt c db' k r \<longleftrightarrow> recordAt c db k r"
proof -
  obtain document where doc: "jt_marshal (il_record (kc_lib c)) new = Inr document"
    "holds (kc_eng c) db' BucketIncidents = (holds (kc_eng c) db BucketIncidents)(key \<mapsto> document)"
    and valid: "validateIncidentRecord new = None"
    using assms(1) unfolding wrote_def by blast
  show "recordAt c db' key new" if "incidentText (kc_lib c) new"
  proof -
    have "jt_decode (il_record (kc_lib c)) document = Inr (new, ([], EOF))"
      using assms(2) doc(1) valid that unfolding incident_codec_def json_codec_def by blast
    with doc(2) valid show ?thesis unfolding recordAt_def by fastforce
  qed
  show "k \<noteq> key \<Longrightarrow> recordAt c db' k r \<longleftrightarrow> recordAt c db k r"
    unfolding recordAt_def doc(2) by simp
qed

text \<open>A signal, and the identifier drawn with it, whose strings are valid text.\<close>

definition signalText :: "'db Correlator \<Rightarrow> Signal \<Rightarrow> error + string \<Rightarrow> bool" where
  "signalText c s drawn \<longleftrightarrow>
     list_all (jl_text (il_json (kc_lib c)))
       [[], ho_TargetID (sg_Observation s), ho_RuleID (sg_Observation s), dedupeKey c (sg_Observation s)]
     \<and> (case drawn of Inl _ \<Rightarrow> True | Inr incidentID \<Rightarrow> jl_text (il_json (kc_lib c)) incidentID)"

lemma candidate_text:
  assumes "newCandidate s (dedupeKey c (sg_Observation s)) (signalInputKey (kc_lib c) s) drawn = Inr new"
    and "signalText c s drawn" and "incident_codec (kc_lib c)" and "goodSignal s"
  shows "incidentText (kc_lib c) new"
proof -
  have "jl_text (il_json (kc_lib c)) (signalInputKey (kc_lib c) s)"
    using assms(3) by (simp add: signalInputKey_def incident_codec_def Let_def)
  with assms(1,2,4) show ?thesis
    by (auto simp: newCandidate_def incidentText_def signalText_def goodSignal_def result_simps
        split: if_splits Severity.splits)
qed

fun ingestAll :: "'db Correlator \<Rightarrow> (Signal \<times> (error + string)) list \<Rightarrow> 'db \<Rightarrow> 'db" where
  "ingestAll c [] db = db"
| "ingestAll c ((signal, drawn) # inputs) db = ingestAll c inputs (snd (Ingest c signal drawn db))"

context correlating
begin

lemma Ingest_effect:
  assumes "validateSignal signal = Inr s" and "Ingest c signal drawn db = (Inr result, db')" and "inv db"
  shows "db' = db \<and> (cr_Duplicate result \<or> cr_Ignored result
        \<and> ho_NormalizedState (sg_Observation s) = StateHealthy)
    \<or> (\<exists>key new. inv db' \<and> wrote c db db' key new \<and> result = resultOf new False
        \<and> (advanced c s db key new
           \<or> key = dedupeKey c (sg_Observation s) \<and> holds (kc_eng c) db BucketIncidents key = None
             \<and> ho_NormalizedState (sg_Observation s) = StateUnhealthy
             \<and> newCandidate s key (signalInputKey (kc_lib c) s) drawn = Inr new))"
proof (rule ingestTx_effect [OF _ assms(3)])
  show "ingestTx c s drawn db = Inr (result, db')"
    using assms(1,2) by (auto simp: Ingest_def dest: Update_Inr)
  have "goodSignal s" using validateSignal_good [OF assms(1)] by blast
  then show "ho_NormalizedState (sg_Observation s) \<in> {StateHealthy, StateUnhealthy}"
    by (simp add: goodSignal_def)
qed

lemma Ingest_failed: "Ingest c signal drawn db = (Inl e, db') \<Longrightarrow> db' = db"
  by (auto simp: Ingest_def split: sum.splits dest: Update_Inl)

lemma Ingest_inv: "inv db \<Longrightarrow> inv (snd (Ingest c signal drawn db))"
proof (cases "Ingest c signal drawn db")
  case (Pair r db')
  assume inv: "inv db"
  show ?thesis
  proof (cases r)
    case (Inl e)
    with Pair inv Ingest_failed [of signal drawn db e db'] show ?thesis by simp
  next
    case (Inr result)
    with Pair obtain s where "validateSignal signal = Inr s"
      by (auto simp: Ingest_def split: sum.splits)
    from Ingest_effect [OF this Pair [unfolded Inr] inv] Pair inv show ?thesis by auto
  qed
qed

lemma Ingest_develops:
  assumes "incident_codec (kc_lib c)" and "inv db" and "recordAt c db key r"
  shows "\<exists>r'. recordAt c (snd (Ingest c signal drawn db)) key r' \<and> develops r r'"
proof (cases "Ingest c signal drawn db")
  case (Pair outcome db')
  show ?thesis
  proof (cases outcome)
    case (Inl e)
    with Pair assms(3) Ingest_failed [of signal drawn db e db'] show ?thesis using develops_refl by auto
  next
    case (Inr result)
    with Pair obtain s where s: "validateSignal signal = Inr s"
      by (auto simp: Ingest_def split: sum.splits)
    then have good: "goodSignal s" using validateSignal_good by blast
    from Ingest_effect [OF s Pair [unfolded Inr] assms(2)] consider "db' = db"
      | k new where "wrote c db db' k new" "advanced c s db k new"
      | k new where "wrote c db db' k new" "holds (kc_eng c) db BucketIncidents k = None"
      by blast
    then have "\<exists>r'. recordAt c db' key r' \<and> develops r r'"
    proof cases
      case 1
      with assms(3) show ?thesis by (auto intro: exI [of _ r])
    next
      case 2
      show ?thesis
      proof (cases "k = key")
        case True
        with 2(2) obtain document old where old: "holds (kc_eng c) db BucketIncidents key = Some document"
          "decodeIncident (kc_lib c) document = Inr old"
          "new = advance (old\<lparr>ps_SeenInputs :=
             appendBounded (ps_SeenInputs old) (signalInputKey (kc_lib c) s)\<rparr>) s"
          unfolding advanced_def by blast
        have "old = r" by (rule recordAt_decoded [OF assms(3) old(1,2)])
        with old(3) have "develops r new"
          using advance_develops decodeIncident_valid [OF old(2)] by simp
        moreover have "incidentText (kc_lib c) new"
          unfolding old(3) by (rule advance_text [OF decodeIncident_text [OF assms(1) old(2)] assms(1) good])
        ultimately show ?thesis using wrote_recordAt(1) [OF 2(1) assms(1)] True by blast
      next
        case False
        with wrote_recordAt(2) [OF 2(1) assms(1), of key r] assms(3) show ?thesis by (auto intro: exI [of _ r])
      qed
    next
      case 3
      with assms(3) have "key \<noteq> k" unfolding recordAt_def by auto
      with wrote_recordAt(2) [OF 3(1) assms(1), of key r] assms(3) show ?thesis by (auto intro: exI [of _ r])
    qed
    with Pair show ?thesis by simp
  qed
qed

lemma ingestAll_develops:
  assumes "incident_codec (kc_lib c)" and "inv db" and "recordAt c db key r"
  shows "\<exists>r'. recordAt c (ingestAll c inputs db) key r' \<and> develops r r'"
  using assms(2,3)
proof (induction inputs arbitrary: db r)
  case (Cons input inputs)
  obtain signal drawn where "input = (signal, drawn)" by (cases input)
  with Cons.IH [OF Ingest_inv [OF Cons.prems(1), of signal drawn]]
    Ingest_develops [OF assms(1) Cons.prems, of signal drawn]
  show ?case by (auto intro: develops_trans)
qed auto

text \<open>
  After an unhealthy signal was ingested, its dedupe key holds a record that has seen it and
  carries the incident that was returned.
\<close>

lemma wrote_decode:
  assumes "wrote c db db' key new" and "incident_codec (kc_lib c)" and "incidentText (kc_lib c) new"
    and "\<forall>document. holds (kc_eng c) db' BucketIncidents key = Some document \<longrightarrow> int (length document) \<le> maxRecordBytes"
  shows "\<exists>document. holds (kc_eng c) db' BucketIncidents key = Some document
    \<and> decodeIncident (kc_lib c) document = Inr new"
proof -
  obtain document where doc: "jt_marshal (il_record (kc_lib c)) new = Inr document"
    "holds (kc_eng c) db' BucketIncidents key = Some document" and valid: "validateIncidentRecord new = None"
    using assms(1) unfolding wrote_def by fastforce
  have "ps_SchemaVersion new = SchemaVersionV1" using valid by (simp add: validateIncidentRecord_None)
  with valid assms(4) doc(2) have "Decode (il_json (kc_lib c)) (il_record (kc_lib c)) document incidentDecodeOptions = Inr new"
    by (intro Decode_marshal [where validate = validateIncidentRecord,
          OF conjunct1 [OF assms(2) [unfolded incident_codec_def]] conjI [OF valid assms(3)] doc(1)])
      (simp_all add: incidentDecodeOptions_def decodeLimit_def maxRecordBytes_def SchemaVersionV1_def)
  with doc(2) show ?thesis by (simp add: decodeIncident_Inr)
qed

lemma unhealthy_seen:
  assumes "ingestTx c s drawn db = Inr (result, db1)" and "inv db" and "incident_codec (kc_lib c)"
    and "ho_NormalizedState (sg_Observation s) = StateUnhealthy" and "key = dedupeKey c (sg_Observation s)"
    and "\<forall>document. holds (kc_eng c) db1 BucketIncidents key = Some document \<longrightarrow> int (length document) \<le> maxRecordBytes"
    and "goodSignal s" and "signalText c s drawn"
  shows "\<exists>document r. holds (kc_eng c) db1 BucketIncidents key = Some document
    \<and> decodeIncident (kc_lib c) document = Inr r \<and> signalInputKey (kc_lib c) s \<in> set (ps_SeenInputs r)
    \<and> ps_Incident r = cr_Incident result"
proof -
  obtain found where found: "tx_Get (kc_eng c) BucketIncidents key db = Inr found"
    using assms(1,5) by (auto simp: ingestTx_def Let_def result_simps)
  then have holds: "holds (kc_eng c) db BucketIncidents key = found"
    by (auto simp: tx_Get_def result_simps split: if_splits)
  show ?thesis
  proof (cases found)
    case (Some document)
    with assms(1,5) found obtain old where old: "decodeIncident (kc_lib c) document = Inr old"
      "updateIncident c key old (signalInputKey (kc_lib c) s) s db = Inr (result, db1)"
      by (auto simp: ingestTx_def Let_def result_simps)
    let ?new = "advance (old\<lparr>ps_SeenInputs := appendBounded (ps_SeenInputs old) (signalInputKey (kc_lib c) s)\<rparr>) s"
    from updateIncident_cases [OF old(2)] consider
      "signalInputKey (kc_lib c) s \<in> set (ps_SeenInputs old)" "result = resultOf old True" "db1 = db"
      | "result = resultOf ?new False" "putIncident c key ?new db = Inr db1"
      unfolding Let_def by blast
    then show ?thesis
    proof cases
      case 1
      with holds Some old(1) show ?thesis by (auto simp: resultOf_def)
    next
      case 2
      from wrote_decode [OF _ assms(3) _ assms(6)] putIncident_wrote [OF 2(2) assms(2)]
        advance_text [OF decodeIncident_text [OF assms(3) old(1)] assms(3,7)] obtain document' where
        "holds (kc_eng c) db1 BucketIncidents key = Some document'" "decodeIncident (kc_lib c) document' = Inr ?new"
        by blast
      moreover have "signalInputKey (kc_lib c) s \<in> set (ps_SeenInputs ?new)"
        by (simp add: advance_kept(1) appendBounded_props(4))
      moreover have "ps_Incident ?new = cr_Incident result" using 2(1) by (simp add: resultOf_def)
      ultimately show ?thesis by blast
    qed
  next
    case None
    with assms(1,4,5) found obtain new where new:
      "newCandidate s key (signalInputKey (kc_lib c) s) drawn = Inr new"
      "putIncident c key new db = Inr db1" "result = resultOf new False"
      by (auto simp: ingestTx_def Let_def result_simps)
    have "incidentText (kc_lib c) new" using candidate_text [OF _ assms(8,3,7)] new(1) assms(5) by simp
    from wrote_decode [OF _ assms(3) this assms(6)] putIncident_wrote [OF new(2) assms(2)] newCandidate_Inr [OF new(1)]
      new(3)
    show ?thesis by (fastforce simp: resultOf_def)
  qed
qed

lemma seen_again:
  assumes "ingestTx c s drawn db = Inr (result, db')"
    and "holds (kc_eng c) db BucketIncidents (dedupeKey c (sg_Observation s)) = Some document"
    and "decodeIncident (kc_lib c) document = Inr r" and "signalInputKey (kc_lib c) s \<in> set (ps_SeenInputs r)"
  shows "result = resultOf r True \<and> db' = db"
proof -
  have "tx_Get (kc_eng c) BucketIncidents (dedupeKey c (sg_Observation s)) db = Inr (Some document)"
    using assms(1,2) by (auto simp: ingestTx_def Let_def result_simps tx_Get_def split: if_splits)
  with assms(1,3,4) show ?thesis by (simp add: ingestTx_def Let_def updateIncident_def)
qed

lemma replayed:
  assumes "validateSignal signal = Inr s" and "Ingest c signal drawn db = (Inr result, db1)" and "inv db"
    and "incident_codec (kc_lib c)" and "ho_NormalizedState (sg_Observation s) = StateUnhealthy"
    and "\<forall>document. holds (kc_eng c) db1 BucketIncidents (dedupeKey c (sg_Observation s)) = Some document
      \<longrightarrow> int (length document) \<le> maxRecordBytes"
    and "Ingest c signal drawn' db1 = (outcome, db2)" and "signalText c s drawn"
  shows "db2 = db1 \<and> (outcome = Inr again \<longrightarrow> cr_Duplicate again \<and> cr_Incident again = cr_Incident result)"
proof (cases outcome)
  case (Inl e)
  with Ingest_failed assms(7) show ?thesis by simp
next
  case (Inr r2)
  have tx: "ingestTx c s drawn db = Inr (result, db1)" and tx2: "ingestTx c s drawn' db1 = Inr (r2, db2)"
    using assms(1,2,7) Inr by (auto simp: Ingest_def dest: Update_Inr)
  have good: "goodSignal s" using validateSignal_good [OF assms(1)] by blast
  from unhealthy_seen [OF tx assms(3,4,5) refl assms(6) good assms(8)] seen_again [OF tx2] Inr
  show ?thesis by (auto simp: resultOf_def)
qed

end


section \<open>A concrete correlator\<close>

text \<open>Two failures of one rule in successive windows of a second, and a healthy sample after them.\<close>

definition demoObservation :: "string \<Rightarrow> Time \<Rightarrow> NormalizedState \<Rightarrow> HealthObservation" where
  "demoObservation observationID t state =
     \<lparr>ho_SchemaVersion = ''v1'', ho_ObservationID = observationID, ho_TargetID = ''web'',
      ho_RuleID = ''http'', ho_TargetSnapshotVersion = 1, ho_ObservedAt = t, ho_NormalizedState = state,
      ho_BoundedValues = [], ho_EvidenceRefs = [], ho_Sequence = 1\<rparr>"

definition demoSignal :: "string \<Rightarrow> Time \<Rightarrow> NormalizedState \<Rightarrow> Signal" where
  "demoSignal observationID t state =
     \<lparr>sg_Source = ''observer'', sg_ExternalAlertID = [], sg_Severity = SeverityWarning,
      sg_Observation = demoObservation observationID t state\<rparr>"

definition failure1 :: Signal where "failure1 = demoSignal ''o1'' (unixEpoch + 1) StateUnhealthy"
definition failure2 :: Signal where "failure2 = demoSignal ''o2'' (unixEpoch + Second + 1) StateUnhealthy"
definition healthy3 :: Signal where "healthy3 = demoSignal ''o3'' (unixEpoch + 2 * Second + 1) StateHealthy"

definition demoHash :: "string \<Rightarrow> string" where
  "demoHash s = take 64 (s @ replicate 64 CHR ''0'')"

definition demoInputKey :: "string \<Rightarrow> string" where
  "demoInputKey observationID = ''input:'' @ demoHash observationID"

definition demoIncident :: "string \<Rightarrow> string \<Rightarrow> Time \<Rightarrow> string \<Rightarrow> persistedIncident" where
  "demoIncident incidentID key t observationID =
     \<lparr>ps_SchemaVersion = ''v1'', ps_Phase = PhaseCandidate,
      ps_Incident =
        \<lparr>in_SchemaVersion = ''v1'', in_IncidentID = incidentID, in_DedupeKey = key, in_TargetID = ''web'',
         in_RuleIDs = [''http''], in_State = IncidentOpen, in_Severity = SeverityWarning,
         in_OpenedAt = t, in_AnalysisRef = [], in_SelectedRunbookID = [], in_TerminalAt = 0\<rparr>,
      ps_SeenInputs = [demoInputKey observationID]\<rparr>"

definition candidate1 :: persistedIncident where
  "candidate1 = demoIncident ''i1'' ''web/http/0'' (unixEpoch + 1) ''o1''"
definition candidate2 :: persistedIncident where
  "candidate2 = demoIncident ''i2'' ''web/http/1000000000'' (unixEpoch + Second + 1) ''o2''"

definition demoClosed :: "persistedIncident \<Rightarrow> persistedIncident" where
  "demoClosed r =
     advance (r\<lparr>ps_SeenInputs := ps_SeenInputs r @ [demoInputKey ''o3'']\<rparr>) healthy3"

definition demoIncidentTable :: "(persistedIncident \<times> string) list" where
  "demoIncidentTable =
     [(candidate1, ''open1''), (candidate2, ''open2''), (demoClosed candidate1, ''closed1''),
      (demoClosed candidate2, ''closed2'')]"

text \<open>An encoder that knows the records above, and one that encodes every record.\<close>

definition demoIncidentLib :: incident_lib where
  "demoIncidentLib =
     \<lparr>il_json = tableLib, il_record = tableType demoIncidentTable, il_sha = demoHash\<rparr>"


definition demoCorrelator :: "mem_db Correlator" where
  "demoCorrelator = \<lparr>kc_eng = mem_engine, kc_lib = demoIncidentLib, kc_dedupeWindow = Second\<rparr>"


definition demoIncidents :: "string \<Rightarrow> string \<Rightarrow> mem_db" where
  "demoIncidents document1 document2 =
     [(''incidents'', [(''web/http/0'', document1), (''web/http/1000000000'', document2)])]"

lemma demo_Ingest:
  assumes "validateSignal s = Inr s" and "ingestTx demoCorrelator s drawn db = Inr (result, db')"
  shows "Ingest demoCorrelator s drawn db = (Inr result, db')"
  using assms
  by (simp add: Ingest_def Update_def dbUpdate_def normalized_def demoCorrelator_def [THEN arg_cong, of kc_eng])

lemma demo_signals:
  "validateSignal failure1 = Inr failure1" "validateSignal failure2 = Inr failure2"
  "validateSignal healthy3 = Inr healthy3"
  by (code_simp, code_simp, code_simp)

lemma demo_digits: "digitChar 0 = CHR ''0''" "digitChar (Suc 0) = CHR ''1''" "digitChar 2 = CHR ''2''"
  by (code_simp, code_simp, code_simp)

lemma demo_Itoa: "Itoa 1000000000 = ''1000000000''" "Itoa 2000000000 = ''2000000000''" "Itoa 0 = ''0''"
  by (simp_all add: Itoa_def decimal.simps demo_digits)

lemma demo_window:
  "UnixNano (Truncate (unixEpoch + 1) Second) = 0"
  "UnixNano (Truncate (unixEpoch + Second + 1) Second) = 1000000000"
  "UnixNano (Truncate (unixEpoch + 2 * Second + 1) Second) = 2000000000"
  by (simp_all add: UnixNano_def Truncate_def unixEpoch_def Second_def Millisecond_def wrap64_def)

lemma demo_keys:
  "dedupeKey demoCorrelator (sg_Observation failure1) = ''web/http/0''"
  "dedupeKey demoCorrelator (sg_Observation failure2) = ''web/http/1000000000''"
  "dedupeKey demoCorrelator (sg_Observation healthy3) = ''web/http/2000000000''"
  by (simp_all add: dedupeKey_def demoCorrelator_def failure1_def failure2_def healthy3_def demoSignal_def
      demoObservation_def demo_window demo_Itoa)

lemma demo_inputs:
  "signalInputKey (kc_lib demoCorrelator) failure1 = demoInputKey ''o1''"
  "signalInputKey (kc_lib demoCorrelator) failure2 = demoInputKey ''o2''"
  "signalInputKey (kc_lib demoCorrelator) healthy3 = demoInputKey ''o3''"
  by (code_simp, code_simp, code_simp)

lemma demo_states:
  "ho_NormalizedState (sg_Observation failure1) = StateUnhealthy"
  "ho_NormalizedState (sg_Observation failure2) = StateUnhealthy"
  "ho_NormalizedState (sg_Observation healthy3) = StateHealthy"
  by (code_simp, code_simp, code_simp)

lemma demo_open:
  "newCandidate failure1 ''web/http/0'' (demoInputKey ''o1'') (Inr ''i1'') = Inr candidate1"
  "newCandidate failure2 ''web/http/1000000000'' (demoInputKey ''o2'') (Inr ''i2'') = Inr candidate2"
  by (code_simp, code_simp)

lemma demo_get:
  "tx_Get (kc_eng demoCorrelator) BucketIncidents ''web/http/0'' [(''incidents'', [])] = Inr None"
  "tx_Get (kc_eng demoCorrelator) BucketIncidents ''web/http/1000000000''
     [(''incidents'', [(''web/http/0'', ''open1'')])] = Inr None"
  "tx_Get (kc_eng demoCorrelator) BucketIncidents ''web/http/2000000000''
     (demoIncidents ''open1'' ''open2'') = Inr None"
  "tx_Get (kc_eng demoCorrelator) BucketIncidents ''web/http/2000000000''
     (demoIncidents ''open1'' ''closed2'') = Inr None"
  by (code_simp, code_simp, code_simp, code_simp)

lemma demo_put:
  "putIncident demoCorrelator ''web/http/0'' candidate1 [(''incidents'', [])]
     = Inr [(''incidents'', [(''web/http/0'', ''open1'')])]"
  "putIncident demoCorrelator ''web/http/1000000000'' candidate2
     [(''incidents'', [(''web/http/0'', ''open1'')])] = Inr (demoIncidents ''open1'' ''open2'')"
  "putIncident demoCorrelator ''web/http/1000000000'' (demoClosed candidate2)
     (demoIncidents ''open1'' ''open2'') = Inr (demoIncidents ''open1'' ''closed2'')"
  "putIncident demoCorrelator ''web/http/0'' (demoClosed candidate1)
     (demoIncidents ''open1'' ''closed2'') = Inr (demoIncidents ''closed1'' ''closed2'')"
  by (code_simp, code_simp, code_simp, code_simp)

lemma demo_active:
  "findActiveRecord demoCorrelator (sg_Observation healthy3) (demoIncidents ''open1'' ''open2'')
     = Inr (Some (''web/http/1000000000'', candidate2))"
  "findActiveRecord demoCorrelator (sg_Observation healthy3) (demoIncidents ''open1'' ''closed2'')
     = Inr (Some (''web/http/0'', candidate1))"
  by (code_simp, code_simp)

lemma demo_seen:
  "demoInputKey ''o3'' \<notin> set (ps_SeenInputs candidate1)"
  "demoInputKey ''o3'' \<notin> set (ps_SeenInputs candidate2)"
  "advance (candidate1\<lparr>ps_SeenInputs := appendBounded (ps_SeenInputs candidate1) (demoInputKey ''o3'')\<rparr>)
     healthy3 = demoClosed candidate1"
  "advance (candidate2\<lparr>ps_SeenInputs := appendBounded (ps_SeenInputs candidate2) (demoInputKey ''o3'')\<rparr>)
     healthy3 = demoClosed candidate2"
  by (code_simp, code_simp, code_simp, code_simp)

lemmas demo_steps = ingestTx_def Let_def demo_keys demo_inputs demo_states demo_open demo_get demo_put demo_active
  updateIncident_def demo_seen

lemma demo_failure1:
  "Ingest demoCorrelator failure1 (Inr ''i1'') [(''incidents'', [])]
     = (Inr (resultOf candidate1 False), [(''incidents'', [(''web/http/0'', ''open1'')])])"
  by (rule demo_Ingest [OF demo_signals(1)]) (simp add: demo_steps)






lemma demo_correlating: "correlating demoCorrelator mem_inv"
  unfolding correlating_def using mem.bbolt_axioms by (simp add: demoCorrelator_def)

lemma demoIncidentLib_codec: "incident_codec demoIncidentLib"
proof -
  have "distinct (map snd demoIncidentTable)" "\<forall>r \<in> set (map fst demoIncidentTable). ps_SchemaVersion r = ''v1''"
    by (code_simp, code_simp)
  then have "json_codec tableLib (tableType demoIncidentTable) ps_SchemaVersion (\<lambda>_. True)"
    by (intro tableType_codec) blast+
  moreover have "incidentText demoIncidentLib r" for r
    by (simp add: incidentText_def demoIncidentLib_def tableLib_def list_all_iff split: Severity.split)
  ultimately show ?thesis
    by (simp add: incident_codec_def demoIncidentLib_def json_codec_mono tableLib_def)
qed

lemma demo_inv: "mem_inv [(''incidents'', [])]"
  by code_simp

section \<open>Properties\<close>

text \<open>
  C21: effect of a signal. A call of \<open>Ingest\<close> that fails changes nothing. One that succeeds
  either changes nothing, and then says so by marking a duplicate or, for a healthy signal,
  that it was ignored; or it writes one incident record and touches nothing else. That record
  is valid, and it is the lifecycle step of a stored incident that had not seen this input
  yet, or a new candidate which only an unhealthy signal opens and only under a dedupe key that
  held nothing.
\<close>

theorem ingest_effect:
  assumes "correlating c dbinv" and "dbinv db" and "Ingest c signal drawn db = (outcome, db')"
  shows "case outcome of
      Inl e \<Rightarrow> db' = db
    | Inr result \<Rightarrow> \<exists>s. validateSignal signal = Inr s
        \<and> (db' = db \<and> (cr_Duplicate result
              \<or> cr_Ignored result \<and> ho_NormalizedState (sg_Observation s) = StateHealthy)
           \<or> (\<exists>key new. dbinv db' \<and> wrote c db db' key new \<and> result = resultOf new False
               \<and> (advanced c s db key new
                  \<or> key = dedupeKey c (sg_Observation s) \<and> holds (kc_eng c) db BucketIncidents key = None
                    \<and> ho_NormalizedState (sg_Observation s) = StateUnhealthy
                    \<and> newCandidate s key (signalInputKey (kc_lib c) s) drawn = Inr new)))"
proof (cases outcome)
  case (Inl e)
  with correlating.Ingest_failed [OF assms(1)] assms(3) show ?thesis by simp
next
  case (Inr result)
  with assms(3) obtain s where s: "validateSignal signal = Inr s"
    by (auto simp: Ingest_def split: sum.splits)
  from correlating.Ingest_effect [OF assms(1) s assms(3) [unfolded Inr] assms(2)] s Inr show ?thesis
    by auto
qed

theorem ingest_effect_witness:
  "\<exists>key new. wrote demoCorrelator [(''incidents'', [])] [(''incidents'', [(''web/http/0'', ''open1'')])] key new
     \<and> resultOf candidate1 False = resultOf new False"
  using ingest_effect [OF demo_correlating, OF demo_inv demo_failure1]
  by (auto simp: resultOf_def)

text \<open>
  C22: history of an incident. Whatever signals are ingested, in whatever order, with failing
  calls among them, a stored incident keeps its identity, dedupe key, target, rules and opening
  time, its severity never falls, its state only moves along the incident lifecycle, its record
  stays valid, and once its phase is terminal the incident never changes again.
\<close>

theorem incident_history:
  assumes "correlating c dbinv" and "incident_codec (kc_lib c)" and "dbinv db" and "recordAt c db key r"
  shows "\<exists>r'. recordAt c (ingestAll c inputs db) key r' \<and> develops r r'"
  using correlating.ingestAll_develops [OF assms] .

theorem incident_history_witness:
  "\<exists>r'. recordAt demoCorrelator (ingestAll demoCorrelator [(failure2, Inr ''i2''), (healthy3, Inr ''i3'')]
       [(''incidents'', [(''web/http/0'', ''open1'')])]) ''web/http/0'' r' \<and> develops candidate1 r'"
proof (rule incident_history [OF demo_correlating])
  show "incident_codec (kc_lib demoCorrelator)"
    using demoIncidentLib_codec by (simp add: demoCorrelator_def)
  show "mem_inv [(''incidents'', [(''web/http/0'', ''open1'')])]" by code_simp
  have "validateIncidentRecord candidate1 = None" by code_simp
  moreover have "holds (kc_eng demoCorrelator) [(''incidents'', [(''web/http/0'', ''open1'')])]
      BucketIncidents ''web/http/0'' = Some ''open1''" by code_simp
  moreover have "jt_decode (il_record (kc_lib demoCorrelator)) ''open1'' = Inr (candidate1, ([], EOF))" by code_simp
  ultimately show "recordAt demoCorrelator [(''incidents'', [(''web/http/0'', ''open1'')])] ''web/http/0'' candidate1"
    unfolding recordAt_def by blast
qed



text \<open>
  C24: replayed failures. Ingesting an unhealthy signal a second time, right after the first,
  changes nothing, and if the second call succeeds it reports a duplicate and the incident the
  first call reported. The strings of the signal must be valid text, and the record must fit the
  size its reader accepts.
\<close>

theorem replayed_failure_duplicate:
  assumes "correlating c dbinv" and "incident_codec (kc_lib c)" and "dbinv db"
    and "validateSignal signal = Inr s" and "ho_NormalizedState (sg_Observation s) = StateUnhealthy"
    and "Ingest c signal drawn db = (Inr result, db1)"
    and "\<forall>document. holds (kc_eng c) db1 BucketIncidents (dedupeKey c (sg_Observation s)) = Some document
      \<longrightarrow> int (length document) \<le> maxRecordBytes"
    and "Ingest c signal drawn' db1 = (outcome, db2)" and "signalText c s drawn"
  shows "db2 = db1 \<and> (\<forall>again. outcome = Inr again \<longrightarrow> cr_Duplicate again \<and> cr_Incident again = cr_Incident result)"
  using correlating.replayed [OF assms(1,4,6,3,2,5,7,8,9)] by blast

theorem replayed_failure_duplicate_witness:
  "snd (Ingest demoCorrelator failure1 (Inr ''i9'') [(''incidents'', [(''web/http/0'', ''open1'')])])
     = [(''incidents'', [(''web/http/0'', ''open1'')])]"
proof -
  let ?db = "[(''incidents'', [(''web/http/0'', ''open1'')])]"
  have codec: "incident_codec (kc_lib demoCorrelator)"
    using demoIncidentLib_codec by (simp add: demoCorrelator_def)
  have readable: "signalText demoCorrelator failure1 (Inr ''i1'')"
    by (simp add: signalText_def demoCorrelator_def demoIncidentLib_def tableLib_def)
  have "holds (kc_eng demoCorrelator) ?db BucketIncidents ''web/http/0'' = Some ''open1''" by code_simp
  then have "\<forall>document. holds (kc_eng demoCorrelator) ?db BucketIncidents (dedupeKey demoCorrelator
      (sg_Observation failure1)) = Some document \<longrightarrow> int (length document) \<le> maxRecordBytes"
    by (simp add: demo_keys maxRecordBytes_def)
  from replayed_failure_duplicate [OF demo_correlating, OF codec demo_inv demo_signals(1) demo_states(1) demo_failure1
      this prod.collapse [symmetric] readable] show ?thesis by blast
qed


end
