(* ===== verification/Stabilizing.thy ===== *)
theory Stabilizing
  imports Coordinator "HOL-Library.Sublist"
begin

text \<open>
  The stabilization verifier, \<open>src/internal/stabilization/verifier.go\<close>: the persisted result of
  one attempt, its validation and storage, the check of a health sample, the retry decision and
  \<open>Verify\<close>. The probe, the retry-state source and the clock are answers given with each call;
  the finalizer, the encoder and the hash are parameters. An attempt is also described as an
  abstract state machine, which \<open>Verify\<close> refines. The lemmas show what a success and a scheduled
  retry have been preceded by, that a settled result never changes, where the sample counter
  ends, and what a success means for the journal when the coordinator is the finalizer.
\<close>

section \<open>Data\<close>

definition maxRecoverySamples :: int where "maxRecoverySamples = 256"
definition maxStabilizationDocSize :: int where "maxStabilizationDocSize = 64 * 1024"
definition stabilizationKeyPrefix :: string where "stabilizationKeyPrefix = ''stabilization/''"

record RetryState =
  ry_Target :: ServiceTarget
  ry_PolicySnapshot :: Snapshot
  ry_PolicyInput :: PolicyInput

record Sample =
  sm_Healthy :: bool
  sm_Metrics :: "(string \<times> float64) list"

datatype StabilizationOutcome =
    OutcomePending | OutcomeSucceeded | OutcomeRetryScheduled | OutcomeFailed
  | StabilizationOutcomeOther string

datatype FailureReason =
    FailureUnhealthy | FailureFlapping | FailureTimeout | FailureMetricRegression
  | FailureDockerUnavailable | FailureProbe | FailureOther string

text \<open>The empty reason.\<close>

abbreviation FailureNone :: FailureReason where
  "FailureNone \<equiv> FailureOther []"

record VerifyRequest =
  vq_Command :: RecoveryCommand
  vq_Target :: ServiceTarget
  vq_Policy :: StabilizationPolicy
  vq_RetryPolicy :: RetryPolicy
  vq_Attempt :: int

record VerifyResult =
  vr_CommandID :: string
  vr_ExecutionSucceeded :: bool
  vr_Attempt :: int
  vr_StartedAt :: Time
  vr_HealthySamples :: int
  vr_Outcome :: StabilizationOutcome
  vr_FailureReason :: FailureReason
  vr_RetryReason :: ReasonCode
  vr_NextAttempt :: int

record resultRecord =
  vs_SchemaVersion :: string
  vs_CommandID :: string
  vs_ExecutionSucceeded :: bool
  vs_Attempt :: int
  vs_StartedAt :: Time
  vs_HealthySamples :: int
  vs_Outcome :: StabilizationOutcome
  vs_FailureReason :: FailureReason
  vs_RetryReason :: ReasonCode
  vs_NextAttempt :: int

definition zeroVerifyResult :: VerifyResult where
  "zeroVerifyResult =
     \<lparr>vr_CommandID = [], vr_ExecutionSucceeded = False, vr_Attempt = 0, vr_StartedAt = 0,
      vr_HealthySamples = 0, vr_Outcome = StabilizationOutcomeOther [], vr_FailureReason = FailureNone,
      vr_RetryReason = ReasonNone, vr_NextAttempt = 0\<rparr>"

definition recordResult :: "resultRecord \<Rightarrow> VerifyResult" where
  "recordResult r =
     \<lparr>vr_CommandID = vs_CommandID r, vr_ExecutionSucceeded = vs_ExecutionSucceeded r,
      vr_Attempt = vs_Attempt r, vr_StartedAt = vs_StartedAt r,
      vr_HealthySamples = vs_HealthySamples r, vr_Outcome = vs_Outcome r,
      vr_FailureReason = vs_FailureReason r, vr_RetryReason = vs_RetryReason r,
      vr_NextAttempt = vs_NextAttempt r\<rparr>"

record verifier_lib =
  vl_json :: json_lib
  vl_record :: "resultRecord json_type"
  vl_sha :: "string \<Rightarrow> string"

text \<open>\<open>CompleteStabilization\<close> of the finalizer returns the command and may change the store.\<close>

record 'db Verifier =
  ve_eng :: "'db engine"
  ve_lib :: verifier_lib
  ve_finalizer :: "string \<Rightarrow> bool \<Rightarrow> 'db \<Rightarrow> (error + RecoveryCommand) \<times> 'db"

text \<open>What the clock, the probe and the retry-state source answer during one call.\<close>

record verify_answers =
  an_Now :: Time
  an_Observe :: "ServiceTarget \<Rightarrow> error + Sample"
  an_RetryState :: "RecoveryCommand \<Rightarrow> error + RetryState"

section \<open>Validation\<close>

definition validateVerifyRequest :: "VerifyRequest \<Rightarrow> error option" where
  "validateVerifyRequest request =
     (if RecoveryCommand_Validate (vq_Command request) \<noteq> None
         \<or> rc_State (vq_Command request) \<noteq> RecoveryStabilizing
         \<or> st_SchemaVersion (vq_Target request) \<noteq> SchemaVersionV1
         \<or> \<not> st_Enabled (vq_Target request)
         \<or> st_TargetID (vq_Target request) \<noteq> rc_TargetID (vq_Command request)
         \<or> sp_RecoverySamples (vq_Policy request) < 1
         \<or> sp_RecoverySamples (vq_Policy request) > maxRecoverySamples
         \<or> sp_Window (vq_Policy request) \<le> 0
         \<or> rp_MaxAttempts (vq_RetryPolicy request) < 1
         \<or> vq_Attempt request < 0
         \<or> vq_Attempt request \<ge> rp_MaxAttempts (vq_RetryPolicy request)
      then Some (Stabilization ErrStabilizationRequest) else None)"

fun validFailureReason :: "FailureReason \<Rightarrow> bool" where
  "validFailureReason (FailureOther s) = (s = [])"
| "validFailureReason _ = True"

definition validOutcomeFields :: "resultRecord \<Rightarrow> bool" where
  "validOutcomeFields r =
     (case vs_Outcome r of
        OutcomePending \<Rightarrow>
          \<not> (vs_FailureReason r \<noteq> FailureNone \<or> vs_RetryReason r \<noteq> ReasonNone \<or> vs_NextAttempt r \<noteq> -1)
      | OutcomeSucceeded \<Rightarrow>
          \<not> (vs_FailureReason r \<noteq> FailureNone \<or> vs_RetryReason r \<noteq> ReasonNone \<or> vs_NextAttempt r \<noteq> -1)
      | OutcomeRetryScheduled \<Rightarrow>
          \<not> (\<not> validFailureReason (vs_FailureReason r) \<or> vs_FailureReason r = FailureNone
             \<or> vs_RetryReason r \<noteq> ReasonAllowed \<or> vs_NextAttempt r \<noteq> vs_Attempt r + 1)
      | OutcomeFailed \<Rightarrow>
          \<not> (\<not> validFailureReason (vs_FailureReason r) \<or> vs_FailureReason r = FailureNone
             \<or> vs_NextAttempt r \<noteq> -1)
      | StabilizationOutcomeOther _ \<Rightarrow> False)"

definition validateResultRecord :: "resultRecord \<Rightarrow> error option" where
  "validateResultRecord r =
     (if vs_SchemaVersion r \<noteq> SchemaVersionV1 \<or> vs_CommandID r = [] \<or> \<not> vs_ExecutionSucceeded r
         \<or> vs_Attempt r < 0 \<or> IsZero (vs_StartedAt r) \<or> vs_HealthySamples r < 0
         \<or> vs_HealthySamples r > maxRecoverySamples \<or> vs_NextAttempt r < -1
      then Some (Stabilization ErrCorruptResult)
      else if \<not> validOutcomeFields r then Some (Stabilization ErrCorruptResult)
      else None)"

fun finiteFloat :: "float64 \<Rightarrow> bool" where
  "finiteFloat (Fin _) = True"
| "finiteFloat _ = False"

definition validSample :: "Sample \<Rightarrow> bool" where
  "validSample sample = list_all (\<lambda>(_, value'). finiteFloat value') (sm_Metrics sample)"

fun metricsMeetRules :: "(string \<times> float64) list \<Rightarrow> ProbeRule list \<Rightarrow> bool" where
  "metricsMeetRules metrics [] = True"
| "metricsMeetRules metrics (rule # rules) =
     (case map_of metrics (pr_SignalType rule) of
        None \<Rightarrow> False
      | Some measured \<Rightarrow>
          if pr_SignalType rule = ''availability''
          then (if float_less measured (pr_Threshold rule) then False else metricsMeetRules metrics rules)
          else (if float_less (pr_Threshold rule) measured then False else metricsMeetRules metrics rules))"

text \<open>\<open>errors.Is\<close> against the sentinels of the Docker adapter and the context deadline.\<close>

definition probeFailureReason :: "error \<Rightarrow> FailureReason" where
  "probeFailureReason e =
     (if e = Docker ErrUnavailable then FailureDockerUnavailable
      else if e = Docker ErrTimeout \<or> e = DeadlineExceeded then FailureTimeout
      else FailureProbe)"

definition sameTarget :: "ServiceTarget \<Rightarrow> ServiceTarget \<Rightarrow> bool" where
  "sameTarget left right \<longleftrightarrow>
     st_SchemaVersion left = st_SchemaVersion right \<and> st_TargetID left = st_TargetID right
     \<and> st_AdapterType left = st_AdapterType right \<and> st_Selector left = st_Selector right
     \<and> st_Enabled left = st_Enabled right"

section \<open>Stored results\<close>

definition resultKey :: "verifier_lib \<Rightarrow> string \<Rightarrow> int \<Rightarrow> string" where
  "resultKey lib commandID attempt =
     stabilizationKeyPrefix @ vl_sha lib (commandID @ [NUL] @ Itoa attempt)"

definition resultDecodeOptions :: "resultRecord DecodeOptions" where
  "resultDecodeOptions =
     \<lparr>do_MaxBytes = maxStabilizationDocSize, do_SchemaVersion = SchemaVersionV1,
      do_Validate = Some validateResultRecord\<rparr>"

definition decodeResult :: "verifier_lib \<Rightarrow> string \<Rightarrow> error + resultRecord" where
  "decodeResult lib document =
     (case Decode (vl_json lib) (vl_record lib) document resultDecodeOptions of
        Inl _ \<Rightarrow> Inl (Stabilization ErrCorruptResult)
      | Inr r \<Rightarrow> Inr r)"

definition loadResultTx :: "'db Verifier \<Rightarrow> string \<Rightarrow> int \<Rightarrow> 'db \<Rightarrow> error + resultRecord option" where
  "loadResultTx v commandID attempt tx =
     bindR (tx_Get (ve_eng v) BucketStabilizationResults (resultKey (ve_lib v) commandID attempt) tx)
       (\<lambda>found. case found of
          None \<Rightarrow> Inr None
        | Some document \<Rightarrow> bindR (decodeResult (ve_lib v) document) (\<lambda>r. Inr (Some r)))"

definition loadResult :: "'db Verifier \<Rightarrow> string \<Rightarrow> int \<Rightarrow> 'db \<Rightarrow> error + resultRecord option" where
  "loadResult v commandID attempt db =
     bindR (View (ve_eng v) (loadResultTx v commandID attempt) db) (\<lambda>found.
       case found of
         None \<Rightarrow> Inr None
       | Some r \<Rightarrow>
           if vs_CommandID r \<noteq> commandID \<or> vs_Attempt r \<noteq> attempt
           then Inl (Stabilization ErrCorruptResult) else Inr (Some r))"

definition persistResult :: "'db Verifier \<Rightarrow> resultRecord \<Rightarrow> 'db \<Rightarrow> (error + unit) \<times> 'db" where
  "persistResult v r db =
     (case validateResultRecord r of
        Some _ \<Rightarrow> (Inl (Stabilization ErrCorruptResult), db)
      | None \<Rightarrow>
          (case jt_marshal (vl_record (ve_lib v)) r of
             Inl e \<Rightarrow> (Inl e, db)
           | Inr document \<Rightarrow>
               Update (ve_eng v) (\<lambda>tx. bindR (tx_Put (ve_eng v) BucketStabilizationResults
                 (resultKey (ve_lib v) (vs_CommandID r) (vs_Attempt r)) document tx)
                 (\<lambda>tx'. Inr ((), tx'))) db))"

section \<open>Verification\<close>

definition verifierNow :: "Time \<Rightarrow> error + Time" where
  "verifierNow now = (if IsZero now then Inl (Stabilization ErrStabilizationOptions) else Inr now)"

definition completeCommand :: "'db Verifier \<Rightarrow> string \<Rightarrow> bool \<Rightarrow> 'db \<Rightarrow> error option \<times> 'db" where
  "completeCommand v commandID succeeded db =
     (case ve_finalizer v commandID succeeded db of
        (Inl e, db') \<Rightarrow> (Some e, db')
      | (Inr _, db') \<Rightarrow> (None, db'))"

text \<open>The ending shared by every settled result: \<open>complete\<close>, then \<open>persist\<close>, then the result.\<close>

definition settle :: "'db Verifier \<Rightarrow> resultRecord \<Rightarrow> bool \<Rightarrow> 'db \<Rightarrow> (error + VerifyResult) \<times> 'db" where
  "settle v r succeeded db =
     (case completeCommand v (vs_CommandID r) succeeded db of
        (Some e, db1) \<Rightarrow> (Inl e, db1)
      | (None, db1) \<Rightarrow>
          (case persistResult v r db1 of
             (Inl e, db2) \<Rightarrow> (Inl e, db2)
           | (Inr _, db2) \<Rightarrow> (Inr (recordResult r), db2)))"

definition retryDecision ::
    "(RecoveryCommand \<Rightarrow> error + RetryState) \<Rightarrow> VerifyRequest \<Rightarrow> Time \<Rightarrow> error + Decision" where
  "retryDecision loadRetryState request now =
     bindR (loadRetryState (vq_Command request)) (\<lambda>state.
       let input = ry_PolicyInput state; command = vq_Command request in
       if pi_RunbookID input \<noteq> rc_RunbookID command \<or> pi_TargetID input \<noteq> rc_TargetID command
          \<or> pi_ActionIndex input \<noteq> rc_ActionIndex command
          \<or> \<not> sameTarget (ry_Target state) (vq_Target request)
       then Inr \<lparr>de_Verdict = VerdictDeny, de_ReasonCode = ReasonInvalidPolicy\<rparr>
       else Inr (Evaluate (ry_PolicySnapshot state)
         (input\<lparr>pi_CommandID := rc_CommandID command, pi_RunbookDigest := rc_RunbookDigest command,
            pi_Now := now, pi_AttemptCount := max (pi_AttemptCount input) (vq_Attempt request + 1)\<rparr>)))"

text \<open>
  A Go call may return a result beside an error: the returned pair, and the contents left behind.
\<close>

type_synonym 'db verified = "(VerifyResult \<times> error option) \<times> 'db"

definition returning :: "(error + VerifyResult) \<times> 'db \<Rightarrow> 'db verified" where
  "returning p = (case p of
      (Inl e, db) \<Rightarrow> ((zeroVerifyResult, Some e), db)
    | (Inr result, db) \<Rightarrow> ((result, None), db))"

definition failVerification ::
    "'db Verifier \<Rightarrow> verify_answers \<Rightarrow> VerifyRequest \<Rightarrow> resultRecord \<Rightarrow> FailureReason \<Rightarrow> 'db \<Rightarrow> 'db verified" where
  "failVerification v answers request r reason db =
     (let r1 = r\<lparr>vs_FailureReason := reason, vs_HealthySamples := 0, vs_NextAttempt := -1\<rparr> in
      if vq_Attempt request + 1 < rp_MaxAttempts (vq_RetryPolicy request) then
        (case retryDecision (an_RetryState answers) request (an_Now answers) of
           Inl e \<Rightarrow>
             (let r2 = r1\<lparr>vs_Outcome := OutcomeFailed, vs_RetryReason := ReasonInvalidPolicy\<rparr> in
              case settle v r2 False db of
                (Inl e', db') \<Rightarrow> ((zeroVerifyResult, Some e'), db')
              | (Inr result, db') \<Rightarrow> ((result, Some e), db'))
         | Inr decision \<Rightarrow>
             (let r2 = r1\<lparr>vs_RetryReason := de_ReasonCode decision\<rparr>;
                  r3 = (if de_Verdict decision = VerdictAllow
                        then r2\<lparr>vs_Outcome := OutcomeRetryScheduled, vs_NextAttempt := vq_Attempt request + 1\<rparr>
                        else r2\<lparr>vs_Outcome := OutcomeFailed\<rparr>)
              in returning (settle v r3 False db)))
      else
        returning (settle v (r1\<lparr>vs_Outcome := OutcomeFailed, vs_RetryReason := ReasonRetryExhausted\<rparr>) False db))"

definition newResultRecord :: "VerifyRequest \<Rightarrow> Time \<Rightarrow> resultRecord" where
  "newResultRecord request now =
     \<lparr>vs_SchemaVersion = SchemaVersionV1, vs_CommandID = rc_CommandID (vq_Command request),
      vs_ExecutionSucceeded = True, vs_Attempt = vq_Attempt request, vs_StartedAt = now,
      vs_HealthySamples = 0, vs_Outcome = OutcomePending, vs_FailureReason = FailureNone,
      vs_RetryReason = ReasonNone, vs_NextAttempt = -1\<rparr>"

text \<open>The part of \<open>Verify\<close> that judges the sample, from the probe on.\<close>

definition judgeSample ::
    "'db Verifier \<Rightarrow> verify_answers \<Rightarrow> VerifyRequest \<Rightarrow> resultRecord \<Rightarrow> Time \<Rightarrow> 'db \<Rightarrow> 'db verified" where
  "judgeSample v answers request r deadline db =
     (case an_Observe answers (vq_Target request) of
        Inl e \<Rightarrow> failVerification v answers request r (probeFailureReason e) db
      | Inr sample \<Rightarrow>
          if \<not> validSample sample then failVerification v answers request r FailureProbe db
          else if \<not> sm_Healthy sample
          then failVerification v answers request r
                 (if vs_HealthySamples r > 0 then FailureFlapping else FailureUnhealthy) db
          else if \<not> metricsMeetRules (sm_Metrics sample) (st_ProbeRules (vq_Target request))
          then failVerification v answers request r FailureMetricRegression db
          else
            let r' = r\<lparr>vs_HealthySamples := vs_HealthySamples r + 1\<rparr> in
            if vs_HealthySamples r' \<ge> sp_RecoverySamples (vq_Policy request) \<and> \<not> an_Now answers < deadline
            then returning (settle v (r'\<lparr>vs_Outcome := OutcomeSucceeded\<rparr>) True db)
            else (case persistResult v r' db of
                    (Inl e, db') \<Rightarrow> ((zeroVerifyResult, Some e), db')
                  | (Inr _, db') \<Rightarrow> ((recordResult r', None), db')))"

text \<open>The part after the stored result was found pending, or absent.\<close>

definition verifyPending ::
    "'db Verifier \<Rightarrow> verify_answers \<Rightarrow> VerifyRequest \<Rightarrow> resultRecord \<Rightarrow> 'db \<Rightarrow> 'db verified" where
  "verifyPending v answers request r db =
     (let deadline = vs_StartedAt r + sp_Window (vq_Policy request) in
      if an_Now answers > deadline then failVerification v answers request r FailureTimeout db
      else judgeSample v answers request r deadline db)"

definition Verify :: "'db Verifier \<Rightarrow> verify_answers \<Rightarrow> VerifyRequest \<Rightarrow> 'db \<Rightarrow> 'db verified" where
  "Verify v answers request db =
     (if validateVerifyRequest request \<noteq> None
      then ((zeroVerifyResult, Some (Stabilization ErrStabilizationRequest)), db)
      else case verifierNow (an_Now answers) of
        Inl e \<Rightarrow> ((zeroVerifyResult, Some e), db)
      | Inr now \<Rightarrow>
          (case loadResult v (rc_CommandID (vq_Command request)) (vq_Attempt request) db of
             Inl e \<Rightarrow> ((zeroVerifyResult, Some e), db)
           | Inr None \<Rightarrow> verifyPending v answers request (newResultRecord request now) db
           | Inr (Some r) \<Rightarrow>
               if vs_Outcome r \<noteq> OutcomePending then ((recordResult r, None), db)
               else verifyPending v answers request r db))"

section \<open>The attempt as a state machine\<close>

text \<open>A sample that counts.\<close>

definition passes :: "VerifyRequest \<Rightarrow> verify_answers \<Rightarrow> bool" where
  "passes request answers \<longleftrightarrow>
     (\<exists>sample. an_Observe answers (vq_Target request) = Inr sample \<and> validSample sample
        \<and> sm_Healthy sample \<and> metricsMeetRules (sm_Metrics sample) (st_ProbeRules (vq_Target request)))"

abbreviation deadlineOf :: "VerifyRequest \<Rightarrow> resultRecord \<Rightarrow> Time" where
  "deadlineOf request r \<equiv> vs_StartedAt r + sp_Window (vq_Policy request)"

text \<open>How one call may develop a pending attempt.\<close>

inductive develops_to :: "VerifyRequest \<Rightarrow> verify_answers \<Rightarrow> resultRecord \<Rightarrow> resultRecord \<Rightarrow> bool"
  for request answers where
  counted: "passes request answers \<Longrightarrow> an_Now answers \<le> deadlineOf request r \<Longrightarrow>
     develops_to request answers r (r\<lparr>vs_HealthySamples := vs_HealthySamples r + 1\<rparr>)"
| succeeded: "passes request answers \<Longrightarrow> an_Now answers = deadlineOf request r \<Longrightarrow>
     sp_RecoverySamples (vq_Policy request) \<le> vs_HealthySamples r + 1 \<Longrightarrow>
     develops_to request answers r
       (r\<lparr>vs_HealthySamples := vs_HealthySamples r + 1, vs_Outcome := OutcomeSucceeded\<rparr>)"
| retried: "vq_Attempt request + 1 < rp_MaxAttempts (vq_RetryPolicy request) \<Longrightarrow>
     retryDecision (an_RetryState answers) request (an_Now answers) = Inr decision \<Longrightarrow>
     de_Verdict decision = VerdictAllow \<Longrightarrow>
     \<not> passes request answers \<or> an_Now answers > deadlineOf request r \<Longrightarrow>
     develops_to request answers r
       (r\<lparr>vs_FailureReason := reason, vs_HealthySamples := 0, vs_RetryReason := de_ReasonCode decision,
          vs_Outcome := OutcomeRetryScheduled, vs_NextAttempt := vq_Attempt request + 1\<rparr>)"
| gaveUp: "\<not> passes request answers \<or> an_Now answers > deadlineOf request r \<Longrightarrow>
     develops_to request answers r
       (r\<lparr>vs_FailureReason := reason, vs_HealthySamples := 0, vs_RetryReason := code,
          vs_Outcome := OutcomeFailed, vs_NextAttempt := -1\<rparr>)"

inductive_simps develops_to_simps: "develops_to request answers r r'"

text \<open>
  The abstract attempt: absent or a record. A call leaves it alone, or develops it while it is
  pending; the first call that records anything starts the attempt at its own time.
\<close>

inductive attempt_step ::
    "VerifyRequest \<Rightarrow> verify_answers \<Rightarrow> resultRecord option \<Rightarrow> resultRecord option \<Rightarrow> bool"
  for request answers where
  idle: "attempt_step request answers s s"
| started: "an_Now answers \<noteq> 0 \<Longrightarrow> develops_to request answers (newResultRecord request (an_Now answers)) r' \<Longrightarrow>
     validateResultRecord r' = None \<Longrightarrow> attempt_step request answers None (Some r')"
| developed: "vs_Outcome r = OutcomePending \<Longrightarrow> develops_to request answers r r' \<Longrightarrow>
     validateResultRecord r' = None \<Longrightarrow> attempt_step request answers (Some r) (Some r')"

inductive_cases attempt_step_cases:
  "attempt_step request answers None s'"
  "attempt_step request answers (Some r) s'"

text \<open>The abstract state a store holds for an attempt.\<close>

definition attemptState :: "'db Verifier \<Rightarrow> VerifyRequest \<Rightarrow> 'db \<Rightarrow> resultRecord option" where
  "attemptState v request db =
     (case holds (ve_eng v) db BucketStabilizationResults
             (resultKey (ve_lib v) (rc_CommandID (vq_Command request)) (vq_Attempt request)) of
        None \<Rightarrow> None
      | Some document \<Rightarrow>
          (case jt_decode (vl_record (ve_lib v)) document of
             Inl _ \<Rightarrow> None
           | Inr (r, _) \<Rightarrow> Some r))"

text \<open>
  What the encoder promises: records whose strings are valid text survive it, and decoded records
  are such.
\<close>

fun reasonText :: "json_lib \<Rightarrow> ReasonCode \<Rightarrow> bool" where
  "reasonText lib (ReasonOther s) = jl_text lib s"
| "reasonText lib _ = True"

definition resultText :: "verifier_lib \<Rightarrow> resultRecord \<Rightarrow> bool" where
  "resultText lib r \<longleftrightarrow> jl_text (vl_json lib) (vs_CommandID r) \<and> reasonText (vl_json lib) (vs_RetryReason r)"

definition result_codec :: "verifier_lib \<Rightarrow> bool" where
  "result_codec lib \<longleftrightarrow>
     json_codec (vl_json lib) (vl_record lib) vs_SchemaVersion
       (\<lambda>r. validateResultRecord r = None \<and> resultText lib r)
     \<and> (\<forall>document r rest. jt_decode (vl_record lib) document = Inr (r, rest) \<longrightarrow> resultText lib r)
     \<and> jl_text (vl_json lib) []"

abbreviation requestText :: "'db Verifier \<Rightarrow> VerifyRequest \<Rightarrow> bool" where
  "requestText v request \<equiv> jl_text (vl_json (ve_lib v)) (rc_CommandID (vq_Command request))"

lemma Evaluate_reasonText:
  assumes "jl_text lib []"
  shows "reasonText lib (de_ReasonCode (Evaluate snapshot input))"
  using assms
  by (simp add: Evaluate_def policyRunbook_def approval_def Let_def zeroDecision_def split: option.split)

lemma retryDecision_text:
  assumes "jl_text lib []" and "retryDecision load request now = Inr decision"
  shows "reasonText lib (de_ReasonCode decision)"
  using assms Evaluate_reasonText [OF assms(1)]
  by (auto simp: retryDecision_def result_simps Let_def split: if_splits)

text \<open>What an allowed retry rests on.\<close>

lemma Evaluate_allow_attempts:
  assumes "de_Verdict (Evaluate snapshot input) = VerdictAllow"
  shows "\<exists>registered \<in> set (sn_Runbooks snapshot). rb_RunbookID (rr_Runbook registered) = pi_RunbookID input
    \<and> pi_AttemptCount input < rp_MaxAttempts (rb_RetryPolicy (rr_Runbook registered))"
proof -
  from assms obtain registered where r: "policyRunbook snapshot input = Inr registered"
    by (cases "policyRunbook snapshot input") (auto simp: Evaluate_def)
  then have "findRunbook (sn_Runbooks snapshot) (pi_RunbookID input) = Some registered"
    by (auto simp: policyRunbook_def split: if_splits option.splits)
  then have "registered \<in> set (sn_Runbooks snapshot)" "rb_RunbookID (rr_Runbook registered) = pi_RunbookID input"
    using findRunbook_Some by blast+
  moreover from assms r have "pi_AttemptCount input < rp_MaxAttempts (rb_RetryPolicy (rr_Runbook registered))"
    by (auto simp: Evaluate_def Let_def split: if_splits)
  ultimately show ?thesis by blast
qed

lemma retryDecision_allowed:
  assumes "retryDecision load request now = Inr decision" and "de_Verdict decision = VerdictAllow"
  shows "\<exists>state registered. load (vq_Command request) = Inr state
    \<and> pi_RunbookID (ry_PolicyInput state) = rc_RunbookID (vq_Command request)
    \<and> pi_TargetID (ry_PolicyInput state) = rc_TargetID (vq_Command request)
    \<and> pi_ActionIndex (ry_PolicyInput state) = rc_ActionIndex (vq_Command request)
    \<and> registered \<in> set (sn_Runbooks (ry_PolicySnapshot state))
    \<and> rb_RunbookID (rr_Runbook registered) = rc_RunbookID (vq_Command request)
    \<and> vq_Attempt request + 1 < rp_MaxAttempts (rb_RetryPolicy (rr_Runbook registered))"
proof -
  from assms obtain state where state: "load (vq_Command request) = Inr state"
    and fields: "pi_RunbookID (ry_PolicyInput state) = rc_RunbookID (vq_Command request)"
    "pi_TargetID (ry_PolicyInput state) = rc_TargetID (vq_Command request)"
    "pi_ActionIndex (ry_PolicyInput state) = rc_ActionIndex (vq_Command request)"
    and eval: "decision = Evaluate (ry_PolicySnapshot state)
      ((ry_PolicyInput state)\<lparr>pi_CommandID := rc_CommandID (vq_Command request),
         pi_RunbookDigest := rc_RunbookDigest (vq_Command request), pi_Now := now,
         pi_AttemptCount := max (pi_AttemptCount (ry_PolicyInput state)) (vq_Attempt request + 1)\<rparr>)"
    by (auto simp: retryDecision_def Let_def result_simps split: if_splits)
  from Evaluate_allow_attempts [OF assms(2) [unfolded eval]] fields state show ?thesis by fastforce
qed

section \<open>Verify refines the state machine\<close>

lemma decodeResult_Inr:
  "decodeResult lib document = Inr r \<Longrightarrow>
     jt_decode (vl_record lib) document = Inr (r, ([], EOF)) \<and> validateResultRecord r = None"
  by (auto simp: decodeResult_def Decode_Inr resultDecodeOptions_def split: sum.splits)

text \<open>
  The verifier's contract with its store and its finalizer: completing a command leaves the
  stored stabilization results alone.
\<close>

locale verifying = bbolt "ve_eng v" inv for v :: "'db Verifier" and inv :: "'db \<Rightarrow> bool" +
  assumes finalizer_keeps: "inv db \<Longrightarrow> ve_finalizer v commandID flag db = (r, db') \<Longrightarrow>
      inv db' \<and> same_bucket (ve_eng v) BucketStabilizationResults db db'"
    and codec: "result_codec (ve_lib v)"
begin

lemma attemptState_same:
  "same_bucket (ve_eng v) BucketStabilizationResults db db' \<Longrightarrow>
     attemptState v request db' = attemptState v request db"
  by (simp add: attemptState_def same_bucket_def del: bucketName.simps)

lemma load_state:
  assumes "loadResult v (rc_CommandID (vq_Command request)) (vq_Attempt request) db = Inr found"
  shows "attemptState v request db = found"
proof -
  obtain loaded where loaded: "loadResultTx v (rc_CommandID (vq_Command request)) (vq_Attempt request) db = Inr loaded"
    "(case loaded of None \<Rightarrow> Inr None
       | Some r \<Rightarrow> if vs_CommandID r \<noteq> rc_CommandID (vq_Command request) \<or> vs_Attempt r \<noteq> vq_Attempt request
           then Inl (Stabilization ErrCorruptResult) else Inr (Some r)) = Inr found"
    using assms unfolding loadResult_def bindR_eq_Inr by (blast dest: View_Inr)
  from loaded(2) have "loaded = found" by (cases loaded) (simp_all split: if_splits)
  with loaded(1) obtain document where
    get: "tx_Get (ve_eng v) BucketStabilizationResults
        (resultKey (ve_lib v) (rc_CommandID (vq_Command request)) (vq_Attempt request)) db = Inr document"
    and doc: "(case document of None \<Rightarrow> Inr None
        | Some document \<Rightarrow> bindR (decodeResult (ve_lib v) document) (\<lambda>r. Inr (Some r))) = Inr found"
    unfolding loadResultTx_def bindR_eq_Inr by blast
  from get have "holds (ve_eng v) db BucketStabilizationResults
      (resultKey (ve_lib v) (rc_CommandID (vq_Command request)) (vq_Attempt request)) = document"
    by (auto simp: tx_Get_def result_simps simp del: bucketName.simps split: if_splits)
  with doc show ?thesis
    by (cases document) (auto simp: attemptState_def result_simps simp del: bucketName.simps dest: decodeResult_Inr)
qed

lemma load_ids:
  assumes "loadResult v commandID attempt db = Inr (Some r)"
  shows "vs_CommandID r = commandID \<and> vs_Attempt r = attempt"
  using assms by (auto simp: loadResult_def result_simps split: option.splits if_splits)

lemma persist_effect:
  assumes "persistResult v r db = (outcome, db')" and "inv db"
    and "vs_CommandID r = rc_CommandID (vq_Command request)" "vs_Attempt r = vq_Attempt request"
    and "resultText (ve_lib v) r"
  shows "inv db' \<and> (outcome = Inr () \<and> validateResultRecord r = None \<and> attemptState v request db' = Some r
    \<or> (\<exists>e. outcome = Inl e) \<and> db' = db) \<and> same_bucket (ve_eng v) BucketCommandJournal db db'"
proof (cases outcome)
  case (Inl e)
  with assms(1,2) show ?thesis
    by (auto simp: persistResult_def split: option.splits sum.splits dest: Update_Inl)
next
  case (Inr u)
  with assms(1) obtain document where doc: "validateResultRecord r = None"
    "jt_marshal (vl_record (ve_lib v)) r = Inr document"
    "tx_Put (ve_eng v) BucketStabilizationResults (resultKey (ve_lib v) (vs_CommandID r) (vs_Attempt r)) document db
      = Inr db'"
    by (auto simp: persistResult_def result_simps split: option.splits sum.splits dest!: Update_Inr)
  have "jt_decode (vl_record (ve_lib v)) document = Inr (r, ([], EOF))"
    using codec doc(1,2) assms(5) unfolding result_codec_def json_codec_def by blast
  with tx_Put_holds [OF doc(3) assms(2)] assms(3,4) have "attemptState v request db' = Some r"
    by (simp add: attemptState_def del: bucketName.simps)
  moreover have "same_bucket (ve_eng v) BucketCommandJournal db db'"
    by (rule tx_Put_other [OF doc(3) assms(2)]) (simp_all add: dataBuckets_def initialDataBuckets_def)
  ultimately show ?thesis using tx_Put_ok(1) [OF doc(3) assms(2)] doc(1) Inr by simp
qed

lemma settle_effect:
  assumes "settle v r flag db = (outcome, db')" and "inv db"
    and "vs_CommandID r = rc_CommandID (vq_Command request)" "vs_Attempt r = vq_Attempt request"
    and "resultText (ve_lib v) r"
  shows "inv db' \<and> (outcome = Inr (recordResult r) \<and> validateResultRecord r = None
      \<and> attemptState v request db' = Some r
    \<or> (\<exists>e. outcome = Inl e) \<and> attemptState v request db' = attemptState v request db)
    \<and> same_bucket (ve_eng v) BucketCommandJournal (snd (ve_finalizer v (vs_CommandID r) flag db)) db'"
proof -
  obtain fin db1 where fin: "ve_finalizer v (vs_CommandID r) flag db = (fin, db1)" by fastforce
  have db1: "inv db1" "attemptState v request db1 = attemptState v request db"
    using finalizer_keeps [OF assms(2) fin] attemptState_same by blast+
  show ?thesis
  proof (cases fin)
    case (Inl e)
    with fin assms(1) db1 show ?thesis by (auto simp: settle_def completeCommand_def)
  next
    case (Inr command)
    obtain pr db2 where pr: "persistResult v r db1 = (pr, db2)" by fastforce
    from persist_effect [OF pr db1(1) assms(3,4,5)] fin Inr pr assms(1) db1(2) show ?thesis
      by (auto simp: settle_def completeCommand_def split: sum.splits)
  qed
qed

text \<open>
  What a call made of the command: nothing, or what the finalizer does, which is told of a
  success only for a passing sample at the deadline that completes the required number.
\<close>

definition finalized :: "VerifyRequest \<Rightarrow> verify_answers \<Rightarrow> resultRecord \<Rightarrow> 'db \<Rightarrow> 'db \<Rightarrow> bool" where
  "finalized request answers r db db' \<longleftrightarrow>
     same_bucket (ve_eng v) BucketCommandJournal db db'
     \<or> (\<exists>flag. same_bucket (ve_eng v) BucketCommandJournal
             (snd (ve_finalizer v (rc_CommandID (vq_Command request)) flag db)) db'
          \<and> (flag \<longrightarrow> passes request answers \<and> an_Now answers = deadlineOf request r
                \<and> sp_RecoverySamples (vq_Policy request) \<le> vs_HealthySamples r + 1))"

text \<open>What a call made of an attempt whose record it works on.\<close>

abbreviation moved :: "VerifyRequest \<Rightarrow> verify_answers \<Rightarrow> resultRecord \<Rightarrow> 'db \<Rightarrow> 'db \<Rightarrow> bool" where
  "moved request answers r db db' \<equiv>
     inv db' \<and> (attemptState v request db' = attemptState v request db
       \<or> (\<exists>r'. attemptState v request db' = Some r' \<and> validateResultRecord r' = None
             \<and> develops_to request answers r r'))
     \<and> finalized request answers r db db'"

lemma settle_moved:
  assumes "inv db" and "vs_CommandID r = rc_CommandID (vq_Command request)" "vs_Attempt r = vq_Attempt request"
    and "develops_to request answers r0 r" and "resultText (ve_lib v) r"
    and "flag \<Longrightarrow> passes request answers \<and> an_Now answers = deadlineOf request r0
      \<and> sp_RecoverySamples (vq_Policy request) \<le> vs_HealthySamples r0 + 1"
  shows "moved request answers r0 db (snd (settle v r flag db))"
proof -
  obtain outcome db' where "settle v r flag db = (outcome, db')" by fastforce
  note settled = this settle_effect [OF this assms(1,2,3,5)]
  then have "finalized request answers r0 db db'"
    using assms(2,6) unfolding finalized_def by auto
  with settled assms(4) show ?thesis by auto
qed

lemma snd_returning [simp]: "snd (returning p) = snd p"
  by (auto simp: returning_def split: prod.split sum.split)

lemma failure_records:
  fixes r :: resultRecord
  shows "r\<lparr>vs_FailureReason := reason, vs_HealthySamples := 0, vs_NextAttempt := -1, vs_Outcome := out,
      vs_RetryReason := code\<rparr>
    = r\<lparr>vs_FailureReason := reason, vs_HealthySamples := 0, vs_RetryReason := code, vs_Outcome := out,
      vs_NextAttempt := -1\<rparr>"
  "r\<lparr>vs_FailureReason := reason, vs_HealthySamples := 0, vs_NextAttempt := -1, vs_RetryReason := code,
      vs_Outcome := out\<rparr>
    = r\<lparr>vs_FailureReason := reason, vs_HealthySamples := 0, vs_RetryReason := code, vs_Outcome := out,
      vs_NextAttempt := -1\<rparr>"
  "r\<lparr>vs_FailureReason := reason, vs_HealthySamples := 0, vs_NextAttempt := -1, vs_RetryReason := code,
      vs_Outcome := out, vs_NextAttempt := n\<rparr>
    = r\<lparr>vs_FailureReason := reason, vs_HealthySamples := 0, vs_RetryReason := code, vs_Outcome := out,
      vs_NextAttempt := n\<rparr>"
  by (cases r; simp)+

lemma fail_moved:
  assumes "inv db" and "vs_CommandID r = rc_CommandID (vq_Command request)" "vs_Attempt r = vq_Attempt request"
    and "\<not> passes request answers \<or> an_Now answers > deadlineOf request r"
    and "requestText v request"
  shows "moved request answers r db (snd (failVerification v answers request r reason db))"
proof -
  let ?failed = "\<lambda>code. r\<lparr>vs_FailureReason := reason, vs_HealthySamples := 0, vs_RetryReason := code,
      vs_Outcome := OutcomeFailed, vs_NextAttempt := -1\<rparr>"
  let ?retry = "\<lambda>code. r\<lparr>vs_FailureReason := reason, vs_HealthySamples := 0, vs_RetryReason := code,
      vs_Outcome := OutcomeRetryScheduled, vs_NextAttempt := vq_Attempt request + 1\<rparr>"
  have failed: "moved request answers r db (snd (settle v (?failed code) False db))"
    if "reasonText (vl_json (ve_lib v)) code" for code
    by (rule settle_moved [OF assms(1)]) (simp_all add: assms(2,3,5) that resultText_def gaveUp [OF assms(4)])
  have empty: "jl_text (vl_json (ve_lib v)) []" using codec by (simp add: result_codec_def)
  have retry: "moved request answers r db (snd (settle v (?retry (de_ReasonCode decision)) False db))"
    if "vq_Attempt request + 1 < rp_MaxAttempts (vq_RetryPolicy request)"
      "retryDecision (an_RetryState answers) request (an_Now answers) = Inr decision"
      "de_Verdict decision = VerdictAllow" for decision
    by (rule settle_moved [OF assms(1)]) (simp_all add: assms(2,3,5) resultText_def retryDecision_text [OF empty that(2)] retried [OF that assms(4)])
  show ?thesis
  proof (cases "vq_Attempt request + 1 < rp_MaxAttempts (vq_RetryPolicy request)")
    case False
    with failed show ?thesis by (simp add: failVerification_def Let_def failure_records)
  next
    case True
    show ?thesis
    proof (cases "retryDecision (an_RetryState answers) request (an_Now answers)")
      case (Inl e)
      then have "snd (failVerification v answers request r reason db)
          = snd (settle v (?failed ReasonInvalidPolicy) False db)"
        using True by (simp add: failVerification_def Let_def failure_records split: prod.split sum.split)
      with failed show ?thesis by simp
    next
      case (Inr decision)
      then have "snd (failVerification v answers request r reason db)
          = snd (settle v (if de_Verdict decision = VerdictAllow then ?retry (de_ReasonCode decision)
              else ?failed (de_ReasonCode decision)) False db)"
        using True by (simp add: failVerification_def Let_def failure_records)
      with failed [OF retryDecision_text [OF empty Inr]] retry [OF True Inr] show ?thesis by simp
    qed
  qed
qed

lemma judge_moved:
  assumes "inv db" and "vs_CommandID r = rc_CommandID (vq_Command request)" "vs_Attempt r = vq_Attempt request"
    and "\<not> an_Now answers > deadlineOf request r" and "resultText (ve_lib v) r"
  shows "moved request answers r db (snd (judgeSample v answers request r (deadlineOf request r) db))"
proof (cases "passes request answers")
  have textual: "requestText v request" using assms(2,5) by (simp add: resultText_def)
  case False
  note fail = fail_moved [OF assms(1,2,3) disjI1 [OF False] textual]
  show ?thesis
  proof (cases "an_Observe answers (vq_Target request)")
    case (Inl e)
    with fail show ?thesis by (simp add: judgeSample_def)
  next
    case (Inr sample)
    with False have "\<not> (validSample sample \<and> sm_Healthy sample
        \<and> metricsMeetRules (sm_Metrics sample) (st_ProbeRules (vq_Target request)))"
      by (simp add: passes_def)
    with Inr fail show ?thesis
      by (cases "validSample sample"; cases "sm_Healthy sample") (simp_all add: judgeSample_def)
  qed
next
  case True
  then obtain sample where sample: "an_Observe answers (vq_Target request) = Inr sample" "validSample sample"
    "sm_Healthy sample" "metricsMeetRules (sm_Metrics sample) (st_ProbeRules (vq_Target request))"
    by (auto simp: passes_def)
  let ?r = "r\<lparr>vs_HealthySamples := vs_HealthySamples r + 1\<rparr>"
  show ?thesis
  proof (cases "sp_RecoverySamples (vq_Policy request) \<le> vs_HealthySamples r + 1
      \<and> \<not> an_Now answers < deadlineOf request r")
    case reached: True
    then have "judgeSample v answers request r (deadlineOf request r) db
        = returning (settle v (?r\<lparr>vs_Outcome := OutcomeSucceeded\<rparr>) True db)"
      using sample by (simp add: judgeSample_def Let_def)
    moreover have "moved request answers r db (snd (settle v (?r\<lparr>vs_Outcome := OutcomeSucceeded\<rparr>) True db))"
      using reached assms(4) True
      by (intro settle_moved [OF assms(1)]) (use assms(2,3,5) in \<open>simp_all add: succeeded resultText_def\<close>)
    ultimately show ?thesis by simp
  next
    case False
    obtain outcome db' where pr: "persistResult v ?r db = (outcome, db')" by fastforce
    have dev: "develops_to request answers r ?r"
      using True assms(4) by (intro counted) simp_all
    from persist_effect [OF pr assms(1), of request] assms(2,3,5) have "moved request answers r db db'"
      using dev by (auto simp: resultText_def finalized_def)
    moreover from False have "snd (judgeSample v answers request r (deadlineOf request r) db) = db'"
      using sample pr by (auto simp: judgeSample_def Let_def split: sum.split)
    ultimately show ?thesis by simp
  qed
qed

lemma pending_moved:
  assumes "inv db" and "vs_CommandID r = rc_CommandID (vq_Command request)" "vs_Attempt r = vq_Attempt request"
    and "resultText (ve_lib v) r"
  shows "moved request answers r db (snd (verifyPending v answers request r db))"
  using fail_moved [OF assms(1-3), of answers FailureTimeout] judge_moved [OF assms(1-3) _ assms(4), of answers]
    assms(2,4)
  by (simp add: verifyPending_def Let_def resultText_def)

lemma load_text:
  assumes "loadResult v commandID attempt db = Inr (Some r)"
  shows "resultText (ve_lib v) r"
proof -
  from assms have "loadResultTx v commandID attempt db = Inr (Some r)"
    by (auto simp: loadResult_def result_simps split: option.splits if_splits dest!: View_Inr)
  then obtain document where "decodeResult (ve_lib v) document = Inr r"
    by (auto simp: loadResultTx_def result_simps split: option.splits)
  with codec decodeResult_Inr show ?thesis unfolding result_codec_def by blast
qed

lemma Verify_step:
  assumes "inv db" and "requestText v request"
  shows "inv (snd (Verify v answers request db))
    \<and> (\<exists>r. (attemptState v request db = Some r \<and> vs_Outcome r = OutcomePending
             \<or> attemptState v request db = None \<and> r = newResultRecord request (an_Now answers))
           \<and> finalized request answers r db (snd (Verify v answers request db))
         \<or> same_bucket (ve_eng v) BucketCommandJournal db (snd (Verify v answers request db)))
    \<and> attempt_step request answers (attemptState v request db) (attemptState v request (snd (Verify v answers request db)))"
proof (cases "validateVerifyRequest request = None \<and> an_Now answers \<noteq> 0")
  case False
  with assms show ?thesis by (auto simp: Verify_def verifierNow_def intro: idle)
next
  case True
  show ?thesis
  proof (cases "loadResult v (rc_CommandID (vq_Command request)) (vq_Attempt request) db")
    case (Inl e)
    with True assms show ?thesis by (auto simp: Verify_def verifierNow_def intro: idle)
  next
    case (Inr found)
    note state = load_state [OF Inr]
    show ?thesis
    proof (cases found)
      case None
      let ?r = "newResultRecord request (an_Now answers)"
      have "moved request answers ?r db (snd (verifyPending v answers request ?r db))"
        using codec assms(2)
        by (intro pending_moved [OF assms(1)]) (simp_all add: newResultRecord_def resultText_def result_codec_def)
      then show ?thesis using Inr None True state
        by (auto simp: Verify_def verifierNow_def intro: idle started)
    next
      case (Some r)
      show ?thesis
      proof (cases "vs_Outcome r = OutcomePending")
        case False
        with Inr Some True assms show ?thesis by (auto simp: Verify_def verifierNow_def intro: idle)
      next
        case pending: True
        have "moved request answers r db (snd (verifyPending v answers request r db))"
          using load_ids [OF Inr [unfolded Some]] load_text [OF Inr [unfolded Some]]
          by (intro pending_moved [OF assms(1)]) simp_all
        then show ?thesis using Inr Some True state pending
          by (auto simp: Verify_def verifierNow_def intro: idle developed)
      qed
    qed
  qed
qed

end

section \<open>Runs of an attempt\<close>

text \<open>The samples an outcome rests on: some of the answered calls, in their order.\<close>

definition evidence ::
    "VerifyRequest \<Rightarrow> verify_answers list \<Rightarrow> Time \<Rightarrow> verify_answers list \<Rightarrow> bool" where
  "evidence request history startedAt counted \<longleftrightarrow>
     subseq counted history \<and> counted \<noteq> [] \<and> an_Now (hd counted) = startedAt
     \<and> list_all (\<lambda>answers. passes request answers
          \<and> an_Now answers \<le> startedAt + sp_Window (vq_Policy request)) counted"

definition stabilized :: "VerifyRequest \<Rightarrow> verify_answers list \<Rightarrow> bool" where
  "stabilized request history \<longleftrightarrow>
     (\<exists>counted startedAt. evidence request history startedAt counted
        \<and> an_Now (last counted) = startedAt + sp_Window (vq_Policy request)
        \<and> sp_RecoverySamples (vq_Policy request) \<le> int (length counted))"

fun explained :: "VerifyRequest \<Rightarrow> verify_answers list \<Rightarrow> resultRecord option \<Rightarrow> bool" where
  "explained request history None = True"
| "explained request history (Some r) =
     ((vs_Outcome r = OutcomePending \<longrightarrow>
         (\<exists>counted. evidence request history (vs_StartedAt r) counted
            \<and> int (length counted) = vs_HealthySamples r))
      \<and> (vs_Outcome r = OutcomeSucceeded \<longrightarrow> stabilized request history))"

lemma evidence_later: "evidence request history t counted \<Longrightarrow> evidence request (history @ later) t counted"
  unfolding evidence_def using subseq_rev_drop_many by blast

lemma stabilized_later: "stabilized request history \<Longrightarrow> stabilized request (history @ later)"
  unfolding stabilized_def using evidence_later by blast

lemma explained_later: "explained request history s \<Longrightarrow> explained request (history @ later) s"
  by (cases s) (auto dest: evidence_later stabilized_later)

text \<open>A passing sample extends the evidence for a pending attempt, or starts it.\<close>

lemma evidence_counted:
  assumes "explained request history s" and "passes request answers" and "an_Now answers \<le> deadlineOf request r"
    and "s = Some r \<and> vs_Outcome r = OutcomePending \<or> s = None \<and> r = newResultRecord request (an_Now answers)"
  shows "\<exists>counted. evidence request (history @ [answers]) (vs_StartedAt r) (counted @ [answers])
    \<and> int (length counted) = vs_HealthySamples r"
  using assms(4)
proof
  assume s: "s = Some r \<and> vs_Outcome r = OutcomePending"
  with assms(1) obtain counted where c: "evidence request history (vs_StartedAt r) counted"
    "int (length counted) = vs_HealthySamples r" by auto
  then have "evidence request (history @ [answers]) (vs_StartedAt r) (counted @ [answers])"
    using assms(2,3) by (simp add: evidence_def)
  with c(2) show ?thesis by blast
next
  assume "s = None \<and> r = newResultRecord request (an_Now answers)"
  moreover from this have "evidence request (history @ [answers]) (vs_StartedAt r) [answers]"
    using assms(2,3) subseq_drop_many [of "[answers]" "[answers]" history]
    by (simp add: evidence_def newResultRecord_def)
  ultimately show ?thesis by (intro exI [of _ "[]"]) (simp add: newResultRecord_def)
qed

lemma stabilized_now:
  assumes "explained request history s" and "passes request answers" and "an_Now answers = deadlineOf request r"
    and "s = Some r \<and> vs_Outcome r = OutcomePending \<or> s = None \<and> r = newResultRecord request (an_Now answers)"
    and "sp_RecoverySamples (vq_Policy request) \<le> vs_HealthySamples r + 1"
  shows "stabilized request (history @ [answers])"
proof -
  have "an_Now answers \<le> deadlineOf request r" using assms(3) by simp
  from evidence_counted [OF assms(1,2) this assms(4)] obtain counted where
    "evidence request (history @ [answers]) (vs_StartedAt r) (counted @ [answers])"
    "int (length counted) = vs_HealthySamples r" by blast
  with assms(3,5) show ?thesis
    unfolding stabilized_def by (intro exI [of _ "counted @ [answers]"] exI [of _ "vs_StartedAt r"]) simp
qed

lemma explained_develops:
  assumes "develops_to request answers r r'" and "explained request history s"
    and "s = Some r \<and> vs_Outcome r = OutcomePending \<or> s = None \<and> r = newResultRecord request (an_Now answers)"
  shows "explained request (history @ [answers]) (Some r')"
  using assms(1)
proof cases
  case counted
  from evidence_counted [OF assms(2) counted(2,3) assms(3)] obtain c where
    "evidence request (history @ [answers]) (vs_StartedAt r) (c @ [answers])"
    "int (length c) = vs_HealthySamples r" by blast
  moreover have "vs_Outcome r = OutcomePending" using assms(3) by (auto simp: newResultRecord_def)
  ultimately show ?thesis using counted(1) by (auto intro!: exI [of _ "c @ [answers]"])
next
  case succeeded
  with stabilized_now [OF assms(2) succeeded(2,3) assms(3) succeeded(4)] show ?thesis by simp
qed simp_all

lemma explained_step:
  assumes "attempt_step request answers s s'" and "explained request history s"
  shows "explained request (history @ [answers]) s'"
  using assms(1)
proof cases
  case idle
  with explained_later [OF assms(2)] show ?thesis by simp
next
  case started
  with explained_develops [OF started(4) assms(2)] show ?thesis by simp
next
  case developed
  with explained_develops [OF developed(4) assms(2)] show ?thesis by simp
qed

context verifying
begin

lemma Verify_final:
  assumes "inv db" and "requestText v request"
  obtains (same) "same_bucket (ve_eng v) BucketCommandJournal db (snd (Verify v answers request db))"
  | (final) r flag where
      "attemptState v request db = Some r \<and> vs_Outcome r = OutcomePending
         \<or> attemptState v request db = None \<and> r = newResultRecord request (an_Now answers)"
      "same_bucket (ve_eng v) BucketCommandJournal
         (snd (ve_finalizer v (rc_CommandID (vq_Command request)) flag db)) (snd (Verify v answers request db))"
      "flag \<longrightarrow> passes request answers \<and> an_Now answers = deadlineOf request r
         \<and> sp_RecoverySamples (vq_Policy request) \<le> vs_HealthySamples r + 1"
proof -
  let ?J = "same_bucket (ve_eng v) BucketCommandJournal db (snd (Verify v answers request db))"
  obtain r where r: "attemptState v request db = Some r \<and> vs_Outcome r = OutcomePending
         \<or> attemptState v request db = None \<and> r = newResultRecord request (an_Now answers)"
    and fin: "finalized request answers r db (snd (Verify v answers request db))" if "\<not> ?J"
    using Verify_step [OF assms, of answers] by metis
  show ?thesis
  proof (cases ?J)
    case True
    then show ?thesis by (rule same)
  next
    case False
    with fin [OF False] show ?thesis unfolding finalized_def using final [OF r [OF False]] by blast
  qed
qed

end

fun verifyAll :: "'db Verifier \<Rightarrow> VerifyRequest \<Rightarrow> verify_answers list \<Rightarrow> 'db \<Rightarrow> 'db" where
  "verifyAll v request [] db = db"
| "verifyAll v request (answers # later) db = verifyAll v request later (snd (Verify v answers request db))"

lemma verifyAll_append:
  "verifyAll v request (history @ later) db = verifyAll v request later (verifyAll v request history db)"
  by (induction v request history db rule: verifyAll.induct) simp_all

context verifying
begin

lemma verifyAll_explained:
  assumes "inv db" and "requestText v request" and "attemptState v request db = None"
  shows "inv (verifyAll v request history db)
    \<and> explained request history (attemptState v request (verifyAll v request history db))"
proof (induction history rule: rev_induct)
  case Nil
  with assms show ?case by simp
next
  case (snoc answers history)
  with Verify_step [OF _ assms(2)] explained_step show ?case
    by (fastforce simp: verifyAll_append)
qed

end

section \<open>The coordinator as finalizer\<close>

text \<open>A program that only uses the store, run without interruption.\<close>

primrec runStore :: "('db, 'a) prog \<Rightarrow> 'db \<Rightarrow> ('a \<times> 'db) option" where
  "runStore (Ret a) db = Some (a, db)"
| "runStore (Atomic u k) db = runStore (k db) (u db)"
| "runStore (ClockNow k) db = None"
| "runStore (NewID k) db = None"
| "runStore (SourceLoad c k) db = None"
| "runStore (AdapterValidate t a k) db = None"
| "runStore (AdapterExecute key t a k) db = None"
| "runStore (AdapterVerify t k) db = None"
| "runStore (Publish p k) db = None"

definition coordinatorFinalizer ::
    "'db coordinator \<Rightarrow> string \<Rightarrow> bool \<Rightarrow> 'db \<Rightarrow> (error + RecoveryCommand) \<times> 'db" where
  "coordinatorFinalizer co commandID succeeded db =
     (case runStore (CompleteStabilization co commandID succeeded) db of
        Some p \<Rightarrow> p
      | None \<Rightarrow> (Inl (External []), db))"

definition coordinatedVerifier :: "'db coordinator \<Rightarrow> verifier_lib \<Rightarrow> 'db Verifier" where
  "coordinatedVerifier co lib =
     \<lparr>ve_eng = co_eng co, ve_lib = lib, ve_finalizer = coordinatorFinalizer co\<rparr>"

lemma runStore_bindP:
  "runStore (bindP p f) db = (case runStore p db of None \<Rightarrow> None | Some (a, db') \<Rightarrow> runStore (f a) db')"
  by (induction p arbitrary: db) simp_all

lemma runStore_parts [simp]:
  "runStore (transact T) db = Some (T db)"
  "runStore (readOnly V) db = Some (V db, db)"
  by (simp_all add: transact_def readOnly_def)

text \<open>The program never asks anything but the store, and this is what it does.\<close>

lemma coordinatorFinalizer_cases:
  "coordinatorFinalizer co commandID flag db = (r, db') \<Longrightarrow>
     (db' = db \<and> runStore (CompleteStabilization co commandID flag) db = Some (r, db))
     \<or> (\<exists>key completed. completeStabilization (co_eng co) (co_lib co) key
            (if flag then RecoverySucceeded else RecoveryFailed) db = (completed, db'))"
  by (cases "View (co_eng co) (findRecordByCommandID (co_eng co) (co_lib co) commandID) db")
    (auto simp: coordinatorFinalizer_def CompleteStabilization_def runStore_bindP Let_def
      split: if_splits option.splits prod.splits)

text \<open>A journal key under which a command is recorded as succeeded.\<close>

definition succeededAt :: "'db coordinator \<Rightarrow> 'db \<Rightarrow> string \<Rightarrow> bool" where
  "succeededAt co db key \<longleftrightarrow>
     (\<exists>stored. loadRecord (co_eng co) (co_lib co) key db = Inr (Some stored)
        \<and> rc_State (jr_Command stored) = RecoverySucceeded)"

text \<open>The encoder keeps the state of a command, which is one of the constants of its type.\<close>

definition state_codec :: "journal_lib \<Rightarrow> bool" where
  "state_codec lib \<longleftrightarrow>
     (\<forall>r document r' rest. validateRecord r = None \<and> jt_marshal (jo_record lib) r = Inr document
        \<and> jt_decode (jo_record lib) document = Inr (r', rest) \<longrightarrow>
        rc_State (jr_Command r') = rc_State (jr_Command r))"

lemma succeededAt_same:
  "same_bucket (co_eng co) BucketCommandJournal db db' \<Longrightarrow> succeededAt co db' key \<Longrightarrow> succeededAt co db key"
  by (simp add: succeededAt_def loadRecord_def same_bucket_Get)

context bbolt
begin

lemma completeStabilization_keeps:
  assumes "completeStabilization eng lib key state db = (r, db')" and "inv db"
  shows "inv db'" and "c \<noteq> BucketCommandJournal \<Longrightarrow> c \<in> set dataBuckets \<Longrightarrow> same_bucket eng c db db'"
proof -
  have "inv db' \<and> (c \<noteq> BucketCommandJournal \<longrightarrow> c \<in> set dataBuckets \<longrightarrow> same_bucket eng c db db')"
  proof (cases r)
    case (Inl e)
    with assms(1) have "db' = db"
      by (auto simp: completeStabilization_def updateRecord_def split: if_splits dest: Update_Inl)
    with assms(2) show ?thesis by simp
  next
    case (Inr stored)
    with assms(1) have "updateRecord eng lib key (completeRecord state) db = (Inr stored, db')"
      by (auto simp: completeStabilization_def split: if_splits)
    then obtain old where "putRecord eng lib key stored db = Inr db'" by (rule updateRecord_Inr)
    from putRecord_ok(1,5) [OF this assms(2)] show ?thesis by blast
  qed
  then show "inv db'" "c \<noteq> BucketCommandJournal \<Longrightarrow> c \<in> set dataBuckets \<Longrightarrow> same_bucket eng c db db'"
    by blast+
qed

end

lemma coordinated_verifying:
  assumes "bbolt (co_eng co) dbinv" and "result_codec lib"
  shows "verifying (coordinatedVerifier co lib) dbinv"
  unfolding verifying_def verifying_axioms_def
proof (intro conjI allI impI)
  show "bbolt (ve_eng (coordinatedVerifier co lib)) dbinv" "result_codec (ve_lib (coordinatedVerifier co lib))"
    using assms by (simp_all add: coordinatedVerifier_def)
  fix db commandID flag r db'
  assume "dbinv db" and "ve_finalizer (coordinatedVerifier co lib) commandID flag db = (r, db')"
  then show "dbinv db'" "same_bucket (ve_eng (coordinatedVerifier co lib)) BucketStabilizationResults db db'"
    using coordinatorFinalizer_cases [of co commandID flag db r db'] bbolt.completeStabilization_keeps [OF assms(1)]
    by (auto simp: coordinatedVerifier_def dataBuckets_def initialDataBuckets_def)
qed

text \<open>A finalizer that is told of a failure never makes a command succeed.\<close>

lemma completeRecord_state: "completeRecord state old = Inr new \<Longrightarrow> rc_State (jr_Command new) = state"
  by (auto simp: completeRecord_def moveTo_Inr split: if_splits)

lemma failure_not_succeeded:
  assumes "bbolt (co_eng co) dbinv" and "state_codec (co_lib co)" and "dbinv db"
    and "completeStabilization (co_eng co) (co_lib co) k RecoveryFailed db = (r, db')" and "succeededAt co db' key"
  shows "succeededAt co db key"
proof (cases r)
  case (Inl e)
  with assms(4) have "db' = db"
    by (auto simp: completeStabilization_def updateRecord_def split: if_splits dest: Update_Inl)
  with assms(5) show ?thesis by simp
next
  case (Inr new)
  with assms(4) have "updateRecord (co_eng co) (co_lib co) k (completeRecord RecoveryFailed) db = (Inr new, db')"
    by (auto simp: completeStabilization_def)
  then obtain old where old: "completeRecord RecoveryFailed old = Inr new"
    "putRecord (co_eng co) (co_lib co) k new db = Inr db'" by (rule updateRecord_Inr)
  note put = bbolt.putRecord_ok [OF assms(1) old(2) assms(3)]
  obtain document where doc: "jt_marshal (jo_record (co_lib co)) new = Inr document"
    "holds (co_eng co) db' BucketCommandJournal = (holds (co_eng co) db BucketCommandJournal)(k \<mapsto> document)"
    using put(4) by blast
  obtain stored where stored: "loadRecord (co_eng co) (co_lib co) key db' = Inr (Some stored)"
    "rc_State (jr_Command stored) = RecoverySucceeded" using assms(5) by (auto simp: succeededAt_def)
  show ?thesis
  proof (cases "key = k")
    case True
    with stored(1) doc(2) obtain rest where "jt_decode (jo_record (co_lib co)) document = Inr (stored, rest)"
      by (auto simp: loadRecord_Some decodeAt_Inr decodeRecord_Inr Decode_Inr)
    with assms(2) doc(1) put(3) have "rc_State (jr_Command stored) = rc_State (jr_Command new)"
      unfolding state_codec_def by blast
    with completeRecord_state [OF old(1)] stored(2) show ?thesis by simp
  next
    case False
    with stored doc(2) put(6) show ?thesis
      by (auto simp: succeededAt_def loadRecord_Some simp del: bucketName.simps)
  qed
qed

lemma finalizer_failure:
  assumes "bbolt (co_eng co) dbinv" and "state_codec (co_lib co)" and "dbinv db"
    and "succeededAt co (snd (coordinatorFinalizer co commandID False db)) key"
  shows "succeededAt co db key"
proof -
  obtain r db' where "coordinatorFinalizer co commandID False db = (r, db')" by fastforce
  from coordinatorFinalizer_cases [OF this] failure_not_succeeded [OF assms(1-3)] assms(4) this
  show ?thesis by auto
qed

text \<open>A success in the journal that a run of one attempt brought about has its evidence.\<close>

lemma Verify_succeeded:
  assumes "bbolt (co_eng co) dbinv" and "state_codec (co_lib co)" and "result_codec lib" and "dbinv db"
    and "requestText (coordinatedVerifier co lib) request"
    and "explained request history (attemptState (coordinatedVerifier co lib) request db)"
    and "succeededAt co (snd (Verify (coordinatedVerifier co lib) answers request db)) key"
  shows "succeededAt co db key \<or> stabilized request (history @ [answers])"
proof -
  let ?v = "coordinatedVerifier co lib"
  let ?db' = "snd (Verify ?v answers request db)"
  note v = coordinated_verifying [OF assms(1,3)]
  have eng: "ve_eng ?v = co_eng co" "ve_finalizer ?v = coordinatorFinalizer co"
    by (simp_all add: coordinatedVerifier_def)
  show ?thesis
  proof (rule verifying.Verify_final [OF v assms(4,5), of answers])
    assume "same_bucket (ve_eng ?v) BucketCommandJournal db ?db'"
    then have "succeededAt co db key" unfolding eng by (rule succeededAt_same [OF _ assms(7)])
    then show ?thesis ..
  next
    fix r flag
    assume r: "attemptState ?v request db = Some r \<and> vs_Outcome r = OutcomePending
         \<or> attemptState ?v request db = None \<and> r = newResultRecord request (an_Now answers)"
      and same: "same_bucket (ve_eng ?v) BucketCommandJournal
         (snd (ve_finalizer ?v (rc_CommandID (vq_Command request)) flag db)) ?db'"
      and flag: "flag \<longrightarrow> passes request answers \<and> an_Now answers = deadlineOf request r
         \<and> sp_RecoverySamples (vq_Policy request) \<le> vs_HealthySamples r + 1"
    have after: "succeededAt co (snd (coordinatorFinalizer co (rc_CommandID (vq_Command request)) flag db)) key"
      by (rule succeededAt_same [OF same [unfolded eng] assms(7)])
    show ?thesis
    proof (cases flag)
      case True
      with flag stabilized_now [OF assms(6) _ _ r] show ?thesis by blast
    next
      case False
      with after finalizer_failure [OF assms(1,2,4)] show ?thesis by auto
    qed
  qed
qed

lemma success_explained:
  assumes "bbolt (co_eng co) dbinv" and "state_codec (co_lib co)" and "result_codec lib" and "dbinv db"
    and "requestText (coordinatedVerifier co lib) request"
    and "attemptState (coordinatedVerifier co lib) request db = None" and "\<not> succeededAt co db key"
  shows "succeededAt co (verifyAll (coordinatedVerifier co lib) request history db) key \<longrightarrow> stabilized request history"
proof (induction history rule: rev_induct)
  case Nil
  with assms(7) show ?case by simp
next
  case (snoc answers history)
  have "dbinv (verifyAll (coordinatedVerifier co lib) request history db)"
    "explained request history (attemptState (coordinatedVerifier co lib) request
      (verifyAll (coordinatedVerifier co lib) request history db))"
    using verifying.verifyAll_explained [OF coordinated_verifying [OF assms(1,3)] assms(4-6)] by blast+
  from Verify_succeeded [OF assms(1-3) this(1) assms(5) this(2), of answers key] snoc stabilized_later
  show ?case by (auto simp: verifyAll_append)
qed

section \<open>A concrete attempt\<close>

text \<open>A stabilizing command of the journal, two required samples in a window of five nanoseconds.\<close>

definition stabTable :: "(journalRecord \<times> string) list" where
  "stabTable =
     [(demoAt RecoveryStabilizing phaseStabilizing, ''stabilizing''),
      (demoAt RecoverySucceeded phaseCompleted, ''succeeded''),
      (demoAt RecoveryFailed phaseCompleted, ''failed'')]"

definition stabCoordinator :: "mem_db coordinator" where
  "stabCoordinator = demoCoordinator\<lparr>co_lib := demoLib\<lparr>jo_record := tableType stabTable\<rparr>\<rparr>"

definition demoVerify :: VerifyRequest where
  "demoVerify =
     \<lparr>vq_Command = demoCommand\<lparr>rc_State := RecoveryStabilizing\<rparr>, vq_Target = demoTarget,
      vq_Policy = \<lparr>sp_RecoverySamples = 2, sp_Window = 5\<rparr>, vq_RetryPolicy = \<lparr>rp_MaxAttempts = 1\<rparr>,
      vq_Attempt = 0\<rparr>"

definition healthyAt :: "Time \<Rightarrow> verify_answers" where
  "healthyAt now =
     \<lparr>an_Now = now, an_Observe = (\<lambda>_. Inr \<lparr>sm_Healthy = True, sm_Metrics = []\<rparr>),
      an_RetryState = (\<lambda>_. Inl DeadlineExceeded)\<rparr>"

text \<open>A second attempt is allowed, by the request and by the registered runbook.\<close>

definition retryVerify :: VerifyRequest where
  "retryVerify = demoVerify\<lparr>vq_RetryPolicy := \<lparr>rp_MaxAttempts = 2\<rparr>\<rparr>"

definition retryRunbook :: RegisteredRunbook where
  "retryRunbook =
     \<lparr>rr_Runbook = demoRunbook\<lparr>rb_RetryPolicy := \<lparr>rp_MaxAttempts = 2\<rparr>\<rparr>, rr_TargetID = ''web'',
      rr_AnalysisRequired = False\<rparr>"

definition retryState :: RetryState where
  "retryState =
     \<lparr>ry_Target = demoTarget, ry_PolicySnapshot = demoSnapshot\<lparr>sn_Runbooks := [retryRunbook]\<rparr>,
      ry_PolicyInput = demoInput\<rparr>"

definition unhealthyAt :: "Time \<Rightarrow> verify_answers" where
  "unhealthyAt now =
     \<lparr>an_Now = now, an_Observe = (\<lambda>_. Inr \<lparr>sm_Healthy = False, sm_Metrics = []\<rparr>),
      an_RetryState = (\<lambda>_. Inr retryState)\<rparr>"

definition resultPending :: resultRecord where
  "resultPending = (newResultRecord demoVerify 10)\<lparr>vs_HealthySamples := 1\<rparr>"
definition resultSucceeded :: resultRecord where
  "resultSucceeded = resultPending\<lparr>vs_HealthySamples := 2, vs_Outcome := OutcomeSucceeded\<rparr>"
definition resultRetry :: resultRecord where
  "resultRetry = resultPending\<lparr>vs_HealthySamples := 0, vs_Outcome := OutcomeRetryScheduled,
     vs_FailureReason := FailureUnhealthy, vs_RetryReason := ReasonAllowed, vs_NextAttempt := 1\<rparr>"

definition resultFull :: resultRecord where
  "resultFull = resultPending\<lparr>vs_HealthySamples := 256\<rparr>"

definition resultTable :: "(resultRecord \<times> string) list" where
  "resultTable =
     [(resultPending, ''p''), (resultSucceeded, ''s''), (resultRetry, ''r''), (resultFull, ''full'')]"

definition resultLib :: verifier_lib where
  "resultLib = \<lparr>vl_json = tableLib, vl_record = tableType resultTable, vl_sha = (\<lambda>_. ''h'')\<rparr>"

definition demoVerifier :: "mem_db Verifier" where
  "demoVerifier = coordinatedVerifier stabCoordinator resultLib"

definition stabStore :: "string \<Rightarrow> (string \<times> string) list \<Rightarrow> mem_db" where
  "stabStore document results =
     [(''command_journal'', [(recordKey demoLib demoCommand, document)]), (''stabilization_results'', results)]"

lemma demo_first:
  "Verify demoVerifier (healthyAt 10) demoVerify (stabStore ''stabilizing'' [])
     = ((recordResult resultPending, None), stabStore ''stabilizing'' [(''stabilization/h'', ''p'')])"
  by code_simp

lemma demo_second:
  "Verify demoVerifier (healthyAt 15) demoVerify (stabStore ''stabilizing'' [(''stabilization/h'', ''p'')])
     = ((recordResult resultSucceeded, None), stabStore ''succeeded'' [(''stabilization/h'', ''s'')])"
  by code_simp

lemma demo_retry:
  "Verify demoVerifier (unhealthyAt 10) retryVerify (stabStore ''stabilizing'' [])
     = ((recordResult resultRetry, None), stabStore ''failed'' [(''stabilization/h'', ''r'')])"
  by code_simp

lemma resultLib_codec: "result_codec resultLib"
proof -
  have "distinct (map snd resultTable)" "\<forall>r \<in> set (map fst resultTable). vs_SchemaVersion r = ''v1''"
    by (code_simp, code_simp)
  then have "json_codec tableLib (tableType resultTable) vs_SchemaVersion (\<lambda>_. True)"
    by (intro tableType_codec) blast+
  moreover have "resultText resultLib r" for r
    by (cases "vs_RetryReason r") (simp_all add: resultText_def resultLib_def tableLib_def)
  ultimately show ?thesis
    by (simp add: result_codec_def resultLib_def json_codec_mono tableLib_def)
qed

lemma stab_engine: "co_eng stabCoordinator = mem_engine"
  by (simp add: stabCoordinator_def demoCoordinator_def)

lemma stab_state_codec: "state_codec (co_lib stabCoordinator)"
proof -
  have "distinct (map snd stabTable)" "\<forall>r \<in> set (map fst stabTable). jr_SchemaVersion r = ''v1''"
    by (code_simp, code_simp)
  then have "json_codec tableLib (tableType stabTable) jr_SchemaVersion (\<lambda>_. True)"
    by (intro tableType_codec) blast+
  then show ?thesis
    unfolding state_codec_def json_codec_def stabCoordinator_def by fastforce
qed

interpretation journalled: verifying demoVerifier mem_inv
  unfolding demoVerifier_def
  by (rule coordinated_verifying [OF _ resultLib_codec]) (simp add: stab_engine mem.bbolt_axioms)

lemma demo_text: "requestText demoVerifier request"
  by (simp add: demoVerifier_def coordinatedVerifier_def resultLib_def tableLib_def)

lemma stabStore_inv:
  "mem_inv (stabStore ''stabilizing'' [])" "mem_inv (stabStore ''stabilizing'' [(''stabilization/h'', ''p'')])"
  by (code_simp, code_simp)

lemma demo_attempts:
  "attemptState demoVerifier demoVerify (stabStore ''stabilizing'' []) = None"
  "attemptState demoVerifier demoVerify (stabStore ''stabilizing'' [(''stabilization/h'', ''p'')]) = Some resultPending"
  "attemptState demoVerifier demoVerify (stabStore ''succeeded'' [(''stabilization/h'', ''s'')]) = Some resultSucceeded"
  "attemptState demoVerifier retryVerify (stabStore ''stabilizing'' []) = None"
  "attemptState demoVerifier retryVerify (stabStore ''failed'' [(''stabilization/h'', ''r'')]) = Some resultRetry"
  by (code_simp, code_simp, code_simp, code_simp, code_simp)

lemma demo_full:
  "loadResult demoVerifier ''c'' 0 (stabStore ''stabilizing'' [(''stabilization/h'', ''full'')]) = Inr (Some resultFull)"
  "coordinatorFinalizer stabCoordinator ''c'' True (stabStore ''stabilizing'' [(''stabilization/h'', ''full'')])
     = (Inr (demoCommand\<lparr>rc_State := RecoverySucceeded\<rparr>),
        stabStore ''succeeded'' [(''stabilization/h'', ''full'')])"
  by (code_simp, code_simp)

section \<open>Properties\<close>

text \<open>
  C27: refinement. On the stored results, each call of \<open>Verify\<close> is a step of the abstract attempt:
  it leaves the attempt alone, or it counts one more passing sample no later than the deadline,
  or it succeeds exactly at the deadline with enough passing samples, or it gives up or schedules
  a retry after a sample that did not pass or a deadline that has gone by; only a pending or
  absent attempt moves, and what is stored is a valid record.
\<close>

theorem verify_refines:
  assumes "verifying v dbinv" and "dbinv db" and "requestText v request"
  shows "dbinv (snd (Verify v answers request db))
    \<and> attempt_step request answers (attemptState v request db)
        (attemptState v request (snd (Verify v answers request db)))"
  using verifying.Verify_step [OF assms] by blast

theorem verify_refines_witness:
  "attempt_step demoVerify (healthyAt 15) (Some resultPending) (Some resultSucceeded)"
  using verify_refines [OF journalled.verifying_axioms, OF stabStore_inv(2) demo_text [of demoVerify], of "healthyAt 15"]
  by (simp add: demo_second demo_attempts)

text \<open>
  C28: a settled result is final. When the stored result of an attempt is no longer pending, a call
  of \<open>Verify\<close> changes nothing, whatever the clock, the probe and the retry state answer, and
  a call that succeeds returns exactly the stored result.
\<close>

theorem settled_final:
  assumes "verifying v dbinv" and "attemptState v request db = Some r" and "vs_Outcome r \<noteq> OutcomePending"
    and "Verify v answers request db = ((result, failure), db')"
  shows "db' = db \<and> (failure = None \<longrightarrow> result = recordResult r)"
proof (cases "validateVerifyRequest request = None \<and> an_Now answers \<noteq> 0")
  case False
  with assms(4) show ?thesis by (auto simp: Verify_def verifierNow_def split: if_splits)
next
  case True
  show ?thesis
  proof (cases "loadResult v (rc_CommandID (vq_Command request)) (vq_Attempt request) db")
    case (Inl e)
    with True assms(4) show ?thesis by (auto simp: Verify_def verifierNow_def split: if_splits)
  next
    case (Inr found)
    with verifying.load_state [OF assms(1) Inr] assms(2) have "found = Some r" by simp
    with Inr True assms(3,4) show ?thesis by (auto simp: Verify_def verifierNow_def split: if_splits)
  qed
qed

theorem settled_final_witness:
  "snd (Verify demoVerifier (healthyAt 99) demoVerify (stabStore ''succeeded'' [(''stabilization/h'', ''s'')]))
     = stabStore ''succeeded'' [(''stabilization/h'', ''s'')]"
proof -
  have "vs_Outcome resultSucceeded \<noteq> OutcomePending" by (simp add: resultSucceeded_def)
  from settled_final [OF journalled.verifying_axioms, OF demo_attempts(3) this] show ?thesis
    by (metis prod.collapse)
qed

text \<open>
  C29: retries are bounded and authorized. If a call schedules a retry, the next attempt is the
  successor of this one and still below the limit of the request, the retry state named this
  command's runbook, target and action, and the policy engine, asked with at least that many
  attempts on record, allowed it: the attempt is also below the limit of a registered runbook.
\<close>

theorem retry_bounded:
  assumes "verifying v dbinv" and "dbinv db" and "requestText v request"
    and "attemptState v request db \<noteq> Some r"
    and "attemptState v request (snd (Verify v answers request db)) = Some r"
    and "vs_Outcome r = OutcomeRetryScheduled"
  shows "vs_NextAttempt r = vq_Attempt request + 1
    \<and> vq_Attempt request + 1 < rp_MaxAttempts (vq_RetryPolicy request)
    \<and> (\<exists>state registered. an_RetryState answers (vq_Command request) = Inr state
         \<and> pi_RunbookID (ry_PolicyInput state) = rc_RunbookID (vq_Command request)
         \<and> pi_TargetID (ry_PolicyInput state) = rc_TargetID (vq_Command request)
         \<and> pi_ActionIndex (ry_PolicyInput state) = rc_ActionIndex (vq_Command request)
         \<and> registered \<in> set (sn_Runbooks (ry_PolicySnapshot state))
         \<and> rb_RunbookID (rr_Runbook registered) = rc_RunbookID (vq_Command request)
         \<and> vq_Attempt request + 1 < rp_MaxAttempts (rb_RetryPolicy (rr_Runbook registered)))"
proof -
  have "attempt_step request answers (attemptState v request db) (Some r)"
    using verifying.Verify_step [OF assms(1-3), of answers] assms(5) by simp
  then obtain r0 where "develops_to request answers r0 r" "vs_Outcome r0 = OutcomePending"
    by cases (use assms(4) in \<open>auto simp: newResultRecord_def\<close>)
  then obtain decision where d: "retryDecision (an_RetryState answers) request (an_Now answers) = Inr decision"
    "de_Verdict decision = VerdictAllow" "vq_Attempt request + 1 < rp_MaxAttempts (vq_RetryPolicy request)"
    "vs_NextAttempt r = vq_Attempt request + 1"
    by cases (use assms(6) in auto)
  with retryDecision_allowed [OF d(1,2)] show ?thesis by blast
qed

theorem retry_bounded_witness: "vs_NextAttempt resultRetry = 1"
proof -
  have "attemptState demoVerifier retryVerify (stabStore ''stabilizing'' []) \<noteq> Some resultRetry"
    "attemptState demoVerifier retryVerify (snd (Verify demoVerifier (unhealthyAt 10) retryVerify
      (stabStore ''stabilizing'' []))) = Some resultRetry"
    "vs_Outcome resultRetry = OutcomeRetryScheduled"
    by (simp_all add: demo_attempts demo_retry) (simp add: resultRetry_def)
  from retry_bounded [OF journalled.verifying_axioms, OF stabStore_inv(1) demo_text this] show ?thesis
    by (simp add: retryVerify_def demoVerify_def)
qed

text \<open>
  C30: the end of the sample counter. An attempt that has counted 256 samples cannot count another
  one: a further passing sample before the deadline is refused as a corrupt result and changes
  nothing, and one at the deadline completes the command as succeeded but then fails in the same
  way, without storing the outcome.
\<close>

theorem sample_limit:
  assumes "validateVerifyRequest request = None" and "an_Now answers \<noteq> 0"
    and "loadResult v (rc_CommandID (vq_Command request)) (vq_Attempt request) db = Inr (Some r)"
    and "vs_Outcome r = OutcomePending" and "vs_HealthySamples r = 256" and "passes request answers"
    and "ve_finalizer v (vs_CommandID r) True db = (Inr command, db1)"
    and "an_Now answers \<le> deadlineOf request r"
  shows "Verify v answers request db =
    ((zeroVerifyResult, Some (Stabilization ErrCorruptResult)),
     if an_Now answers = deadlineOf request r then db1 else db)"
proof -
  obtain sample where sample: "an_Observe answers (vq_Target request) = Inr sample" "validSample sample"
    "sm_Healthy sample" "metricsMeetRules (sm_Metrics sample) (st_ProbeRules (vq_Target request))"
    using assms(6) by (auto simp: passes_def)
  have "sp_RecoverySamples (vq_Policy request) \<le> 257"
    using assms(1) by (auto simp: validateVerifyRequest_def maxRecoverySamples_def split: if_splits)
  with sample assms(5,7,8) have "verifyPending v answers request r db =
    ((zeroVerifyResult, Some (Stabilization ErrCorruptResult)),
     if an_Now answers = deadlineOf request r then db1 else db)"
    by (auto simp: verifyPending_def judgeSample_def Let_def settle_def completeCommand_def persistResult_def
        validateResultRecord_def maxRecoverySamples_def returning_def)
  with assms(1-4) show ?thesis by (simp add: Verify_def verifierNow_def)
qed

theorem sample_limit_witness:
  "Verify demoVerifier (healthyAt 15) demoVerify (stabStore ''stabilizing'' [(''stabilization/h'', ''full'')])
     = ((zeroVerifyResult, Some (Stabilization ErrCorruptResult)),
        stabStore ''succeeded'' [(''stabilization/h'', ''full'')])"
proof -
  let ?db = "stabStore ''stabilizing'' [(''stabilization/h'', ''full'')]"
  have valid: "validateVerifyRequest demoVerify = None" by code_simp
  have load: "loadResult demoVerifier (rc_CommandID (vq_Command demoVerify)) (vq_Attempt demoVerify) ?db
      = Inr (Some resultFull)"
    using demo_full(1) by (simp add: demoVerify_def demoCommand_def)
  have full: "vs_Outcome resultFull = OutcomePending" "vs_HealthySamples resultFull = 256"
    "vs_CommandID resultFull = ''c''" "deadlineOf demoVerify resultFull = 15"
    by (simp_all add: resultFull_def resultPending_def newResultRecord_def demoVerify_def demoCommand_def)
  have pass: "passes demoVerify (healthyAt 15)"
    by (simp add: passes_def healthyAt_def validSample_def demoVerify_def demoTarget_def)
  have fin: "ve_finalizer demoVerifier (vs_CommandID resultFull) True ?db
      = (Inr (demoCommand\<lparr>rc_State := RecoverySucceeded\<rparr>),
         stabStore ''succeeded'' [(''stabilization/h'', ''full'')])"
    using demo_full(2) full(3) by (simp add: demoVerifier_def coordinatedVerifier_def)
  from sample_limit [OF valid _ load full(1,2) pass fin] show ?thesis
    by (simp add: full(4) healthyAt_def)
qed

text \<open>
  C26: what a success in the journal means. Take the coordinator as the finalizer, and an attempt
  that starts in a store in which the command has not succeeded and no result is recorded. However
  many calls of \<open>Verify\<close> are made, whatever they are answered and whichever of them fail, the
  command is recorded as succeeded only if at least the required number of calls, the first at
  the start of the window and the last at its end, saw a healthy, valid sample that met every
  probe rule, all of them within the window.
\<close>

theorem journal_success_verified:
  assumes "bbolt (co_eng co) dbinv" and "state_codec (co_lib co)" and "result_codec lib" and "dbinv db"
    and "requestText (coordinatedVerifier co lib) request"
    and "attemptState (coordinatedVerifier co lib) request db = None" and "\<not> succeededAt co db key"
    and "succeededAt co (verifyAll (coordinatedVerifier co lib) request history db) key"
  shows "\<exists>samples startedAt. subseq samples history
    \<and> sp_RecoverySamples (vq_Policy request) \<le> int (length samples) \<and> samples \<noteq> []
    \<and> an_Now (hd samples) = startedAt \<and> an_Now (last samples) = startedAt + sp_Window (vq_Policy request)
    \<and> list_all (\<lambda>answers. passes request answers
         \<and> an_Now answers \<le> startedAt + sp_Window (vq_Policy request)) samples"
  using success_explained [OF assms(1-7), of history] assms(8) unfolding stabilized_def evidence_def by blast

theorem journal_success_verified_witness:
  "\<exists>samples. subseq samples [healthyAt 10, healthyAt 15] \<and> 2 \<le> length samples
     \<and> list_all (passes demoVerify) samples"
proof -
  have eng: "bbolt (co_eng stabCoordinator) mem_inv" by (simp add: stab_engine mem.bbolt_axioms)
  have none: "attemptState (coordinatedVerifier stabCoordinator resultLib) demoVerify (stabStore ''stabilizing'' []) = None"
    using demo_attempts(1) by (simp add: demoVerifier_def)
  have textual: "requestText (coordinatedVerifier stabCoordinator resultLib) demoVerify"
    using demo_text by (simp add: demoVerifier_def)
  have load: "loadRecord (co_eng stabCoordinator) (co_lib stabCoordinator) (recordKey demoLib demoCommand)
      (stabStore ''stabilizing'' []) = Inr (Some (demoAt RecoveryStabilizing phaseStabilizing))"
    "loadRecord (co_eng stabCoordinator) (co_lib stabCoordinator) (recordKey demoLib demoCommand)
      (stabStore ''succeeded'' [(''stabilization/h'', ''s'')]) = Inr (Some (demoAt RecoverySucceeded phaseCompleted))"
    by (code_simp, code_simp)
  then have before: "\<not> succeededAt stabCoordinator (stabStore ''stabilizing'' []) (recordKey demoLib demoCommand)"
    by (simp add: succeededAt_def demoAt_def)
  have run: "verifyAll (coordinatedVerifier stabCoordinator resultLib) demoVerify [healthyAt 10, healthyAt 15]
      (stabStore ''stabilizing'' []) = stabStore ''succeeded'' [(''stabilization/h'', ''s'')]"
    using demo_first demo_second by (simp add: demoVerifier_def)
  have after: "succeededAt stabCoordinator (verifyAll (coordinatedVerifier stabCoordinator resultLib) demoVerify
      [healthyAt 10, healthyAt 15] (stabStore ''stabilizing'' [])) (recordKey demoLib demoCommand)"
    unfolding run using load(2) by (simp add: succeededAt_def demoAt_def)
  have "sp_RecoverySamples (vq_Policy demoVerify) = 2" by (simp add: demoVerify_def)
  with journal_success_verified [OF eng stab_state_codec resultLib_codec stabStore_inv(1) textual none before after]
  show ?thesis by (auto simp: list_all_iff)
qed

end
