(* ===== verification/Webhook_Signing.thy ===== *)
theory Webhook_Signing
  imports Prelude
begin

text \<open>
  Standard Webhooks signatures, \<open>src/internal/webhook/standard.go\<close>: secrets, the three headers,
  \<open>Sign\<close> and \<open>VerifyWithTolerance\<close>. The base64 codec of the standard library is written out;
  HMAC-SHA256 is a parameter of which only the length of its digest is used. The lemmas show that
  base64 decodes what it encoded, that the signed content is unambiguous, and that a signed
  message verifies under every keyring that shares a secret.
\<close>

section \<open>Constants\<close>

definition SignatureVersionV1 :: string where "SignatureVersionV1 = ''v1''"
definition DefaultTolerance :: Duration where "DefaultTolerance = 5 * Minute"
definition secretPrefix :: string where "secretPrefix = ''whsec_''"
definition minimumSecretBytes :: nat where "minimumSecretBytes = 24"
definition maximumSecretBytes :: nat where "maximumSecretBytes = 64"
definition maximumMessageID :: nat where "maximumMessageID = 256"

text \<open>\<open>sha256.Size\<close>.\<close>

definition sha256Size :: nat where "sha256Size = 32"

section \<open>Base64\<close>

text \<open>
  \<open>base64.StdEncoding\<close>: three bytes are four digits of six bits each; a last group of one or two
  bytes is padded. The strict decoder skips line breaks, wants the padding and refuses digits
  whose unused bits are set.
\<close>

definition base64Alphabet :: string where
  "base64Alphabet = ''ABCDEFGHIJKLMNOPQRSTUVWXYZabcdefghijklmnopqrstuvwxyz0123456789+/''"

definition base64Digit :: "nat \<Rightarrow> char" where
  "base64Digit n = base64Alphabet ! n"

fun indexFrom :: "nat \<Rightarrow> char \<Rightarrow> string \<Rightarrow> nat option" where
  "indexFrom n c [] = None"
| "indexFrom n c (d # ds) = (if c = d then Some n else indexFrom (Suc n) c ds)"

definition base64Value :: "char \<Rightarrow> nat option" where
  "base64Value c = indexFrom 0 c base64Alphabet"

fun EncodeToString :: "string \<Rightarrow> string" where
  "EncodeToString [] = []"
| "EncodeToString [a] =
     (let x = of_char a in [base64Digit (x div 4), base64Digit (x mod 4 * 16), CHR ''='', CHR ''=''])"
| "EncodeToString [a, b] =
     (let x = of_char a; y = of_char b in
      [base64Digit (x div 4), base64Digit (x mod 4 * 16 + y div 16), base64Digit (y mod 16 * 4), CHR ''=''])"
| "EncodeToString (a # b # c # rest) =
     (let x = of_char a; y = of_char b; z = of_char c in
      base64Digit (x div 4) # base64Digit (x mod 4 * 16 + y div 16)
      # base64Digit (y mod 16 * 4 + z div 64) # base64Digit (z mod 64) # EncodeToString rest)"

text \<open>The digits of one group; \<open>=\<close> has no value.\<close>

fun decodeGroups :: "string \<Rightarrow> string option" where
  "decodeGroups [] = Some []"
| "decodeGroups (c1 # c2 # c3 # c4 # rest) =
     (case (base64Value c1, base64Value c2) of
        (Some p, Some q) \<Rightarrow>
          (case base64Value c3 of
             Some r \<Rightarrow>
               (case base64Value c4 of
                  Some s \<Rightarrow>
                    map_option (\<lambda>ds. char_of (p * 4 + q div 16) # char_of (q mod 16 * 16 + r div 4)
                      # char_of (r mod 4 * 64 + s) # ds) (decodeGroups rest)
                | None \<Rightarrow>
                    if c4 = CHR ''='' \<and> rest = [] \<and> r mod 4 = 0
                    then Some [char_of (p * 4 + q div 16), char_of (q mod 16 * 16 + r div 4)] else None)
           | None \<Rightarrow>
               if c3 = CHR ''='' \<and> c4 = CHR ''='' \<and> rest = [] \<and> q mod 16 = 0
               then Some [char_of (p * 4 + q div 16)] else None)
      | _ \<Rightarrow> None)"
| "decodeGroups _ = None"

definition lineBreak :: "char \<Rightarrow> bool" where
  "lineBreak c \<longleftrightarrow> c = CHR 0x0A \<or> c = CHR 0x0D"

definition DecodeString :: "string \<Rightarrow> string option" where
  "DecodeString s = decodeGroups (filter (\<lambda>c. \<not> lineBreak c) s)"

section \<open>Strings\<close>

text \<open>\<open>strings.Split\<close> and \<open>strings.Cut\<close> at a single byte.\<close>

fun splitAt1 :: "char \<Rightarrow> string \<Rightarrow> string list" where
  "splitAt1 sep [] = [[]]"
| "splitAt1 sep (c # cs) =
     (if c = sep then [] # splitAt1 sep cs
      else case splitAt1 sep cs of
          [] \<Rightarrow> [[c]]
        | part # parts \<Rightarrow> (c # part) # parts)"

fun cutAt :: "char \<Rightarrow> string \<Rightarrow> (string \<times> string) option" where
  "cutAt sep [] = None"
| "cutAt sep (c # cs) =
     (if c = sep then Some ([], cs) else map_option (\<lambda>(l, r). (c # l, r)) (cutAt sep cs))"

fun joinWith :: "char \<Rightarrow> string list \<Rightarrow> string" where
  "joinWith sep [] = []"
| "joinWith sep [part] = part"
| "joinWith sep (part # parts) = part @ sep # joinWith sep parts"

section \<open>Keyrings and headers\<close>

record Headers =
  hd_ID :: string
  hd_Timestamp :: string
  hd_Signature :: string

record Keyring =
  kr_secrets :: "string list"

text \<open>HMAC-SHA256 of a content under a secret.\<close>

type_synonym hmac = "string \<Rightarrow> string \<Rightarrow> string"

definition parseSecret :: "string \<Rightarrow> error + string" where
  "parseSecret serialized =
     (if \<not> HasPrefix serialized secretPrefix then Inl (Webhook ErrInvalidSecret)
      else case DecodeString (drop (length secretPrefix) serialized) of
          None \<Rightarrow> Inl (Webhook ErrInvalidSecret)
        | Some secret \<Rightarrow>
            if length secret < minimumSecretBytes \<or> length secret > maximumSecretBytes
            then Inl (Webhook ErrInvalidSecret) else Inr secret)"

fun parseSecrets :: "string list \<Rightarrow> error + string list" where
  "parseSecrets [] = Inr []"
| "parseSecrets (serialized # rest) =
     bindR (parseSecret serialized) (\<lambda>secret. bindR (parseSecrets rest) (\<lambda>secrets. Inr (secret # secrets)))"

definition NewKeyring :: "string list \<Rightarrow> error + Keyring" where
  "NewKeyring serializedSecrets =
     (if serializedSecrets = [] \<or> length serializedSecrets > 2 then Inl (Webhook ErrInvalidSecret)
      else bindR (parseSecrets serializedSecrets) (\<lambda>secrets. Inr \<lparr>kr_secrets = secrets\<rparr>))"

text \<open>
  The loops over runes: every byte of a multi-byte or broken sequence is above the ASCII range, so
  the test of the runes is the test of the bytes.
\<close>

definition validMessageID :: "string \<Rightarrow> bool" where
  "validMessageID messageID =
     (if messageID = [] \<or> length messageID > maximumMessageID \<or> CHR ''.'' \<in> set messageID then False
      else list_all (\<lambda>c. \<not> ((of_char c :: nat) \<le> 32 \<or> (of_char c :: nat) = 127)) messageID)"

definition parseTimestamp :: "string \<Rightarrow> error + int" where
  "parseTimestamp v =
     (if v = [] then Inl (Webhook ErrInvalidHeaders)
      else if \<not> list_all (\<lambda>c. \<not> ((of_char c :: nat) < 48 \<or> (of_char c :: nat) > 57)) v
      then Inl (Webhook ErrInvalidHeaders)
      else if int (decimalValue v) > maxInt64 then Inl (Webhook ErrInvalidHeaders)
      else Inr (int (decimalValue v)))"

definition withinTolerance :: "int \<Rightarrow> int \<Rightarrow> int \<Rightarrow> bool" where
  "withinTolerance timestamp now toleranceSeconds =
     (if now \<ge> timestamp then now - timestamp \<le> toleranceSeconds else timestamp - now \<le> toleranceSeconds)"

definition parseSignature :: "string \<Rightarrow> error + string" where
  "parseSignature part =
     (case cutAt (CHR '','') part of
        None \<Rightarrow> Inl (Webhook ErrInvalidHeaders)
      | Some (version, encoded) \<Rightarrow>
          if version = [] \<or> encoded = [] \<or> CHR '','' \<in> set encoded then Inl (Webhook ErrInvalidHeaders)
          else if version \<noteq> SignatureVersionV1 then Inl (Webhook ErrUnsupportedSignatureVersion)
          else case DecodeString encoded of
              None \<Rightarrow> Inl (Webhook ErrInvalidHeaders)
            | Some signature \<Rightarrow>
                if length signature \<noteq> sha256Size then Inl (Webhook ErrInvalidHeaders) else Inr signature)"

fun parseParts :: "string list \<Rightarrow> error + string list" where
  "parseParts [] = Inr []"
| "parseParts (part # parts) =
     bindR (parseSignature part) (\<lambda>signature. bindR (parseParts parts) (\<lambda>signatures. Inr (signature # signatures)))"

definition parseSignatures :: "string \<Rightarrow> error + string list" where
  "parseSignatures v =
     (if v = [] \<or> hd v = CHR '' '' \<or> last v = CHR '' ''
         \<or> list_ex (\<lambda>c. c = CHR 0x09 \<or> c = CHR 0x0D \<or> c = CHR 0x0A) v
      then Inl (Webhook ErrInvalidHeaders)
      else parseParts (splitAt1 (CHR '' '') v))"

definition signingContent :: "string \<Rightarrow> string \<Rightarrow> string \<Rightarrow> string" where
  "signingContent messageID timestamp rawBody = messageID @ ''.'' @ timestamp @ ''.'' @ rawBody"

definition signatureValue :: "hmac \<Rightarrow> string \<Rightarrow> string \<Rightarrow> string" where
  "signatureValue hmac secret content = SignatureVersionV1 @ '','' @ EncodeToString (hmac secret content)"

definition Sign :: "hmac \<Rightarrow> Keyring \<Rightarrow> string \<Rightarrow> Time \<Rightarrow> string \<Rightarrow> error + Headers" where
  "Sign hmac k messageID timestamp rawBody =
     (if kr_secrets k = [] \<or> \<not> validMessageID messageID \<or> Unix timestamp < 0
      then Inl (Webhook ErrInvalidHeaders)
      else
        let timestampValue = Itoa (Unix timestamp);
            content = signingContent messageID timestampValue rawBody
        in Inr \<lparr>hd_ID = messageID, hd_Timestamp = timestampValue,
             hd_Signature = joinWith (CHR '' '') (map (\<lambda>secret. signatureValue hmac secret content) (kr_secrets k))\<rparr>)"

definition VerifyWithTolerance ::
    "hmac \<Rightarrow> Keyring \<Rightarrow> Headers \<Rightarrow> string \<Rightarrow> Time \<Rightarrow> Duration \<Rightarrow> error option" where
  "VerifyWithTolerance hmac k headers rawBody now tolerance =
     (if kr_secrets k = [] \<or> \<not> validMessageID (hd_ID headers) then Some (Webhook ErrInvalidHeaders)
      else if tolerance < Second \<or> Unix now < 0 then Some (Webhook ErrInvalidTolerance)
      else case parseTimestamp (hd_Timestamp headers) of
          Inl e \<Rightarrow> Some e
        | Inr timestamp \<Rightarrow>
            if \<not> withinTolerance timestamp (Unix now) (tolerance div Second)
            then Some (Webhook ErrTimestampOutsideTolerance)
            else case parseSignatures (hd_Signature headers) of
                Inl e \<Rightarrow> Some e
              | Inr signatures \<Rightarrow>
                  let content = signingContent (hd_ID headers) (hd_Timestamp headers) rawBody in
                  if \<not> list_ex (\<lambda>secret. list_ex (\<lambda>signature. hmac secret content = signature) signatures)
                        (kr_secrets k)
                  then Some (Webhook ErrSignatureMismatch) else None)"

definition VerifyWebhook :: "hmac \<Rightarrow> Keyring \<Rightarrow> Headers \<Rightarrow> string \<Rightarrow> Time \<Rightarrow> error option" where
  "VerifyWebhook hmac k headers rawBody now = VerifyWithTolerance hmac k headers rawBody now DefaultTolerance"

section \<open>Base64 decodes what it encoded\<close>

lemma base64_digits: "list_all (\<lambda>n. base64Value (base64Digit n) = Some n) [0..<64]"
  by code_simp

lemma base64Value_Digit [simp]: "n < 64 \<Longrightarrow> base64Value (base64Digit n) = Some n"
  using base64_digits by (simp add: list_all_iff)

lemma base64Value_pad [simp]: "base64Value (CHR ''='') = None"
  by code_simp

lemma byte_less [simp]: "(of_char c :: nat) < 256"
  by (metis nat_of_char_less_256)

lemma byte_pieces [simp]:
  fixes x :: nat
  shows "x < 256 \<Longrightarrow> x div 4 < 64" "x mod 4 * 16 < 64" "x mod 16 * 4 < 64"
    "y < 256 \<Longrightarrow> x mod 4 * 16 + y div 16 < 64" "y < 256 \<Longrightarrow> x mod 16 * 4 + y div 64 < 64"
  by simp_all

text \<open>The bits of a byte that a digit does not carry.\<close>

lemma byte_rest [simp]:
  "of_char c div 16 div 16 = (0 :: nat)" "of_char c div 64 div 4 = (0 :: nat)"
  "of_char c div 16 mod 16 = (of_char c div 16 :: nat)" "of_char c div 64 mod 4 = (of_char c div 64 :: nat)"
proof -
  have "(of_char c :: nat) div 16 < 16" "(of_char c :: nat) div 64 < 4"
    by (rule less_mult_imp_div_less, simp)+
  then show "of_char c div 16 div 16 = (0 :: nat)" "of_char c div 64 div 4 = (0 :: nat)"
    "of_char c div 16 mod 16 = (of_char c div 16 :: nat)" "of_char c div 64 mod 4 = (of_char c div 64 :: nat)"
    by simp_all
qed

lemma decodeGroups_Encode: "decodeGroups (EncodeToString s) = Some s"
  by (induction s rule: EncodeToString.induct) (simp_all add: Let_def)

text \<open>The digits are printable and none of the separators.\<close>

lemma alphabet_safe: "list_all (\<lambda>c. \<not> lineBreak c \<and> c \<notin> {CHR '','', CHR '' '', CHR 0x09}) base64Alphabet"
  by code_simp

lemma base64Digit_safe:
  "n < 64 \<Longrightarrow> \<not> lineBreak (base64Digit n) \<and> base64Digit n \<notin> {CHR '','', CHR '' '', CHR 0x09}"
proof -
  assume "n < 64"
  moreover have "length base64Alphabet = 64" by code_simp
  ultimately have "base64Digit n \<in> set base64Alphabet" by (simp add: base64Digit_def)
  with alphabet_safe show ?thesis by (simp add: list_all_iff)
qed

lemma pad_safe: "\<not> lineBreak (CHR ''='')"
  by (simp add: lineBreak_def)

lemma Encode_safe:
  "c \<in> set (EncodeToString s) \<Longrightarrow> \<not> lineBreak c \<and> c \<notin> {CHR '','', CHR '' '', CHR 0x09}"
proof (induction s rule: EncodeToString.induct)
  case (4 a b d rest)
  then show ?case using base64Digit_safe by (auto simp: Let_def)
qed (use base64Digit_safe pad_safe in \<open>auto simp: Let_def\<close>)

lemma Decode_Encode: "DecodeString (EncodeToString s) = Some s"
proof -
  have "filter (\<lambda>c. \<not> lineBreak c) (EncodeToString s) = EncodeToString s"
    using Encode_safe by (simp add: filter_id_conv)
  then show ?thesis by (simp add: DecodeString_def decodeGroups_Encode)
qed

lemma Encode_nonempty: "s \<noteq> [] \<Longrightarrow> EncodeToString s \<noteq> []"
  by (cases s rule: EncodeToString.cases) (simp_all add: Let_def)

section \<open>Headers are read back\<close>

lemma split_nonempty: "splitAt1 sep s \<noteq> []"
  by (induction s) (auto split: list.split)

lemma split_single: "sep \<notin> set part \<Longrightarrow> splitAt1 sep part = [part]"
  by (induction part) auto

lemma split_prefix: "sep \<notin> set part \<Longrightarrow> splitAt1 sep (part @ sep # rest) = part # splitAt1 sep rest"
  by (induction part) auto

lemma split_join:
  "parts \<noteq> [] \<Longrightarrow> \<forall>part \<in> set parts. sep \<notin> set part \<Longrightarrow> splitAt1 sep (joinWith sep parts) = parts"
  by (induction sep parts rule: joinWith.induct) (auto simp: split_single split_prefix)

lemma cut_prefix: "sep \<notin> set l \<Longrightarrow> cutAt sep (l @ sep # r) = Some (l, r)"
  by (induction l) auto

lemma set_join: "set (joinWith sep parts) \<subseteq> insert sep (\<Union> (set ` set parts))"
  by (induction sep parts rule: joinWith.induct) auto

lemma join_ends:
  "parts \<noteq> [] \<Longrightarrow> \<forall>part \<in> set parts. part \<noteq> [] \<Longrightarrow>
     joinWith sep parts \<noteq> [] \<and> hd (joinWith sep parts) = hd (hd parts)
     \<and> last (joinWith sep parts) = last (last parts)"
  by (induction sep parts rule: joinWith.induct) auto

lemma signatureValue_props:
  assumes "length (hmac secret content) = sha256Size"
  shows "parseSignature (signatureValue hmac secret content) = Inr (hmac secret content)"
    and "signatureValue hmac secret content \<noteq> []"
    and "c \<in> set (signatureValue hmac secret content) \<Longrightarrow> \<not> lineBreak c \<and> c \<noteq> CHR '' '' \<and> c \<noteq> CHR 0x09"
proof -
  have comma: "CHR '','' \<notin> set (EncodeToString (hmac secret content))" using Encode_safe by blast
  have "hmac secret content \<noteq> []" using assms by (auto simp: sha256Size_def)
  then have "EncodeToString (hmac secret content) \<noteq> []" by (rule Encode_nonempty)
  moreover have "cutAt (CHR '','') (signatureValue hmac secret content)
      = Some (''v1'', EncodeToString (hmac secret content))"
    using cut_prefix [of "CHR '',''" "''v1''"] by (simp add: signatureValue_def SignatureVersionV1_def)
  ultimately show "parseSignature (signatureValue hmac secret content) = Inr (hmac secret content)"
    using comma assms by (simp add: parseSignature_def Decode_Encode SignatureVersionV1_def)
  show "signatureValue hmac secret content \<noteq> []" by (simp add: signatureValue_def)
  show "c \<in> set (signatureValue hmac secret content) \<Longrightarrow> \<not> lineBreak c \<and> c \<noteq> CHR '' '' \<and> c \<noteq> CHR 0x09"
    using Encode_safe by (auto simp: signatureValue_def SignatureVersionV1_def lineBreak_def)
qed

lemma parseParts_map:
  "\<forall>x \<in> set xs. parseSignature (f x) = Inr (g x) \<Longrightarrow> parseParts (map f xs) = Inr (map g xs)"
  by (induction xs) simp_all

lemma parseSignatures_join:
  assumes "secrets \<noteq> []" and "\<forall>secret content. length (hmac secret content) = sha256Size"
  shows "parseSignatures (joinWith (CHR '' '') (map (\<lambda>secret. signatureValue hmac secret content) secrets))
    = Inr (map (\<lambda>secret. hmac secret content) secrets)"
proof -
  let ?parts = "map (\<lambda>secret. signatureValue hmac secret content) secrets"
  let ?v = "joinWith (CHR '' '') ?parts"
  note sig = signatureValue_props [where hmac = hmac and content = content, OF assms(2) [rule_format]]
  have ends: "?v \<noteq> []" "hd ?v = hd (hd ?parts)" "last ?v = last (last ?parts)"
    using join_ends [of ?parts "CHR '' ''"] assms(1) sig(2) by auto
  have safe: "c \<in> set part \<Longrightarrow> part \<in> set ?parts \<Longrightarrow> \<not> lineBreak c \<and> c \<noteq> CHR '' '' \<and> c \<noteq> CHR 0x09" for c part
    using sig(3) by auto
  have "?parts \<noteq> []" using assms(1) by simp
  then have "hd ?parts \<in> set ?parts" "last ?parts \<in> set ?parts" by (rule hd_in_set, rule last_in_set)
  moreover have "part \<noteq> []" if "part \<in> set ?parts" for part using that sig(2) by (metis imageE list.set_map)
  ultimately have "hd ?parts \<in> set ?parts" "last ?parts \<in> set ?parts" "hd ?parts \<noteq> []" "last ?parts \<noteq> []"
    by blast+
  then have "hd ?v \<noteq> CHR '' ''" "last ?v \<noteq> CHR '' ''"
    unfolding ends(2,3) using safe hd_in_set last_in_set by blast+
  moreover have "\<not> list_ex (\<lambda>c. c = CHR 0x09 \<or> c = CHR 0x0D \<or> c = CHR 0x0A) ?v"
    using set_join [of "CHR '' ''" ?parts] safe unfolding list_ex_iff lineBreak_def by fastforce
  moreover have "splitAt1 (CHR '' '') ?v = ?parts"
    by (rule split_join) (use assms(1) safe in auto)
  ultimately show ?thesis
    using ends(1) parseParts_map [where f = "\<lambda>secret. signatureValue hmac secret content"] sig(1)
    by (simp add: parseSignatures_def)
qed

lemma digit_bytes: "c \<in> set (decimal n) \<Longrightarrow> (of_char c :: nat) \<ge> 48 \<and> (of_char c :: nat) \<le> 57"
  using decimal_digits [of c n] of_char_digitChar by fastforce

lemma decimal_nonempty: "decimal n \<noteq> []"
  by (simp add: decimal.simps [of n])

lemma parseTimestamp_Itoa:
  assumes "0 \<le> t" and "t \<le> maxInt64"
  shows "parseTimestamp (Itoa t) = Inr t"
  using assms digit_bytes [of _ "nat t"]
  by (auto simp: parseTimestamp_def Itoa_def decimal_nonempty decimalValue_decimal list_all_iff not_less)

text \<open>The signed content determines its three parts.\<close>

lemma dot_split:
  "CHR ''.'' \<notin> set a \<Longrightarrow> CHR ''.'' \<notin> set b \<Longrightarrow> a @ CHR ''.'' # r = b @ CHR ''.'' # s \<Longrightarrow> a = b \<and> r = s"
proof (induction a arbitrary: b)
  case Nil
  then show ?case by (cases b) auto
next
  case (Cons c a)
  then show ?case by (cases b) auto
qed

lemma signingContent_inj:
  assumes "validMessageID m" "validMessageID n" "parseTimestamp t = Inr t'" "parseTimestamp u = Inr u'"
    and "signingContent m t body = signingContent n u body'"
  shows "m = n \<and> t = u \<and> body = body'"
proof -
  have "CHR ''.'' \<notin> set m" "CHR ''.'' \<notin> set n"
    using assms(1,2) by (auto simp: validMessageID_def split: if_splits)
  moreover have "CHR ''.'' \<notin> set t" "CHR ''.'' \<notin> set u"
    using assms(3,4) by (auto simp: parseTimestamp_def list_all_iff split: if_splits)
  ultimately show ?thesis
    using assms(5) dot_split [of m n "t @ CHR ''.'' # body" "u @ CHR ''.'' # body'"] dot_split [of t u body body']
    by (simp add: signingContent_def)
qed

section \<open>A concrete keyring\<close>

definition demoMac :: hmac where
  "demoMac secret content = take 32 (secret @ content @ replicate 32 CHR ''0'')"

definition rotated :: Keyring where "rotated = \<lparr>kr_secrets = [''new'', ''old'']\<rparr>"
definition older :: Keyring where "older = \<lparr>kr_secrets = [''old'']\<rparr>"

lemma demoMac_size: "\<forall>secret content. length (demoMac secret content) = sha256Size"
  by (auto simp: demoMac_def sha256Size_def min_def)

section \<open>Properties\<close>

text \<open>
  C31: signed messages verify, and nothing else. A receiver within the tolerance accepts the headers
  that \<open>Sign\<close> produced, together with some body, if and only if one of its secrets gives for that
  body the same code as one of the signer's secrets for the signed body. So the signed body is
  accepted by every keyring that shares a secret, at either side of a rotation, and another body
  only if the code collides on two contents, which then differ.
\<close>

theorem sign_verify:
  assumes "\<forall>secret content. length (hmac secret content) = sha256Size"
    and "Sign hmac k messageID timestamp body = Inr headers" and "Unix timestamp \<le> maxInt64"
    and "Second \<le> tolerance" and "0 \<le> Unix now" and "\<bar>Unix now - Unix timestamp\<bar> \<le> tolerance div Second"
    and "kr_secrets k' \<noteq> []"
  shows "(VerifyWithTolerance hmac k' headers body' now tolerance = None) =
    (\<exists>secret \<in> set (kr_secrets k). \<exists>secret' \<in> set (kr_secrets k').
       hmac secret' (signingContent messageID (hd_Timestamp headers) body')
         = hmac secret (signingContent messageID (hd_Timestamp headers) body))
    \<and> (signingContent messageID (hd_Timestamp headers) body' = signingContent messageID (hd_Timestamp headers) body
       \<longleftrightarrow> body' = body)"
proof -
  from assms(2) have sign: "kr_secrets k \<noteq> []" "validMessageID messageID" "0 \<le> Unix timestamp"
    "hd_ID headers = messageID" "hd_Timestamp headers = Itoa (Unix timestamp)"
    "hd_Signature headers = joinWith (CHR '' '') (map (\<lambda>secret. signatureValue hmac secret
       (signingContent messageID (hd_Timestamp headers) body)) (kr_secrets k))"
    by (auto simp: Sign_def Let_def split: if_splits)
  have "withinTolerance (Unix timestamp) (Unix now) (tolerance div Second)"
    using assms(6) by (auto simp: withinTolerance_def)
  then have "VerifyWithTolerance hmac k' headers body' now tolerance = None \<longleftrightarrow>
      list_ex (\<lambda>secret'. list_ex (\<lambda>signature. hmac secret' (signingContent messageID (hd_Timestamp headers) body')
        = signature) (map (\<lambda>secret. hmac secret (signingContent messageID (hd_Timestamp headers) body))
          (kr_secrets k))) (kr_secrets k')"
    using assms(4,5,7) sign(2,4) parseTimestamp_Itoa [OF sign(3) assms(3)] parseSignatures_join [OF sign(1) assms(1)]
    by (simp add: VerifyWithTolerance_def Let_def sign(6) sign(5) del: list_ex_iff)
  moreover have "signingContent messageID (hd_Timestamp headers) body' = signingContent messageID (hd_Timestamp headers) body
      \<longleftrightarrow> body' = body"
    using signingContent_inj [OF sign(2) sign(2)] parseTimestamp_Itoa [OF sign(3) assms(3)] by (auto simp: sign(5))
  ultimately show ?thesis by (auto simp: list_ex_iff)
qed

theorem sign_verify_witness:
  "VerifyWithTolerance demoMac older \<lparr>hd_ID = ''m'', hd_Timestamp = ''0'',
     hd_Signature = joinWith (CHR '' '') (map (\<lambda>secret. signatureValue demoMac secret ''m.0.body'') [''new'', ''old''])\<rparr>
     ''body'' unixEpoch Second = None"
proof -
  have "Itoa 0 = ''0''" by code_simp
  then have "Sign demoMac rotated ''m'' unixEpoch ''body'' = Inr \<lparr>hd_ID = ''m'', hd_Timestamp = ''0'',
     hd_Signature = joinWith (CHR '' '') (map (\<lambda>secret. signatureValue demoMac secret ''m.0.body'') [''new'', ''old''])\<rparr>"
    by (simp add: Sign_def rotated_def Unix_def validMessageID_def maximumMessageID_def signingContent_def Let_def)
  from sign_verify [OF demoMac_size this, where now = unixEpoch and tolerance = Second and k' = older and body' = "''body''"]
  show ?thesis
    by (simp add: Unix_def maxInt64_def Second_def Millisecond_def older_def rotated_def)
qed

end
