(* ===== verification/Delivery_Queue.thy ===== *)
theory Delivery_Queue
  imports Audit_Chain Webhook_Signing
begin

text \<open>
  The webhook dispatcher, \<open>src/internal/delivery/delivery.go\<close>: the durable queue, \<open>Enqueue\<close>,
  \<open>EnqueueWithMutation\<close> and \<open>DeliverDue\<close> with the retry schedule. The clock, the identifier
  generators, the payload source, the HTTP client and the context are answers given with each
  call; the JSON library, the URL parser and the hash are parameters. Nil arguments and receivers
  and the telemetry of a call are left out. The theory \<open>Delivery\<close> has the specification and the
  lemmas.
\<close>

section \<open>Data\<close>

definition maxDestinationRefLength :: nat where "maxDestinationRefLength = 128"
definition maxPayloadRefLength :: nat where "maxPayloadRefLength = 256"
definition maxQueueItems :: int where "maxQueueItems = 10000"
definition maxAttempts :: int where "maxAttempts = 32"
definition maxPayloadBytes :: int where "maxPayloadBytes = 2 ^ 20"
definition queueKeyPrefix :: string where "queueKeyPrefix = ''delivery/''"

text \<open>The fields of \<open>url.URL\<close> that are inspected; \<open>url_String\<close> is its \<open>String\<close> method.\<close>

record parsedURL =
  url_Scheme :: string
  url_Host :: string
  url_User :: bool
  url_RawQuery :: string
  url_Fragment :: string
  url_String :: string

record delivery_lib =
  dl_json :: json_lib
  dl_item :: "DeliveryQueueItem json_type"
  dl_valid :: "string \<Rightarrow> bool"
  dl_sha :: "string \<Rightarrow> string"
  dl_url :: "string \<Rightarrow> error + parsedURL"
  dl_hmac :: hmac

record 'db DispatcherOptions =
  op_State :: "'db engine"
  op_Audit :: audit_lib
  op_Lib :: delivery_lib
  op_Keyring :: Keyring
  op_Destinations :: "(string \<times> string) list"
  op_MaxQueueItems :: int
  op_MaxAttempts :: int
  op_InitialBackoff :: Duration
  op_MaxBackoff :: Duration
  op_RequestTimeout :: Duration
  op_MaxPayloadBytes :: int

record 'db Dispatcher =
  dp_eng :: "'db engine"
  dp_audit :: audit_lib
  dp_lib :: delivery_lib
  dp_keyring :: Keyring
  dp_destinations :: "(string \<times> string) list"
  dp_maxQueueItems :: int
  dp_maxAttempts :: int
  dp_initialBackoff :: Duration
  dp_maxBackoff :: Duration
  dp_requestTimeout :: Duration
  dp_maxPayloadBytes :: int

record EnqueueRequest =
  eq_PayloadType :: DeliveryPayloadType
  eq_PayloadRef :: string
  eq_DestinationRef :: string
  eq_ExpiresAt :: Time

record DeliveryResult =
  dv_Item :: DeliveryQueueItem
  dv_Sent :: bool
  dv_Retrying :: bool
  dv_Reason :: string

record storedItem =
  si_key :: string
  si_item :: DeliveryQueueItem

section \<open>Configuration\<close>

definition validDestination :: "delivery_lib \<Rightarrow> string \<times> string \<Rightarrow> error + (string \<times> string)" where
  "validDestination lib = (\<lambda>(reference, endpoint).
     if \<not> validToken reference maxDestinationRefLength then Inl (Delivery ErrDeliveryOptions)
     else case dl_url lib endpoint of
         Inl _ \<Rightarrow> Inl (Delivery ErrDeliveryOptions)
       | Inr parsed \<Rightarrow>
           if url_Scheme parsed \<noteq> ''https'' \<or> url_Host parsed = [] \<or> url_User parsed
              \<or> url_RawQuery parsed \<noteq> [] \<or> url_Fragment parsed \<noteq> []
           then Inl (Delivery ErrDeliveryOptions)
           else Inr (reference, url_String parsed))"

fun validDestinations :: "delivery_lib \<Rightarrow> (string \<times> string) list \<Rightarrow> error + (string \<times> string) list" where
  "validDestinations lib [] = Inr []"
| "validDestinations lib (d # ds) =
     bindR (validDestination lib d) (\<lambda>d'. bindR (validDestinations lib ds) (\<lambda>ds'. Inr (d' # ds')))"

definition validatedDestinations :: "delivery_lib \<Rightarrow> (string \<times> string) list \<Rightarrow> error + (string \<times> string) list" where
  "validatedDestinations lib destinations =
     (if destinations = [] \<or> int (length destinations) > maxQueueItems
      then Inl (Delivery ErrDeliveryOptions) else validDestinations lib destinations)"

definition newDispatcher :: "'db DispatcherOptions \<Rightarrow> error + 'db Dispatcher" where
  "newDispatcher options =
     (if op_MaxQueueItems options < 1 \<or> op_MaxQueueItems options > maxQueueItems
         \<or> op_MaxAttempts options < 1 \<or> op_MaxAttempts options > maxAttempts
         \<or> op_InitialBackoff options < Millisecond \<or> op_MaxBackoff options < op_InitialBackoff options
         \<or> op_RequestTimeout options < Millisecond \<or> op_RequestTimeout options > 2 * Minute
         \<or> op_MaxPayloadBytes options < 1 \<or> op_MaxPayloadBytes options > maxPayloadBytes
      then Inl (Delivery ErrDeliveryOptions)
      else bindR (validatedDestinations (op_Lib options) (op_Destinations options)) (\<lambda>destinations.
        Inr \<lparr>dp_eng = op_State options, dp_audit = op_Audit options, dp_lib = op_Lib options,
             dp_keyring = op_Keyring options, dp_destinations = destinations,
             dp_maxQueueItems = op_MaxQueueItems options, dp_maxAttempts = op_MaxAttempts options,
             dp_initialBackoff = op_InitialBackoff options, dp_maxBackoff = op_MaxBackoff options,
             dp_requestTimeout = op_RequestTimeout options,
             dp_maxPayloadBytes = op_MaxPayloadBytes options\<rparr>))"

section \<open>Queue entries\<close>

definition itemKey :: "delivery_lib \<Rightarrow> string \<Rightarrow> string" where
  "itemKey lib deliveryID = queueKeyPrefix @ dl_sha lib deliveryID"

definition itemDecodeOptions :: "DeliveryQueueItem DecodeOptions" where
  "itemDecodeOptions =
     \<lparr>do_MaxBytes = MaxDocumentBytes, do_SchemaVersion = SchemaVersionV1,
      do_Validate = Some DeliveryQueueItem_Validate\<rparr>"

definition decodeItem :: "delivery_lib \<Rightarrow> string \<Rightarrow> error + DeliveryQueueItem" where
  "decodeItem lib document =
     (case Decode (dl_json lib) (dl_item lib) document itemDecodeOptions of
        Inl _ \<Rightarrow> Inl (Delivery ErrCorruptQueue)
      | Inr item \<Rightarrow> Inr item)"

definition putItem :: "'db Dispatcher \<Rightarrow> string \<Rightarrow> DeliveryQueueItem \<Rightarrow> 'db \<Rightarrow> error + 'db" where
  "putItem d key item tx =
     (if itemKey (dp_lib d) (dq_DeliveryID item) \<noteq> key \<or> DeliveryQueueItem_Validate item \<noteq> None
      then Inl (Delivery ErrCorruptQueue)
      else bindR (jt_marshal (dl_item (dp_lib d)) item) (\<lambda>document.
        tx_Put (dp_eng d) BucketDeliveryQueue key document tx))"

definition loadItem :: "'db Dispatcher \<Rightarrow> string \<Rightarrow> 'db \<Rightarrow> error + DeliveryQueueItem" where
  "loadItem d key tx =
     bindR (tx_Get (dp_eng d) BucketDeliveryQueue key tx) (\<lambda>found.
       case found of
         None \<Rightarrow> Inl (Delivery ErrCorruptQueue)
       | Some document \<Rightarrow> decodeItem (dp_lib d) document)"

definition countStep :: "delivery_lib \<Rightarrow> int \<Rightarrow> string \<Rightarrow> string \<Rightarrow> error + int" where
  "countStep lib pending key document =
     bindR (decodeItem lib document) (\<lambda>item.
       Inr (if dq_State item = DeliveryPending then pending + 1 else pending))"

definition countPending :: "'db Dispatcher \<Rightarrow> 'db \<Rightarrow> error + int" where
  "countPending d tx = tx_ForEach (dp_eng d) BucketDeliveryQueue (countStep (dp_lib d)) 0 tx"

definition inUseStep :: "delivery_lib \<Rightarrow> string \<Rightarrow> bool \<Rightarrow> string \<Rightarrow> string \<Rightarrow> error + bool" where
  "inUseStep lib webhookID inUse key document =
     bindR (decodeItem lib document) (\<lambda>item.
       Inr (if dq_WebhookID item = webhookID then True else inUse))"

definition webhookIDInUse :: "'db Dispatcher \<Rightarrow> string \<Rightarrow> 'db \<Rightarrow> error + bool" where
  "webhookIDInUse d webhookID tx =
     tx_ForEach (dp_eng d) BucketDeliveryQueue (inUseStep (dp_lib d) webhookID) False tx"

definition pendingStep ::
    "delivery_lib \<Rightarrow> storedItem list \<Rightarrow> string \<Rightarrow> string \<Rightarrow> error + storedItem list" where
  "pendingStep lib items key document =
     bindR (decodeItem lib document) (\<lambda>item.
       if itemKey lib (dq_DeliveryID item) \<noteq> key then Inl (Delivery ErrCorruptQueue)
       else Inr (if dq_State item = DeliveryPending then items @ [\<lparr>si_key = key, si_item = item\<rparr>] else items))"

definition pendingItems :: "'db Dispatcher \<Rightarrow> 'db \<Rightarrow> error + storedItem list" where
  "pendingItems d db =
     View (dp_eng d) (tx_ForEach (dp_eng d) BucketDeliveryQueue (pendingStep (dp_lib d)) []) db"

section \<open>Enqueue\<close>

definition dispatcherNow :: "Time \<Rightarrow> error + Time" where
  "dispatcherNow now = (if IsZero now then Inl (Delivery ErrDeliveryOptions) else Inr now)"

definition validateEnqueueRequest :: "EnqueueRequest \<Rightarrow> (string \<times> string) list \<Rightarrow> error option" where
  "validateEnqueueRequest request destinations =
     (if (eq_PayloadType request \<noteq> DeliveryPayloadLifecycleEvent
            \<and> eq_PayloadType request \<noteq> DeliveryPayloadIncidentReport)
         \<or> \<not> validToken (eq_PayloadRef request) maxPayloadRefLength
         \<or> \<not> validToken (eq_DestinationRef request) maxDestinationRefLength
         \<or> IsZero (eq_ExpiresAt request)
      then Some (Delivery ErrDeliveryRequest)
      else if map_of destinations (eq_DestinationRef request) = None
      then Some (Delivery ErrDeliveryRequest)
      else None)"

definition newItem :: "EnqueueRequest \<Rightarrow> string \<Rightarrow> string \<Rightarrow> Time \<Rightarrow> DeliveryQueueItem" where
  "newItem request deliveryID webhookID now =
     \<lparr>dq_SchemaVersion = SchemaVersionV1, dq_DeliveryID = deliveryID,
      dq_PayloadType = eq_PayloadType request, dq_PayloadRef = eq_PayloadRef request,
      dq_WebhookID = webhookID, dq_DestinationRef = eq_DestinationRef request, dq_AttemptCount = 0,
      dq_NextAttemptAt = now, dq_ExpiresAt = eq_ExpiresAt request, dq_State = DeliveryPending\<rparr>"

definition enqueueTx ::
    "'db Dispatcher \<Rightarrow> DeliveryQueueItem \<Rightarrow> ('db \<Rightarrow> error + 'db) option \<Rightarrow> 'db
      \<Rightarrow> error + (DeliveryQueueItem \<times> 'db)" where
  "enqueueTx d item mutation tx =
     bindR (case mutation of None \<Rightarrow> Inr tx | Some mutate \<Rightarrow> mutate tx) (\<lambda>tx1.
     bindR (countPending d tx1) (\<lambda>pending.
     if pending \<ge> dp_maxQueueItems d then Inl (Delivery ErrQueueFull)
     else
       let key = itemKey (dp_lib d) (dq_DeliveryID item) in
       bindR (tx_Get (dp_eng d) BucketDeliveryQueue key tx1) (\<lambda>found.
       if found \<noteq> None then Inl (Delivery ErrDeliveryConflict)
       else bindR (webhookIDInUse d (dq_WebhookID item) tx1) (\<lambda>inUse.
         if inUse then Inl (Delivery ErrDeliveryConflict)
         else bindR (putItem d key item tx1) (\<lambda>tx2. Inr (item, tx2))))))"

text \<open>What the clock and the two identifier generators answer.\<close>

record enqueue_answers =
  ea_Now :: Time
  ea_DeliveryID :: "error + string"
  ea_WebhookID :: "error + string"

definition enqueue ::
    "'db Dispatcher \<Rightarrow> enqueue_answers \<Rightarrow> EnqueueRequest \<Rightarrow> ('db \<Rightarrow> error + 'db) option \<Rightarrow> 'db
      \<Rightarrow> (error + DeliveryQueueItem) \<times> 'db" where
  "enqueue d answers request mutation db =
     (if validateEnqueueRequest request (dp_destinations d) \<noteq> None then (Inl (Delivery ErrDeliveryRequest), db)
      else case dispatcherNow (ea_Now answers) of
        Inl e \<Rightarrow> (Inl e, db)
      | Inr now \<Rightarrow>
          if \<not> now < eq_ExpiresAt request then (Inl (Delivery ErrDeliveryRequest), db)
          else case ea_DeliveryID answers of
            Inl _ \<Rightarrow> (Inl (Delivery ErrDeliveryRequest), db)
          | Inr deliveryID \<Rightarrow>
              if \<not> validToken deliveryID maxPayloadRefLength then (Inl (Delivery ErrDeliveryRequest), db)
              else case ea_WebhookID answers of
                Inl _ \<Rightarrow> (Inl (Delivery ErrDeliveryRequest), db)
              | Inr webhookID \<Rightarrow>
                  (case Sign (dl_hmac (dp_lib d)) (dp_keyring d) webhookID now [] of
                     Inl _ \<Rightarrow> (Inl (Delivery ErrDeliveryRequest), db)
                   | Inr _ \<Rightarrow>
                       Update (dp_eng d) (enqueueTx d (newItem request deliveryID webhookID now) mutation) db))"

definition Enqueue ::
    "'db Dispatcher \<Rightarrow> enqueue_answers \<Rightarrow> EnqueueRequest \<Rightarrow> 'db \<Rightarrow> (error + DeliveryQueueItem) \<times> 'db" where
  "Enqueue d answers request db = enqueue d answers request None db"

definition EnqueueWithMutation ::
    "'db Dispatcher \<Rightarrow> enqueue_answers \<Rightarrow> EnqueueRequest \<Rightarrow> ('db \<Rightarrow> error + 'db) option \<Rightarrow> 'db
      \<Rightarrow> (error + DeliveryQueueItem) \<times> 'db" where
  "EnqueueWithMutation d answers request mutation db =
     (case mutation of
        None \<Rightarrow> (Inl (Delivery ErrDeliveryRequest), db)
      | Some _ \<Rightarrow> enqueue d answers request mutation db)"


section \<open>Outcomes of one item\<close>

text \<open>
  The retry delay. The loop ends because \<open>retry\<close> grows; \<open>New\<close> makes the bounds positive, so
  the division of Go and \<open>div\<close> agree.
\<close>

function backoffLoop :: "Duration \<Rightarrow> int \<Rightarrow> int \<Rightarrow> Duration \<Rightarrow> Duration" where
  "backoffLoop maxBackoff attempt retry delay =
     (if retry < attempt \<and> delay < maxBackoff then
        (if delay > maxBackoff div 2 then maxBackoff
         else backoffLoop maxBackoff attempt (retry + 1) (wrap64 (delay * 2)))
      else min delay maxBackoff)"
  by pat_completeness auto
termination by (relation "measure (\<lambda>(maxBackoff, attempt, retry, delay). nat (attempt - retry))") auto

declare backoffLoop.simps [simp del]

definition backoff :: "'db Dispatcher \<Rightarrow> int \<Rightarrow> Duration" where
  "backoff d attempt =
     (if attempt < 1 then dp_initialBackoff d
      else backoffLoop (dp_maxBackoff d) attempt 1 (dp_initialBackoff d))"

definition deliveredTx ::
    "'db Dispatcher \<Rightarrow> storedItem \<Rightarrow> Time \<Rightarrow> 'db \<Rightarrow> error + (DeliveryQueueItem \<times> 'db)" where
  "deliveredTx d stored now tx =
     bindR (loadItem d (si_key stored) tx) (\<lambda>current.
       if dq_State current = DeliveryDelivered then Inr (current, tx)
       else if dq_State current \<noteq> DeliveryPending \<or> \<not> now < dq_ExpiresAt current
       then Inl (Delivery ErrCorruptQueue)
       else
         let updated = current\<lparr>dq_AttemptCount := wrap64 (dq_AttemptCount current + 1),
                                dq_State := DeliveryDelivered\<rparr>
         in bindR (putItem d (si_key stored) updated tx) (\<lambda>tx'. Inr (updated, tx')))"

definition markDelivered ::
    "'db Dispatcher \<Rightarrow> storedItem \<Rightarrow> Time \<Rightarrow> 'db \<Rightarrow> (error + DeliveryResult) \<times> 'db" where
  "markDelivered d stored now db =
     (case Update (dp_eng d) (deliveredTx d stored now) db of
        (Inl e, db') \<Rightarrow> (Inl e, db')
      | (Inr updated, db') \<Rightarrow>
          (Inr \<lparr>dv_Item = updated, dv_Sent = True, dv_Retrying = False, dv_Reason = ''delivered''\<rparr>, db'))"

definition failureEvent :: "string \<Rightarrow> DeliveryQueueItem \<Rightarrow> Time \<Rightarrow> string \<Rightarrow> AuditEvent" where
  "failureEvent auditID item now reason =
     \<lparr>ae_SchemaVersion = SchemaVersionV1, ae_EventID = auditID, ae_AggregateType = ''delivery'',
      ae_AggregateID = dq_DeliveryID item, ae_ActorIdentity = ''system'',
      ae_Action = ''delivery.failed'', ae_Result = ''failed'', ae_ReasonCode = reason,
      ae_OccurredAt = now, ae_PreviousDigest = [], ae_Digest = []\<rparr>"

definition auditDeliveryFailure ::
    "'db Dispatcher \<Rightarrow> string \<Rightarrow> DeliveryQueueItem \<Rightarrow> Time \<Rightarrow> string \<Rightarrow> ('db \<Rightarrow> error + 'db) option
      \<Rightarrow> 'db \<Rightarrow> error + 'db" where
  "auditDeliveryFailure d auditID item now reason change tx =
     bindR (Append (dp_eng d) (dp_audit d) (failureEvent auditID item now reason) change tx)
       (\<lambda>(event, tx'). Inr tx')"

definition terminalTx ::
    "'db Dispatcher \<Rightarrow> storedItem \<Rightarrow> Time \<Rightarrow> DeliveryState \<Rightarrow> string \<Rightarrow> string \<Rightarrow> 'db
      \<Rightarrow> error + (DeliveryQueueItem \<times> 'db)" where
  "terminalTx d stored now state reason auditID tx =
     bindR (loadItem d (si_key stored) tx) (\<lambda>current.
       if dq_State current = state then Inr (current, tx)
       else if dq_State current \<noteq> DeliveryPending then Inl (Delivery ErrCorruptQueue)
       else
         let updated = current\<lparr>dq_State := state\<rparr>
         in bindR (auditDeliveryFailure d auditID updated now reason
              (Some (putItem d (si_key stored) updated)) tx) (\<lambda>tx'. Inr (updated, tx')))"

definition markTerminal ::
    "'db Dispatcher \<Rightarrow> error + string \<Rightarrow> storedItem \<Rightarrow> Time \<Rightarrow> DeliveryState \<Rightarrow> string \<Rightarrow> 'db
      \<Rightarrow> (error + DeliveryResult) \<times> 'db" where
  "markTerminal d drawn stored now state reason db =
     (case drawn of
        Inl _ \<Rightarrow> (Inl (Delivery ErrDeliveryRequest), db)
      | Inr auditID \<Rightarrow>
          if \<not> validToken auditID maxPayloadRefLength then (Inl (Delivery ErrDeliveryRequest), db)
          else case Update (dp_eng d) (terminalTx d stored now state reason auditID) db of
              (Inl e, db') \<Rightarrow> (Inl e, db')
            | (Inr updated, db') \<Rightarrow>
                (Inr \<lparr>dv_Item = updated, dv_Sent = False, dv_Retrying = False, dv_Reason = reason\<rparr>, db'))"

definition failItem ::
    "'db Dispatcher \<Rightarrow> error + string \<Rightarrow> storedItem \<Rightarrow> Time \<Rightarrow> string \<Rightarrow> 'db
      \<Rightarrow> (error + DeliveryResult) \<times> 'db" where
  "failItem d drawn stored now reason db = markTerminal d drawn stored now DeliveryFailed reason db"

definition expireItem ::
    "'db Dispatcher \<Rightarrow> error + string \<Rightarrow> storedItem \<Rightarrow> Time \<Rightarrow> string \<Rightarrow> 'db
      \<Rightarrow> (error + DeliveryResult) \<times> 'db" where
  "expireItem d drawn stored now reason db = markTerminal d drawn stored now DeliveryExpired reason db"

definition retryTx ::
    "'db Dispatcher \<Rightarrow> storedItem \<Rightarrow> int \<Rightarrow> Time \<Rightarrow> 'db \<Rightarrow> error + (DeliveryQueueItem \<times> 'db)" where
  "retryTx d stored nextAttempt nextAt tx =
     bindR (loadItem d (si_key stored) tx) (\<lambda>current.
       if dq_State current \<noteq> DeliveryPending then Inl (Delivery ErrCorruptQueue)
       else
         let updated = current\<lparr>dq_AttemptCount := nextAttempt, dq_NextAttemptAt := nextAt\<rparr>
         in bindR (putItem d (si_key stored) updated tx) (\<lambda>tx'. Inr (updated, tx')))"

definition retryOrFail ::
    "'db Dispatcher \<Rightarrow> error + string \<Rightarrow> storedItem \<Rightarrow> Time \<Rightarrow> string \<Rightarrow> 'db
      \<Rightarrow> (error + DeliveryResult) \<times> 'db" where
  "retryOrFail d drawn stored now reason db =
     (let nextAttempt = wrap64 (dq_AttemptCount (si_item stored) + 1) in
      if nextAttempt \<ge> dp_maxAttempts d then failItem d drawn stored now ''attempts_exhausted'' db
      else
        let nextAt = now + backoff d nextAttempt in
        if \<not> nextAt < dq_ExpiresAt (si_item stored) then expireItem d drawn stored now ''expired'' db
        else case Update (dp_eng d) (retryTx d stored nextAttempt nextAt) db of
            (Inl e, db') \<Rightarrow> (Inl e, db')
          | (Inr updated, db') \<Rightarrow>
              (Inr \<lparr>dv_Item = updated, dv_Sent = False, dv_Retrying = True, dv_Reason = reason\<rparr>, db'))"

section \<open>DeliverDue\<close>

text \<open>
  \<open>PayloadSources.Load\<close>. A payload source is a function of the payload type and reference; the
  map is given by its entries.
\<close>

type_synonym PayloadSource = "DeliveryPayloadType \<Rightarrow> string \<Rightarrow> error + string"

definition PayloadSources_Load :: "(DeliveryPayloadType \<times> PayloadSource) list \<Rightarrow> PayloadSource" where
  "PayloadSources_Load sources payloadType payloadRef =
     (case map_of sources payloadType of
        None \<Rightarrow> Inl (Delivery ErrPayloadUnavailable)
      | Some source \<Rightarrow> source payloadType payloadRef)"

record outRequest =
  oq_Method :: string
  oq_URL :: string
  oq_ContentType :: string
  oq_Headers :: Headers
  oq_Body :: string

text \<open>A response; \<open>rs_Close\<close> is what closing its body (if it has one) returns.\<close>

record httpResponse =
  rs_StatusCode :: int
  rs_Close :: "error option"

definition closeResponse :: "httpResponse option \<Rightarrow> error option" where
  "closeResponse response = (case response of None \<Rightarrow> None | Some r \<Rightarrow> rs_Close r)"

text \<open>A call of \<open>enqueue\<close> by another caller, with its answers.\<close>

record 'db enqueue_call =
  ec_Answers :: enqueue_answers
  ec_Request :: EnqueueRequest
  ec_Mutation :: "('db \<Rightarrow> error + 'db) option"

fun enqueues :: "'db Dispatcher \<Rightarrow> 'db enqueue_call list \<Rightarrow> 'db \<Rightarrow> 'db" where
  "enqueues d [] db = db"
| "enqueues d (c # cs) db = enqueues d cs (snd (enqueue d (ec_Answers c) (ec_Request c) (ec_Mutation c) db))"

text \<open>
  The answers for one item: \<open>ctx.Err()\<close> at the three places it is read, the payload source,
  \<open>NewRequestWithContext\<close>, the HTTP client and the identifier generator of the audit. The mutex
  serialises \<open>DeliverDue\<close> but not \<open>enqueue\<close>: \<open>ia_Concurrent\<close> are the calls of other callers that
  commit before the (only) transaction of the item and after that of the previous one.
\<close>

record 'db item_answers =
  ia_Concurrent :: "'db enqueue_call list"
  ia_Ctx :: "error option"
  ia_Load :: PayloadSource
  ia_CtxLoaded :: "error option"
  ia_NewRequest :: "string \<Rightarrow> error option"
  ia_Do :: "outRequest \<Rightarrow> httpResponse option \<times> error option"
  ia_CtxDone :: "error option"
  ia_AuditID :: "error + string"

definition endpointFailed :: "httpResponse option \<times> error option \<Rightarrow> bool" where
  "endpointFailed = (\<lambda>(response, requestErr).
     requestErr \<noteq> None \<or> closeResponse response \<noteq> None
     \<or> (case response of None \<Rightarrow> True | Some r \<Rightarrow> rs_StatusCode r < 200 \<or> rs_StatusCode r \<ge> 300))"

text \<open>\<open>deliverOne\<close> also returns the requests it handed to the HTTP client.\<close>

definition deliverOne ::
    "'db Dispatcher \<Rightarrow> 'db item_answers \<Rightarrow> storedItem \<Rightarrow> Time \<Rightarrow> 'db
      \<Rightarrow> outRequest list \<times> (error + DeliveryResult) \<times> 'db" where
  "deliverOne d answers stored now db =
     (let item = si_item stored; loaded = ia_Load answers (dq_PayloadType item) (dq_PayloadRef item) in
      case ia_CtxLoaded answers of
        Some e \<Rightarrow> ([], Inl e, db)
      | None \<Rightarrow>
          (case loaded of
             Inl _ \<Rightarrow> ([], retryOrFail d (ia_AuditID answers) stored now ''payload_unavailable'' db)
           | Inr body \<Rightarrow>
               if body = [] \<or> int (length body) > dp_maxPayloadBytes d \<or> \<not> dl_valid (dp_lib d) body
               then ([], retryOrFail d (ia_AuditID answers) stored now ''payload_unavailable'' db)
               else case Sign (dl_hmac (dp_lib d)) (dp_keyring d) (dq_WebhookID item) now body of
                   Inl e \<Rightarrow> ([], Inl e, db)
                 | Inr headers \<Rightarrow>
                     let endpoint = (case map_of (dp_destinations d) (dq_DestinationRef item) of
                                       None \<Rightarrow> [] | Some e \<Rightarrow> e)
                     in case ia_NewRequest answers endpoint of
                         Some e \<Rightarrow> ([], Inl e, db)
                       | None \<Rightarrow>
                           let request = \<lparr>oq_Method = ''POST'', oq_URL = endpoint,
                                 oq_ContentType = ''application/json'', oq_Headers = headers, oq_Body = body\<rparr>
                           in ([request],
                               (case ia_CtxDone answers of
                                  Some e \<Rightarrow> (Inl e, db)
                                | None \<Rightarrow>
                                    if endpointFailed (ia_Do answers request)
                                    then retryOrFail d (ia_AuditID answers) stored now ''endpoint_failed'' db
                                    else markDelivered d stored now db))))"

text \<open>
  The loop over the pending items. It returns the error that ended it, the results and the
  requests sent so far, each with the key of its item.
\<close>

record outcome =
  oc_Error :: "error option"
  oc_Results :: "DeliveryResult list"
  oc_Sent :: "(string \<times> outRequest) list"

fun deliverItems ::
    "'db Dispatcher \<Rightarrow> (string \<Rightarrow> 'db item_answers) \<Rightarrow> Time \<Rightarrow> storedItem list \<Rightarrow> DeliveryResult list
      \<Rightarrow> (string \<times> outRequest) list \<Rightarrow> 'db \<Rightarrow> outcome \<times> 'db" where
  "deliverItems d answers now [] results sent db =
     (\<lparr>oc_Error = None, oc_Results = results, oc_Sent = sent\<rparr>, db)"
| "deliverItems d answers now (stored # items) results sent db =
     (let a = answers (si_key stored); db = enqueues d (ia_Concurrent a) db in
      case ia_Ctx a of
        Some e \<Rightarrow> (\<lparr>oc_Error = Some e, oc_Results = results, oc_Sent = sent\<rparr>, db)
      | None \<Rightarrow>
          if \<not> now < dq_ExpiresAt (si_item stored) then
            (case expireItem d (ia_AuditID a) stored now ''expired'' db of
               (Inl e, db') \<Rightarrow> (\<lparr>oc_Error = Some e, oc_Results = results, oc_Sent = sent\<rparr>, db')
             | (Inr result, db') \<Rightarrow> deliverItems d answers now items (results @ [result]) sent db')
          else if now < dq_NextAttemptAt (si_item stored) then
            deliverItems d answers now items results sent db
          else
            (case deliverOne d a stored now db of
               (requests, Inl e, db') \<Rightarrow>
                 (\<lparr>oc_Error = Some e, oc_Results = results,
                   oc_Sent = sent @ map (Pair (si_key stored)) requests\<rparr>, db')
             | (requests, Inr result, db') \<Rightarrow>
                 deliverItems d answers now items (results @ [result])
                   (sent @ map (Pair (si_key stored)) requests) db'))"

record 'db due_answers =
  du_Now :: Time
  du_Item :: "string \<Rightarrow> 'db item_answers"

definition DeliverDue :: "'db Dispatcher \<Rightarrow> 'db due_answers \<Rightarrow> 'db \<Rightarrow> outcome \<times> 'db" where
  "DeliverDue d answers db =
     (case dispatcherNow (du_Now answers) of
        Inl e \<Rightarrow> (\<lparr>oc_Error = Some e, oc_Results = [], oc_Sent = []\<rparr>, db)
      | Inr now \<Rightarrow>
          (case pendingItems d db of
             Inl e \<Rightarrow> (\<lparr>oc_Error = Some e, oc_Results = [], oc_Sent = []\<rparr>, db)
           | Inr items \<Rightarrow> deliverItems d (du_Item answers) now items [] [] db))"

text \<open>A history of the dispatcher: calls of \<open>enqueue\<close> and of \<open>DeliverDue\<close>, in order.\<close>

datatype 'db dispatch = Queue "'db enqueue_call" | Due "'db due_answers"

fun dispatch_run :: "'db Dispatcher \<Rightarrow> 'db dispatch list \<Rightarrow> 'db \<Rightarrow> outcome list \<times> 'db" where
  "dispatch_run d [] db = ([], db)"
| "dispatch_run d (Queue c # ops) db = dispatch_run d ops (enqueues d [c] db)"
| "dispatch_run d (Due a # ops) db =
     (let (outcome, db') = DeliverDue d a db; (outcomes, db'') = dispatch_run d ops db'
      in (outcome # outcomes, db''))"

end
