(* ===== verification/Delivery.thy ===== *)
theory Delivery
  imports Delivery_Queue
begin

text \<open>
  What the webhook dispatcher guarantees. \<open>queue_step\<close> specifies how the queue may change; the locale
  \<open>dispatching\<close> shows that every history of calls, with concurrent callers of \<open>enqueue\<close>, is a run of
  such steps, and the properties bound the queue, the delays and the number of requests.
\<close>

section \<open>The retry delay\<close>

lemma backoffLoop_closed:
  assumes "0 < b" and "b \<le> m" and "m \<le> maxInt64" and "r \<le> a"
  shows "backoffLoop m a r b = min (b * 2 ^ nat (a - r)) m"
  using assms
proof (induction m a r b rule: backoffLoop.induct)
  case (1 m a r b)
  show ?case
  proof (cases "r < a \<and> b < m")
    case False
    have "b \<le> b * 2 ^ nat (a - r)" using "1.prems"(1) by simp
    with False "1.prems" show ?thesis by (subst backoffLoop.simps) auto
  next
    case True
    then have e: "2 ^ nat (a - r) = 2 * (2 :: int) ^ nat (a - (r + 1))"
      by (simp flip: power_Suc add: Suc_nat_eq_nat_zadd1)
    have one: "(1 :: int) \<le> 2 ^ nat (a - (r + 1))" by simp
    show ?thesis
    proof (cases "b > m div 2")
      case large: True
      then have "m \<le> b * 2" by linarith
      also have "\<dots> \<le> b * 2 * 2 ^ nat (a - (r + 1))" using one "1.prems"(1) by simp
      finally show ?thesis using True large by (subst backoffLoop.simps) (simp add: e)
    next
      case small: False
      then have fits: "b * 2 \<le> m" by linarith
      have wrap: "wrap64 (b * 2) = b * 2"
        using fits "1.prems" by (intro wrap64_id) (simp_all add: minInt64_def)
      show ?thesis
        using True small "1.IH" [OF True small] "1.prems" fits
        by (subst backoffLoop.simps) (simp add: wrap e mult.assoc)
    qed
  qed
qed

text \<open>The bounds \<open>New\<close> checks; a \<open>Duration\<close> has 64 bits.\<close>

definition dispatcher_ok :: "'db Dispatcher \<Rightarrow> bool" where
  "dispatcher_ok d \<longleftrightarrow>
     1 \<le> dp_maxQueueItems d \<and> dp_maxQueueItems d \<le> maxQueueItems
     \<and> 1 \<le> dp_maxAttempts d \<and> dp_maxAttempts d \<le> maxAttempts
     \<and> Millisecond \<le> dp_initialBackoff d \<and> dp_initialBackoff d \<le> dp_maxBackoff d
     \<and> dp_maxBackoff d \<le> maxInt64"

lemma newDispatcher_ok:
  assumes "newDispatcher options = Inr d" and "op_MaxBackoff options \<le> maxInt64"
  shows "dispatcher_ok d"
  using assms by (auto simp: newDispatcher_def dispatcher_ok_def result_simps split: if_splits)

lemma backoff_closed:
  assumes "dispatcher_ok d" and "1 \<le> attempt"
  shows "backoff d attempt = min (dp_initialBackoff d * 2 ^ nat (attempt - 1)) (dp_maxBackoff d)"
  using assms by (simp add: backoff_def dispatcher_ok_def Millisecond_def backoffLoop_closed)

section \<open>The queue as a map\<close>

type_synonym queue = "string \<Rightarrow> DeliveryQueueItem option"

definition queueOf :: "'db Dispatcher \<Rightarrow> 'db \<Rightarrow> queue" where
  "queueOf d db key =
     (case holds (dp_eng d) db BucketDeliveryQueue key of
        None \<Rightarrow> None
      | Some document \<Rightarrow>
          (case decodeItem (dp_lib d) document of Inl _ \<Rightarrow> None | Inr item \<Rightarrow> Some item))"

definition pendingKeys :: "queue \<Rightarrow> string set" where
  "pendingKeys q = {key. \<exists>item. q key = Some item \<and> dq_State item = DeliveryPending}"

text \<open>The bounds \<open>enqueue\<close> enforces on the fields.\<close>

definition itemSmall :: "DeliveryQueueItem \<Rightarrow> bool" where
  "itemSmall item \<longleftrightarrow>
     length (dq_DeliveryID item) \<le> maxPayloadRefLength \<and> length (dq_PayloadRef item) \<le> maxPayloadRefLength
     \<and> length (dq_WebhookID item) \<le> maximumMessageID
     \<and> length (dq_DestinationRef item) \<le> maxDestinationRefLength \<and> dq_AttemptCount item \<le> maxInt64"

text \<open>
  The specification: how an item may develop (with at most \<open>limit\<close> attempts), and how the queue
  may change (with at most \<open>capacity\<close> pending items).
\<close>

inductive item_step :: "int \<Rightarrow> DeliveryQueueItem \<Rightarrow> DeliveryQueueItem \<Rightarrow> bool" for limit where
  retry: "dq_State item = DeliveryPending \<Longrightarrow> dq_AttemptCount item + 1 < limit \<Longrightarrow> nextAt < dq_ExpiresAt item
    \<Longrightarrow> item_step limit item (item\<lparr>dq_AttemptCount := dq_AttemptCount item + 1, dq_NextAttemptAt := nextAt\<rparr>)"
| deliver: "dq_State item = DeliveryPending
    \<Longrightarrow> item_step limit item (item\<lparr>dq_AttemptCount := dq_AttemptCount item + 1, dq_State := DeliveryDelivered\<rparr>)"
| stop: "dq_State item = DeliveryPending \<Longrightarrow> state \<in> {DeliveryFailed, DeliveryExpired}
    \<Longrightarrow> item_step limit item (item\<lparr>dq_State := state\<rparr>)"

inductive queue_step :: "(string \<Rightarrow> string) \<Rightarrow> int \<Rightarrow> int \<Rightarrow> queue \<Rightarrow> queue \<Rightarrow> bool"
  for keyOf capacity limit where
  accept: "q (keyOf (dq_DeliveryID item)) = None \<Longrightarrow> int (card (pendingKeys q)) < capacity
    \<Longrightarrow> finite (pendingKeys q)
    \<Longrightarrow> (\<And>key other. q key = Some other \<Longrightarrow> dq_WebhookID other \<noteq> dq_WebhookID item)
    \<Longrightarrow> dq_State item = DeliveryPending \<Longrightarrow> dq_AttemptCount item = 0 \<Longrightarrow> itemSmall item
    \<Longrightarrow> queue_step keyOf capacity limit q (q(keyOf (dq_DeliveryID item) \<mapsto> item))"
| advance: "q key = Some item \<Longrightarrow> item_step limit item item'
    \<Longrightarrow> queue_step keyOf capacity limit q (q(key \<mapsto> item'))"

inductive_cases item_stepE: "item_step limit item item'"
inductive_cases queue_stepE: "queue_step keyOf capacity limit q q'"

text \<open>The fields that identify a delivery.\<close>

definition identity :: "DeliveryQueueItem \<Rightarrow> string \<times> DeliveryPayloadType \<times> string \<times> string \<times> string \<times> Time" where
  "identity item =
     (dq_DeliveryID item, dq_PayloadType item, dq_PayloadRef item, dq_WebhookID item,
      dq_DestinationRef item, dq_ExpiresAt item)"

lemma item_step_facts:
  assumes "item_step limit item item'"
  shows "identity item' = identity item" and "dq_State item = DeliveryPending"
    and "dq_AttemptCount item \<le> dq_AttemptCount item'"
    and "dq_AttemptCount item' \<le> dq_AttemptCount item + 1"
    and "dq_State item' = DeliveryPending \<Longrightarrow> dq_AttemptCount item' = dq_AttemptCount item + 1
      \<and> dq_AttemptCount item' < limit"
  using assms by (auto elim!: item_stepE simp: identity_def)

text \<open>The requests an item may still cause.\<close>

definition budget :: "int \<Rightarrow> queue \<Rightarrow> string \<Rightarrow> nat" where
  "budget limit q key =
     (case q key of
        None \<Rightarrow> nat limit
      | Some item \<Rightarrow> if dq_State item = DeliveryPending then nat (limit - dq_AttemptCount item) else 0)"

lemma budget_item_step:
  assumes "item_step limit item item'" and "q key = Some item" and "dq_AttemptCount item < limit"
  shows "budget limit (q(key \<mapsto> item')) key < budget limit q key"
  using item_step_facts(2,5) [OF assms(1)] assms(2,3) by (auto simp: budget_def)

section \<open>The invariant of the queue\<close>

definition queue_inv :: "'db Dispatcher \<Rightarrow> queue \<Rightarrow> bool" where
  "queue_inv d q \<longleftrightarrow>
     (\<forall>key item. q key = Some item \<longrightarrow>
        key = itemKey (dp_lib d) (dq_DeliveryID item) \<and> itemSmall item
        \<and> 0 \<le> dq_AttemptCount item \<and> dq_AttemptCount item \<le> dp_maxAttempts d
        \<and> (dq_State item = DeliveryPending \<longrightarrow> dq_AttemptCount item < dp_maxAttempts d))
     \<and> (\<forall>key other item item'. q key = Some item \<and> q other = Some item'
          \<and> dq_WebhookID item = dq_WebhookID item' \<longrightarrow> key = other)
     \<and> finite (pendingKeys q) \<and> int (card (pendingKeys q)) \<le> dp_maxQueueItems d"

abbreviation dispatcher_step :: "'db Dispatcher \<Rightarrow> queue \<Rightarrow> queue \<Rightarrow> bool" where
  "dispatcher_step d \<equiv> queue_step (itemKey (dp_lib d)) (dp_maxQueueItems d) (dp_maxAttempts d)"

lemma queue_inv_empty: "dispatcher_ok d \<Longrightarrow> queue_inv d (\<lambda>_. None)"
  by (simp add: queue_inv_def dispatcher_ok_def pendingKeys_def)

lemma pendingKeys_update: "pendingKeys (q(key \<mapsto> item)) \<subseteq> insert key (pendingKeys q)"
  by (auto simp: pendingKeys_def)

lemma queue_inv_item:
  assumes "queue_inv d q" and "q key = Some item"
  shows "key = itemKey (dp_lib d) (dq_DeliveryID item)" and "itemSmall item"
    and "0 \<le> dq_AttemptCount item" and "dq_AttemptCount item \<le> dp_maxAttempts d"
    and "dq_State item = DeliveryPending \<Longrightarrow> dq_AttemptCount item < dp_maxAttempts d"
  using assms unfolding queue_inv_def by blast+

lemma item_step_small:
  assumes "item_step limit item item'" and "itemSmall item" and "dq_AttemptCount item < limit"
    and "limit \<le> maxInt64"
  shows "itemSmall item'"
  using assms by (auto elim!: item_stepE simp: itemSmall_def)

lemma queue_inv_accept:
  assumes "queue_inv d q" and "dispatcher_ok d" and "q (itemKey (dp_lib d) (dq_DeliveryID item)) = None"
    and "int (card (pendingKeys q)) < dp_maxQueueItems d"
    and "\<And>key other. q key = Some other \<Longrightarrow> dq_WebhookID other \<noteq> dq_WebhookID item"
    and "dq_AttemptCount item = 0" and "itemSmall item"
  shows "queue_inv d (q(itemKey (dp_lib d) (dq_DeliveryID item) \<mapsto> item))"
proof -
  let ?key = "itemKey (dp_lib d) (dq_DeliveryID item)"
  have fin: "finite (pendingKeys q)" using assms(1) by (simp add: queue_inv_def)
  have "card (pendingKeys (q(?key \<mapsto> item))) \<le> card (insert ?key (pendingKeys q))"
    by (rule card_mono [OF _ pendingKeys_update]) (simp add: fin)
  also have "\<dots> \<le> Suc (card (pendingKeys q))" by (rule card_insert_le_m1) (simp_all add: fin)
  finally have "int (card (pendingKeys (q(?key \<mapsto> item)))) \<le> dp_maxQueueItems d" using assms(4) by linarith
  moreover have "finite (pendingKeys (q(?key \<mapsto> item)))"
    by (rule finite_subset [OF pendingKeys_update]) (simp add: fin)
  moreover have "0 < dp_maxAttempts d" using assms(2) by (simp add: dispatcher_ok_def)
  ultimately show ?thesis
    using assms(1,5,6,7) unfolding queue_inv_def by (auto simp: fun_upd_def split: if_splits; metis)
qed

lemma queue_inv_advance:
  assumes "queue_inv d q" and "dispatcher_ok d" and "q key = Some item"
    and "item_step (dp_maxAttempts d) item item'"
  shows "queue_inv d (q(key \<mapsto> item'))"
proof -
  note facts = item_step_facts [OF assms(4)]
  note item = queue_inv_item [OF assms(1,3)]
  have small: "itemSmall item'"
    using item_step_small [OF assms(4) item(2) item(5) [OF facts(2)]] assms(2)
    by (simp add: dispatcher_ok_def maxAttempts_def maxInt64_def)
  have same: "dq_DeliveryID item' = dq_DeliveryID item" "dq_WebhookID item' = dq_WebhookID item"
    using facts(1) by (simp_all add: identity_def)
  have sub: "pendingKeys (q(key \<mapsto> item')) \<subseteq> pendingKeys q"
    using pendingKeys_update [of q key item'] assms(3) facts(2) by (auto simp: pendingKeys_def)
  have fin: "finite (pendingKeys q)" "int (card (pendingKeys q)) \<le> dp_maxQueueItems d"
    using assms(1) by (simp_all add: queue_inv_def)
  have "finite (pendingKeys (q(key \<mapsto> item')))" by (rule finite_subset [OF sub fin(1)])
  moreover have "int (card (pendingKeys (q(key \<mapsto> item')))) \<le> dp_maxQueueItems d"
    using card_mono [OF fin(1) sub] fin(2) by linarith
  moreover have "k = itemKey (dp_lib d) (dq_DeliveryID x) \<and> itemSmall x
      \<and> 0 \<le> dq_AttemptCount x \<and> dq_AttemptCount x \<le> dp_maxAttempts d
      \<and> (dq_State x = DeliveryPending \<longrightarrow> dq_AttemptCount x < dp_maxAttempts d)"
    if "(q(key \<mapsto> item')) k = Some x" for k x
  proof (cases "k = key")
    case True
    with that have "x = item'" by simp
    with True item(1) same(1) small facts(3-5) item(3) item(5) [OF facts(2)] show ?thesis by auto
  next
    case False
    with that have "q k = Some x" by simp
    from queue_inv_item [OF assms(1) this] show ?thesis by blast
  qed
  moreover have "\<forall>k j x y. (q(key \<mapsto> item')) k = Some x \<and> (q(key \<mapsto> item')) j = Some y
      \<and> dq_WebhookID x = dq_WebhookID y \<longrightarrow> k = j"
    using assms(1,3) same(2) unfolding queue_inv_def by (auto split: if_splits)
  ultimately show ?thesis unfolding queue_inv_def by blast
qed

lemma queue_step_inv:
  assumes "dispatcher_step d q q'" and "queue_inv d q" and "dispatcher_ok d"
  shows "queue_inv d q'"
  using assms(1)
  by (cases rule: queue_step.cases)
    (auto intro: queue_inv_accept [OF assms(2,3)] queue_inv_advance [OF assms(2,3)])

lemma queue_steps_inv:
  assumes "(dispatcher_step d)\<^sup>*\<^sup>* q q'" and "queue_inv d q" and "dispatcher_ok d"
  shows "queue_inv d q'"
  using assms by (induction rule: rtranclp_induct) (auto intro: queue_step_inv)

text \<open>No step of the queue raises the budget of an item or removes or renames an entry.\<close>

lemma queue_step_budget:
  assumes "dispatcher_step d q q'" and "queue_inv d q"
  shows "budget (dp_maxAttempts d) q' key \<le> budget (dp_maxAttempts d) q key"
  using assms(1)
proof (cases rule: queue_step.cases)
  case (accept item)
  then show ?thesis by (auto simp: budget_def)
next
  case (advance k item item')
  then show ?thesis
    using budget_item_step [of "dp_maxAttempts d" item item' q k] queue_inv_item(5) [OF assms(2)]
      item_step_facts(2)
    by (cases "key = k") (fastforce, simp add: budget_def)
qed

lemma queue_steps_budget:
  assumes "(dispatcher_step d)\<^sup>*\<^sup>* q q'" and "queue_inv d q" and "dispatcher_ok d"
  shows "budget (dp_maxAttempts d) q' key \<le> budget (dp_maxAttempts d) q key"
  using assms
proof (induction rule: rtranclp_induct)
  case base
  then show ?case by simp
next
  case (step y z)
  then show ?case
    using queue_step_budget [OF step(2) queue_steps_inv [OF step(1,4,5)], of key] by auto
qed

text \<open>An entry keeps its identity, its attempts are counted up, and an ended delivery is final.\<close>

definition progresses :: "DeliveryQueueItem \<Rightarrow> DeliveryQueueItem \<Rightarrow> bool" where
  "progresses item item' \<longleftrightarrow>
     identity item' = identity item \<and> dq_AttemptCount item \<le> dq_AttemptCount item'
     \<and> (dq_State item \<noteq> DeliveryPending \<longrightarrow> item' = item)"

lemma queue_steps_progress:
  assumes "(queue_step keyOf capacity limit)\<^sup>*\<^sup>* q q'" and "q key = Some item"
  shows "\<exists>item'. q' key = Some item' \<and> progresses item item'"
  using assms
proof (induction rule: rtranclp_induct)
  case base
  then show ?case by (simp add: progresses_def)
next
  case (step y z)
  then obtain middle where m: "y key = Some middle" "progresses item middle" by blast
  from step(2) show ?case
  proof (cases rule: queue_step.cases)
    case (accept new)
    then show ?thesis using m by auto
  next
    case (advance k old item')
    then show ?thesis
      using m item_step_facts [OF advance(3)] by (cases "k = key") (auto simp: progresses_def)
  qed
qed

section \<open>What the queue relies on\<close>

text \<open>
  The encoder keeps items whose strings are valid text, decoded strings are valid text, and the
  document of an item with the bounds of \<open>enqueue\<close> is below the size limit.
\<close>

definition itemText :: "delivery_lib \<Rightarrow> DeliveryQueueItem \<Rightarrow> bool" where
  "itemText lib item \<longleftrightarrow>
     list_all (jl_text (dl_json lib))
       [dq_DeliveryID item, dq_PayloadRef item, dq_WebhookID item, dq_DestinationRef item]"

definition item_codec :: "delivery_lib \<Rightarrow> bool" where
  "item_codec lib \<longleftrightarrow>
     json_codec (dl_json lib) (dl_item lib) dq_SchemaVersion
       (\<lambda>item. DeliveryQueueItem_Validate item = None \<and> itemText lib item \<and> itemSmall item)
     \<and> (\<forall>document item rest. jt_decode (dl_item lib) document = Inr (item, rest) \<longrightarrow> itemText lib item)
     \<and> (\<forall>item document. DeliveryQueueItem_Validate item = None \<and> itemSmall item
          \<and> jt_marshal (dl_item lib) item = Inr document \<longrightarrow> int (length document) \<le> MaxDocumentBytes)"

text \<open>
  A call of \<open>enqueue\<close> whose strings are valid text and whose mutation adds records of its own:
  it keeps the store well formed and does not write the queue.
\<close>

definition call_ok :: "'db Dispatcher \<Rightarrow> ('db \<Rightarrow> bool) \<Rightarrow> 'db enqueue_call \<Rightarrow> bool" where
  "call_ok d dbinv c \<longleftrightarrow>
     list_all (jl_text (dl_json (dp_lib d))) [eq_PayloadRef (ec_Request c), eq_DestinationRef (ec_Request c)]
     \<and> (\<forall>drawn. Inr drawn \<in> {ea_DeliveryID (ec_Answers c), ea_WebhookID (ec_Answers c)}
          \<longrightarrow> jl_text (dl_json (dp_lib d)) drawn)
     \<and> (\<forall>mutate db db'. ec_Mutation c = Some mutate \<and> dbinv db \<and> mutate db = Inr db'
          \<longrightarrow> dbinv db' \<and> same_bucket (dp_eng d) BucketDeliveryQueue db db')"

definition due_ok :: "'db Dispatcher \<Rightarrow> ('db \<Rightarrow> bool) \<Rightarrow> 'db due_answers \<Rightarrow> bool" where
  "due_ok d dbinv a \<longleftrightarrow> (\<forall>key. \<forall>c \<in> set (ia_Concurrent (du_Item a key)). call_ok d dbinv c)"

fun dispatch_ok :: "'db Dispatcher \<Rightarrow> ('db \<Rightarrow> bool) \<Rightarrow> 'db dispatch \<Rightarrow> bool" where
  "dispatch_ok d dbinv (Queue c) = call_ok d dbinv c"
| "dispatch_ok d dbinv (Due a) = due_ok d dbinv a"

lemma decodeItem_Inr:
  "decodeItem lib document = Inr item \<longleftrightarrow>
     Decode (dl_json lib) (dl_item lib) document itemDecodeOptions = Inr item"
  by (simp add: decodeItem_def split: sum.splits)

lemma decodeItem_facts:
  assumes "decodeItem lib document = Inr item" and "item_codec lib"
  shows "DeliveryQueueItem_Validate item = None" and "itemText lib item"
  using assms unfolding decodeItem_Inr Decode_Inr item_codec_def by (auto simp: itemDecodeOptions_def)

lemma decodeItem_marshal:
  assumes "item_codec lib" and "DeliveryQueueItem_Validate item = None" and "itemText lib item"
    and "itemSmall item" and "jt_marshal (dl_item lib) item = Inr document"
  shows "decodeItem lib document = Inr item"
  unfolding decodeItem_Inr
proof (rule Decode_marshal [where validate = DeliveryQueueItem_Validate])
  show "json_codec (dl_json lib) (dl_item lib) dq_SchemaVersion
      (\<lambda>item. DeliveryQueueItem_Validate item = None \<and> itemText lib item \<and> itemSmall item)"
    using assms(1) by (simp add: item_codec_def)
  show "int (length document) \<le> decodeLimit (itemDecodeOptions)"
    using assms(1,2,4,5) by (auto simp: item_codec_def itemDecodeOptions_def decodeLimit_def MaxDocumentBytes_def)
qed (use assms in \<open>simp_all add: itemDecodeOptions_def DeliveryQueueItem_Validate_iff SchemaVersionV1_def\<close>)

text \<open>The three iterations over the queue.\<close>

abbreviation pendingDocument :: "delivery_lib \<Rightarrow> string \<times> string \<Rightarrow> bool" where
  "pendingDocument lib p \<equiv> (\<exists>item. decodeItem lib (snd p) = Inr item \<and> dq_State item = DeliveryPending)"

lemma fold_countStep:
  "foldR (countStep lib) n pairs = Inr m \<Longrightarrow> m = n + int (length (filter (pendingDocument lib) pairs))"
  by (induction pairs arbitrary: n) (fastforce simp: countStep_def result_simps split: if_splits)+

lemma fold_inUseStep:
  "foldR (inUseStep lib webhookID) b pairs = Inr c \<Longrightarrow>
     c \<longleftrightarrow> b \<or> (\<exists>p \<in> set pairs. \<exists>item. decodeItem lib (snd p) = Inr item \<and> dq_WebhookID item = webhookID)"
  by (induction pairs arbitrary: b) (fastforce simp: inUseStep_def result_simps split: if_splits)+

lemma fold_pendingStep:
  assumes "foldR (pendingStep lib) items0 pairs = Inr items"
  shows "map si_key items = map si_key items0 @ map fst (filter (pendingDocument lib) pairs)"
    and "stored \<in> set items \<Longrightarrow> stored \<in> set items0 \<or> (\<exists>document. (si_key stored, document) \<in> set pairs
      \<and> decodeItem lib document = Inr (si_item stored) \<and> dq_State (si_item stored) = DeliveryPending)"
  using assms
  by (induction pairs arbitrary: items0) (fastforce simp: pendingStep_def result_simps split: if_splits)+

text \<open>One item moved: an error leaves the store alone, a result is a step of that item.\<close>

definition itemMoved ::
    "'db Dispatcher \<Rightarrow> ('db \<Rightarrow> bool) \<Rightarrow> storedItem \<Rightarrow> 'db \<Rightarrow> (error + DeliveryResult) \<times> 'db \<Rightarrow> bool" where
  "itemMoved d dbinv stored db = (\<lambda>(r, db').
     case r of
       Inl _ \<Rightarrow> db' = db
     | Inr result \<Rightarrow> dbinv db' \<and> item_step (dp_maxAttempts d) (si_item stored) (dv_Item result)
         \<and> queueOf d db' = (queueOf d db)(si_key stored \<mapsto> dv_Item result))"

text \<open>The stored item is the entry of the queue, still pending.\<close>

definition ready :: "'db Dispatcher \<Rightarrow> ('db \<Rightarrow> bool) \<Rightarrow> storedItem \<Rightarrow> 'db \<Rightarrow> bool" where
  "ready d dbinv stored db \<longleftrightarrow>
     dbinv db \<and> queue_inv d (queueOf d db) \<and> queueOf d db (si_key stored) = Some (si_item stored)
     \<and> dq_State (si_item stored) = DeliveryPending"

text \<open>
  A part of a run: the queue progresses as specified, and of the \<open>sent\<close> requests for an item all but
  \<open>extra\<close> ones are paid from its budget.
\<close>

definition advances ::
    "'db Dispatcher \<Rightarrow> ('db \<Rightarrow> bool) \<Rightarrow> string \<Rightarrow> nat \<Rightarrow> nat \<Rightarrow> 'db \<Rightarrow> 'db \<Rightarrow> bool" where
  "advances d dbinv key sent extra db db' \<longleftrightarrow>
     dbinv db' \<and> queue_inv d (queueOf d db') \<and> (dispatcher_step d)\<^sup>*\<^sup>* (queueOf d db) (queueOf d db')
     \<and> sent + budget (dp_maxAttempts d) (queueOf d db') key
       \<le> budget (dp_maxAttempts d) (queueOf d db) key + extra"

lemma advances_trans:
  assumes "advances d dbinv key m e db db1" and "advances d dbinv key n f db1 db2"
  shows "advances d dbinv key (m + n) (e + f) db db2"
  using assms unfolding advances_def by (auto intro: rtranclp_trans)

text \<open>The requests sent for one item.\<close>

definition sentFor :: "string \<Rightarrow> (string \<times> outRequest) list \<Rightarrow> nat" where
  "sentFor key sent = length (filter (\<lambda>p. fst p = key) sent)"

lemma sentFor_append [simp]: "sentFor key (xs @ ys) = sentFor key xs + sentFor key ys"
  by (simp add: sentFor_def)

lemma sentFor_Nil [simp]: "sentFor key [] = 0"
  by (simp add: sentFor_def)

lemma sentFor_item [simp]: "sentFor key (map (Pair k) requests) = (if k = key then length requests else 0)"
  by (simp add: sentFor_def filter_map comp_def)

lemma newItem_bounds:
  assumes "validateEnqueueRequest request destinations = None" and "validToken deliveryID maxPayloadRefLength"
    and "Sign hmac k webhookID now [] = Inr headers"
  shows "itemSmall (newItem request deliveryID webhookID now)"
  using assms
  by (auto simp: itemSmall_def newItem_def validateEnqueueRequest_def validToken_def Sign_def validMessageID_def
      maxInt64_def split: if_splits)

text \<open>The dispatcher on a store that behaves as bbolt does.\<close>

locale dispatching = bbolt "dp_eng d" dbinv
  for d :: "'db Dispatcher" and dbinv :: "'db \<Rightarrow> bool" +
  assumes codec: "item_codec (dp_lib d)" and limits: "dispatcher_ok d"
begin

lemma queueOf_Some:
  "queueOf d db key = Some item \<longleftrightarrow>
     (\<exists>document. holds (dp_eng d) db BucketDeliveryQueue key = Some document
        \<and> decodeItem (dp_lib d) document = Inr item)"
  by (auto simp: queueOf_def split: option.splits sum.splits)

lemma queueOf_text:
  assumes "queueOf d db key = Some item"
  shows "DeliveryQueueItem_Validate item = None" and "itemText (dp_lib d) item"
  using assms decodeItem_facts [OF _ codec] unfolding queueOf_Some by blast+

lemma same_queue:
  "same_bucket (dp_eng d) BucketDeliveryQueue db db' \<Longrightarrow> queueOf d db' = queueOf d db"
  by (rule ext) (simp add: queueOf_def same_bucket_def)

lemma loadItem_queue: "loadItem d key tx = Inr item \<Longrightarrow> queueOf d tx key = Some item"
  by (auto simp: loadItem_def tx_Get_def result_simps queueOf_Some split: option.splits if_splits)

lemma putItem_queue:
  assumes "putItem d key item tx = Inr tx'" and "dbinv tx" and "itemText (dp_lib d) item" and "itemSmall item"
  shows "dbinv tx'" and "queueOf d tx' = (queueOf d tx)(key \<mapsto> item)"
    and "key = itemKey (dp_lib d) (dq_DeliveryID item)" and "DeliveryQueueItem_Validate item = None"
proof -
  obtain document where doc: "jt_marshal (dl_item (dp_lib d)) item = Inr document"
    and put: "tx_Put (dp_eng d) BucketDeliveryQueue key document tx = Inr tx'"
    and valid: "DeliveryQueueItem_Validate item = None" and key: "itemKey (dp_lib d) (dq_DeliveryID item) = key"
    using assms(1) by (auto simp: putItem_def result_simps split: if_splits)
  show "dbinv tx'" by (rule tx_Put_ok(1) [OF put assms(2)])
  show "queueOf d tx' = (queueOf d tx)(key \<mapsto> item)"
    using decodeItem_marshal [OF codec valid assms(3,4) doc]
    by (rule_tac ext) (simp add: queueOf_def tx_Put_holds [OF put assms(2)] del: bucketName.simps)
  show "key = itemKey (dp_lib d) (dq_DeliveryID item)" "DeliveryQueueItem_Validate item = None"
    using key valid by simp_all
qed

lemma countPending_card:
  assumes "countPending d tx = Inr n" and "dbinv tx"
  shows "finite (pendingKeys (queueOf d tx))" and "n = int (card (pendingKeys (queueOf d tx)))"
proof -
  let ?pairs = "eng_each (dp_eng d) tx (bucketName BucketDeliveryQueue)"
  let ?found = "filter (pendingDocument (dp_lib d)) ?pairs"
  have "key \<in> pendingKeys (queueOf d tx) \<longleftrightarrow> (\<exists>document. (key, document) \<in> set ?found)" for key
    by (simp only: pendingKeys_def queueOf_Some set_filter each_holds [OF assms(2)] mem_Collect_eq snd_conv) blast
  then have keys: "pendingKeys (queueOf d tx) = fst ` set ?found"
    by (simp only: set_eq_iff image_iff Bex_def split_paired_Ex fst_conv) blast
  then show "finite (pendingKeys (queueOf d tx))" by simp
  have "distinct (map fst ?pairs)" by (rule keys_sorted_distinct [OF each_sorted [OF assms(2)]])
  then have "distinct (map fst ?found)" by (rule distinct_map_filter)
  from distinct_card [OF this] have "card (fst ` set ?found) = length ?found"
    by (simp only: set_map length_map)
  moreover have "foldR (countStep (dp_lib d)) 0 ?pairs = Inr n"
    using assms(1) by (simp add: countPending_def tx_ForEach_def result_simps del: bucketName.simps)
  from fold_countStep [OF this] have "n = int (length ?found)" by simp
  ultimately show "n = int (card (pendingKeys (queueOf d tx)))" using keys by simp
qed

lemma webhookIDInUse_False:
  assumes "webhookIDInUse d webhookID tx = Inr False" and "dbinv tx" and "queueOf d tx key = Some item"
  shows "dq_WebhookID item \<noteq> webhookID"
proof -
  obtain document where doc: "(key, document) \<in> set (eng_each (dp_eng d) tx (bucketName BucketDeliveryQueue))"
    "decodeItem (dp_lib d) document = Inr item"
    using assms(3) each_holds [OF assms(2), where b = BucketDeliveryQueue] unfolding queueOf_Some by blast
  moreover have "foldR (inUseStep (dp_lib d) webhookID) False
      (eng_each (dp_eng d) tx (bucketName BucketDeliveryQueue)) = Inr False"
    using assms(1) by (simp add: webhookIDInUse_def tx_ForEach_def result_simps del: bucketName.simps)
  ultimately show ?thesis using fold_inUseStep by fastforce
qed

lemma pendingItems_facts:
  assumes "pendingItems d db = Inr items" and "dbinv db"
  shows "distinct (map si_key items)"
    and "stored \<in> set items \<Longrightarrow> queueOf d db (si_key stored) = Some (si_item stored)
      \<and> dq_State (si_item stored) = DeliveryPending"
proof -
  let ?pairs = "eng_each (dp_eng d) db (bucketName BucketDeliveryQueue)"
  have fold: "foldR (pendingStep (dp_lib d)) [] ?pairs = Inr items"
    using View_Inr [OF assms(1) [unfolded pendingItems_def]]
    by (simp add: tx_ForEach_def result_simps del: bucketName.simps)
  have "distinct (map fst ?pairs)" by (rule keys_sorted_distinct [OF each_sorted [OF assms(2)]])
  then show "distinct (map si_key items)"
    unfolding fold_pendingStep(1) [OF fold] by (simp add: distinct_map_filter)
  show "queueOf d db (si_key stored) = Some (si_item stored) \<and> dq_State (si_item stored) = DeliveryPending"
    if "stored \<in> set items"
    using fold_pendingStep(2) [OF fold that] each_holds [OF assms(2), where b = BucketDeliveryQueue]
    by (auto simp: queueOf_Some simp del: bucketName.simps)
qed

lemma pendingItems_complete:
  assumes "pendingItems d db = Inr items" and "dbinv db" and "queueOf d db key = Some item"
    and "dq_State item = DeliveryPending"
  shows "\<lparr>si_key = key, si_item = item\<rparr> \<in> set items"
proof -
  let ?pairs = "eng_each (dp_eng d) db (bucketName BucketDeliveryQueue)"
  have fold: "foldR (pendingStep (dp_lib d)) [] ?pairs = Inr items"
    using View_Inr [OF assms(1) [unfolded pendingItems_def]]
    by (simp add: tx_ForEach_def result_simps del: bucketName.simps)
  obtain document where doc: "(key, document) \<in> set ?pairs" "decodeItem (dp_lib d) document = Inr item"
    using assms(3) each_holds [OF assms(2), where b = BucketDeliveryQueue] unfolding queueOf_Some by blast
  then have "(key, document) \<in> set (filter (pendingDocument (dp_lib d)) ?pairs)" using assms(4) by simp
  then have "key \<in> set (map si_key items)" unfolding fold_pendingStep(1) [OF fold] by (force simp del: bucketName.simps)
  then obtain stored where stored: "stored \<in> set items" "si_key stored = key" by auto
  with pendingItems_facts(2) [OF assms(1,2) stored(1)] assms(3) show ?thesis by (cases stored) simp
qed

lemma enqueueTx_accepts:
  assumes "enqueueTx d item mutation tx = Inr (item', tx')" and "dbinv tx"
    and "\<And>mutate db db'. mutation = Some mutate \<Longrightarrow> dbinv db \<Longrightarrow> mutate db = Inr db'
      \<Longrightarrow> dbinv db' \<and> same_bucket (dp_eng d) BucketDeliveryQueue db db'"
    and "itemText (dp_lib d) item" and "itemSmall item"
    and "dq_State item = DeliveryPending" and "dq_AttemptCount item = 0"
  shows "dbinv tx'" and "item' = item"
    and "queueOf d tx (itemKey (dp_lib d) (dq_DeliveryID item)) = None"
    and "queueOf d tx' = (queueOf d tx)(itemKey (dp_lib d) (dq_DeliveryID item) \<mapsto> item)"
    and "dispatcher_step d (queueOf d tx) (queueOf d tx')"
proof -
  let ?key = "itemKey (dp_lib d) (dq_DeliveryID item)"
  obtain tx1 n where mut: "(case mutation of None \<Rightarrow> Inr tx | Some mutate \<Rightarrow> mutate tx) = Inr tx1"
    and count: "countPending d tx1 = Inr n" "n < dp_maxQueueItems d"
    and free: "tx_Get (dp_eng d) BucketDeliveryQueue ?key tx1 = Inr None"
    and unused: "webhookIDInUse d (dq_WebhookID item) tx1 = Inr False"
    and put: "putItem d ?key item tx1 = Inr tx'" and same: "item' = item"
    using assms(1) by (auto simp: enqueueTx_def result_simps Let_def not_le split: if_splits)
  have tx1: "dbinv tx1" "same_bucket (dp_eng d) BucketDeliveryQueue tx tx1"
    using mut assms(2,3) by (auto split: option.splits)
  have q1: "queueOf d tx1 = queueOf d tx" by (rule same_queue [OF tx1(2)])
  show "dbinv tx'" by (rule putItem_queue(1) [OF put tx1(1) assms(4,5)])
  show "item' = item" by (rule same)
  show none: "queueOf d tx ?key = None"
    using free unfolding q1 [symmetric] by (auto simp: tx_Get_def result_simps queueOf_def split: if_splits)
  show q': "queueOf d tx' = (queueOf d tx)(?key \<mapsto> item)"
    using putItem_queue(2) [OF put tx1(1) assms(4,5)] q1 by simp
  show "dispatcher_step d (queueOf d tx) (queueOf d tx')"
    unfolding q' using countPending_card [OF count(1) tx1(1)] count(2) none assms(5-7)
      webhookIDInUse_False [OF unused tx1(1)] unfolding q1
    by (intro queue_step.accept) auto
qed

lemma enqueue_accepts:
  assumes "enqueue d (ec_Answers c) (ec_Request c) (ec_Mutation c) db = (Inr item, db')"
    and "call_ok d dbinv c" and "dbinv db"
  obtains tx where "dbinv db'" "queueOf d db (itemKey (dp_lib d) (dq_DeliveryID item)) = None"
    "queueOf d db' = (queueOf d db)(itemKey (dp_lib d) (dq_DeliveryID item) \<mapsto> item)"
    "dispatcher_step d (queueOf d db) (queueOf d db')"
    "dq_PayloadType item = eq_PayloadType (ec_Request c)" "dq_PayloadRef item = eq_PayloadRef (ec_Request c)"
    "(case ec_Mutation c of None \<Rightarrow> Inr db | Some mutate \<Rightarrow> mutate db) = Inr tx"
    "putItem d (itemKey (dp_lib d) (dq_DeliveryID item)) item tx = Inr db'"
proof -
  obtain now deliveryID webhookID headers where
    valid: "validateEnqueueRequest (ec_Request c) (dp_destinations d) = None"
      "validToken deliveryID maxPayloadRefLength"
      "Sign (dl_hmac (dp_lib d)) (dp_keyring d) webhookID now [] = Inr headers"
    and drawn: "ea_DeliveryID (ec_Answers c) = Inr deliveryID" "ea_WebhookID (ec_Answers c) = Inr webhookID"
    and upd: "Update (dp_eng d) (enqueueTx d (newItem (ec_Request c) deliveryID webhookID now) (ec_Mutation c)) db
      = (Inr item, db')"
    using assms(1) by (auto simp: enqueue_def split: if_splits sum.splits)
  have textual: "itemText (dp_lib d) (newItem (ec_Request c) deliveryID webhookID now)"
    using assms(2) drawn by (simp add: call_ok_def itemText_def newItem_def)
  have mutation: "dbinv db2 \<and> same_bucket (dp_eng d) BucketDeliveryQueue db1 db2"
    if "ec_Mutation c = Some mutate" "dbinv db1" "mutate db1 = Inr db2" for mutate db1 db2
    using assms(2) that unfolding call_ok_def by blast
  note accepted = enqueueTx_accepts [OF Update_Inr [OF upd] assms(3) mutation textual newItem_bounds [OF valid]]
  obtain tx where "(case ec_Mutation c of None \<Rightarrow> Inr db | Some mutate \<Rightarrow> mutate db) = Inr tx"
    "putItem d (itemKey (dp_lib d) (dq_DeliveryID item)) item tx = Inr db'"
    using Update_Inr [OF upd] by (auto simp: enqueueTx_def result_simps Let_def split: if_splits)
  then show ?thesis using accepted by (intro that [of tx]) (simp_all add: newItem_def)
qed

lemma enqueue_failed:
  "enqueue d answers request mutation db = (Inl e, db') \<Longrightarrow> db' = db"
  using Update_Inl by (fastforce simp: enqueue_def split: if_splits sum.splits)

lemma enqueue_steps:
  assumes "enqueue d (ec_Answers c) (ec_Request c) (ec_Mutation c) db = (r, db')"
    and "call_ok d dbinv c" and "dbinv db"
  shows "dbinv db' \<and> (dispatcher_step d)\<^sup>=\<^sup>= (queueOf d db) (queueOf d db') \<and> queueOf d db \<subseteq>\<^sub>m queueOf d db'"
proof (cases r)
  case (Inl e)
  with assms(1,3) enqueue_failed show ?thesis by fastforce
next
  case (Inr item)
  with assms(1) have "enqueue d (ec_Answers c) (ec_Request c) (ec_Mutation c) db = (Inr item, db')" by simp
  then show ?thesis by (rule enqueue_accepts [OF _ assms(2,3)]) (simp add: map_le_def dom_def)
qed

lemma enqueues_steps:
  assumes "list_all (call_ok d dbinv) cs" and "dbinv db"
  shows "dbinv (enqueues d cs db)"
    and "(dispatcher_step d)\<^sup>*\<^sup>* (queueOf d db) (queueOf d (enqueues d cs db))"
    and "queueOf d db \<subseteq>\<^sub>m queueOf d (enqueues d cs db)"
proof -
  have "dbinv (enqueues d cs db) \<and> (dispatcher_step d)\<^sup>*\<^sup>* (queueOf d db) (queueOf d (enqueues d cs db))
      \<and> queueOf d db \<subseteq>\<^sub>m queueOf d (enqueues d cs db)"
    using assms
  proof (induction cs arbitrary: db)
    case Nil
    then show ?case by simp
  next
    case (Cons c cs)
    obtain r db' where e: "enqueue d (ec_Answers c) (ec_Request c) (ec_Mutation c) db = (r, db')" by fastforce
    have ok: "call_ok d dbinv c" "list_all (call_ok d dbinv) cs" using Cons.prems(1) by simp_all
    have one: "dbinv db' \<and> (dispatcher_step d)\<^sup>=\<^sup>= (queueOf d db) (queueOf d db') \<and> queueOf d db \<subseteq>\<^sub>m queueOf d db'"
      by (rule enqueue_steps [OF e ok(1) Cons.prems(2)])
    then have "(dispatcher_step d)\<^sup>*\<^sup>* (queueOf d db) (queueOf d db')" by auto
    with Cons.IH [OF ok(2)] one show ?case
      by (simp add: e) (metis map_le_trans rtranclp_trans)
  qed
  then show "dbinv (enqueues d cs db)"
    "(dispatcher_step d)\<^sup>*\<^sup>* (queueOf d db) (queueOf d (enqueues d cs db))"
    "queueOf d db \<subseteq>\<^sub>m queueOf d (enqueues d cs db)" by blast+
qed

lemma put_moves:
  assumes "putItem d (si_key stored) item' tx = Inr tx'" and "dbinv tx" and "queue_inv d (queueOf d tx)"
    and "queueOf d tx (si_key stored) = Some (si_item stored)"
    and "item_step (dp_maxAttempts d) (si_item stored) item'"
  shows "dbinv tx'" and "queueOf d tx' = (queueOf d tx)(si_key stored \<mapsto> item')"
proof -
  note item = queue_inv_item [OF assms(3,4)]
  have "itemSmall item'"
    using item_step_small [OF assms(5) item(2) item(5) [OF item_step_facts(2) [OF assms(5)]]] limits
    by (simp add: dispatcher_ok_def maxAttempts_def maxInt64_def)
  moreover have "itemText (dp_lib d) item'"
    using queueOf_text(2) [OF assms(4)] item_step_facts(1) [OF assms(5)] by (simp add: identity_def itemText_def)
  ultimately show "dbinv tx'" "queueOf d tx' = (queueOf d tx)(si_key stored \<mapsto> item')"
    using putItem_queue(1,2) [OF assms(1,2)] by blast+
qed

text \<open>The three transactions of an item, each on the entry as it was read.\<close>

lemma ready_count:
  assumes "ready d dbinv stored db"
  shows "dq_AttemptCount (si_item stored) < dp_maxAttempts d"
    and "wrap64 (dq_AttemptCount (si_item stored) + 1) = dq_AttemptCount (si_item stored) + 1"
proof -
  have q: "queue_inv d (queueOf d db)" "queueOf d db (si_key stored) = Some (si_item stored)"
    "dq_State (si_item stored) = DeliveryPending"
    using assms by (simp_all add: ready_def)
  show less: "dq_AttemptCount (si_item stored) < dp_maxAttempts d" by (rule queue_inv_item(5) [OF q])
  show "wrap64 (dq_AttemptCount (si_item stored) + 1) = dq_AttemptCount (si_item stored) + 1"
    using less queue_inv_item(3) [OF q(1,2)] limits
    by (intro wrap64_id) (simp_all add: dispatcher_ok_def maxAttempts_def maxInt64_def minInt64_def)
qed

lemma ready_load:
  assumes "ready d dbinv stored db" and "loadItem d (si_key stored) db = Inr current"
  shows "current = si_item stored"
  using loadItem_queue [OF assms(2)] assms(1) by (simp add: ready_def)

lemma ready_put:
  assumes "ready d dbinv stored tx" and "putItem d (si_key stored) item' tx = Inr tx'"
    and "item_step (dp_maxAttempts d) (si_item stored) item'"
  shows "dbinv tx'" and "queueOf d tx' = (queueOf d tx)(si_key stored \<mapsto> item')"
  using put_moves [OF assms(2) _ _ _ assms(3)] assms(1) by (simp_all add: ready_def)

lemma markDelivered_moved:
  assumes "ready d dbinv stored db"
  shows "itemMoved d dbinv stored db (markDelivered d stored now db)"
proof (cases rule: Update_cases [where eng = "dp_eng d" and fn = "deliveredTx d stored now" and db = db])
  case (failed e)
  then show ?thesis by (simp add: itemMoved_def markDelivered_def)
next
  case (committed item' db')
  let ?item = "si_item stored"
  have new: "item' = ?item\<lparr>dq_AttemptCount := dq_AttemptCount ?item + 1, dq_State := DeliveryDelivered\<rparr>"
    and put: "putItem d (si_key stored) item' db = Inr db'"
    using committed(1) assms ready_load [OF assms] ready_count(2) [OF assms]
    by (auto simp: deliveredTx_def result_simps Let_def ready_def split: if_splits)
  have step: "item_step (dp_maxAttempts d) ?item item'"
    unfolding new using assms by (intro item_step.deliver) (simp add: ready_def)
  show ?thesis
    using committed(2) step ready_put [OF assms put step] by (simp add: itemMoved_def markDelivered_def)
qed

lemma markTerminal_moved:
  assumes "ready d dbinv stored db" and "state \<in> {DeliveryFailed, DeliveryExpired}"
  shows "itemMoved d dbinv stored db (markTerminal d drawn stored now state reason db)"
proof (cases "\<exists>auditID. drawn = Inr auditID \<and> validToken auditID maxPayloadRefLength")
  case False
  then show ?thesis by (auto simp: itemMoved_def markTerminal_def split: sum.splits)
next
  case True
  then obtain auditID where drawn: "drawn = Inr auditID" "validToken auditID maxPayloadRefLength" by blast
  show ?thesis
  proof (cases rule: Update_cases
      [where eng = "dp_eng d" and fn = "terminalTx d stored now state reason auditID" and db = db])
    case (failed e)
    then show ?thesis by (simp add: itemMoved_def markTerminal_def drawn)
  next
    case (committed item' db')
    obtain event where new: "item' = (si_item stored)\<lparr>dq_State := state\<rparr>"
      and app: "Append (dp_eng d) (dp_audit d) (failureEvent auditID item' now reason)
        (Some (putItem d (si_key stored) item')) db = Inr (event, db')"
      using committed(1) assms ready_load [OF assms(1)]
      by (auto simp: terminalTx_def auditDeliveryFailure_def result_simps Let_def ready_def split: if_splits)
    have step: "item_step (dp_maxAttempts d) (si_item stored) item'"
      unfolding new using assms by (intro item_step.stop) (simp_all add: ready_def)
    have inv: "dbinv db" using assms(1) by (simp add: ready_def)
    obtain db1 where put: "putItem d (si_key stored) item' db = Inr db1" and "dbinv db'"
      and "same_bucket (dp_eng d) BucketDeliveryQueue db1 db'"
      by (rule Append_writes [OF app inv])
        (auto intro: ready_put(1) [OF assms(1) _ step] simp: dataBuckets_def initialDataBuckets_def)
    then show ?thesis
      using committed(2) step ready_put(2) [OF assms(1) put step] same_queue
      by (simp add: itemMoved_def markTerminal_def drawn)
  qed
qed

lemma retryOrFail_moved:
  assumes "ready d dbinv stored db"
  shows "itemMoved d dbinv stored db (retryOrFail d drawn stored now reason db)"
proof -
  let ?item = "si_item stored"
  let ?next = "dq_AttemptCount ?item + 1"
  let ?at = "now + backoff d ?next"
  note count = ready_count(2) [OF assms]
  consider "dp_maxAttempts d \<le> ?next" | "?next < dp_maxAttempts d" "\<not> ?at < dq_ExpiresAt ?item"
    | "?next < dp_maxAttempts d" "?at < dq_ExpiresAt ?item" by linarith
  then show ?thesis
  proof cases
    case 3
    show ?thesis
    proof (cases rule: Update_cases [where eng = "dp_eng d" and fn = "retryTx d stored ?next ?at" and db = db])
      case (failed e)
      then show ?thesis using 3 by (simp add: itemMoved_def retryOrFail_def count Let_def)
    next
      case (committed item' db')
      have new: "item' = ?item\<lparr>dq_AttemptCount := ?next, dq_NextAttemptAt := ?at\<rparr>"
        and put: "putItem d (si_key stored) item' db = Inr db'"
        using committed(1) ready_load [OF assms] by (auto simp: retryTx_def result_simps Let_def split: if_splits)
      have step: "item_step (dp_maxAttempts d) ?item item'"
        unfolding new using assms 3 by (intro item_step.retry) (simp_all add: ready_def)
      show ?thesis
        using committed(2) step ready_put [OF assms put step] 3
        by (simp add: itemMoved_def retryOrFail_def count Let_def)
    qed
  qed (simp_all add: retryOrFail_def count Let_def failItem_def expireItem_def markTerminal_moved [OF assms])
qed

lemma advances_idle:
  assumes "advances d dbinv key n e db db'" and "queue_inv d (queueOf d db)"
  shows "advances d dbinv key 0 0 db db'"
  using assms queue_steps_budget [OF _ assms(2) limits] by (simp add: advances_def)

lemma enqueues_advance:
  assumes "list_all (call_ok d dbinv) cs" and "dbinv db" and "queue_inv d (queueOf d db)"
  shows "advances d dbinv key 0 0 db (enqueues d cs db)"
  using enqueues_steps(1,2) [OF assms(1,2)] queue_steps_inv [OF _ assms(3) limits]
    queue_steps_budget [OF _ assms(3) limits]
  by (simp add: advances_def)

lemma enqueues_ready:
  assumes "list_all (call_ok d dbinv) cs" and "ready d dbinv stored db"
  shows "ready d dbinv stored (enqueues d cs db)"
proof -
  have r: "dbinv db" "queue_inv d (queueOf d db)" "queueOf d db (si_key stored) = Some (si_item stored)"
    using assms(2) by (simp_all add: ready_def)
  have "queueOf d (enqueues d cs db) (si_key stored) = Some (si_item stored)"
    using enqueues_steps(3) [OF assms(1) r(1)] r(3) by (auto simp: map_le_def dom_def)
  then show ?thesis
    using enqueues_advance [OF assms(1) r(1,2)] assms(2) by (simp add: ready_def advances_def)
qed

lemma moved_advance:
  assumes "itemMoved d dbinv stored db (r, db')" and "ready d dbinv stored db" and "length requests \<le> 1"
  shows "advances d dbinv key (sentFor key (map (Pair (si_key stored)) requests)) (if isl r then 1 else 0) db db'"
proof (cases r)
  case (Inl e)
  with assms show ?thesis by (auto simp: itemMoved_def ready_def advances_def)
next
  case (Inr result)
  then have m: "dbinv db'" "item_step (dp_maxAttempts d) (si_item stored) (dv_Item result)"
    "queueOf d db' = (queueOf d db)(si_key stored \<mapsto> dv_Item result)"
    using assms(1) by (simp_all add: itemMoved_def)
  have r: "queue_inv d (queueOf d db)" "queueOf d db (si_key stored) = Some (si_item stored)"
    using assms(2) by (simp_all add: ready_def)
  have step: "dispatcher_step d (queueOf d db) (queueOf d db')"
    unfolding m(3) by (rule queue_step.advance [where q = "queueOf d db", OF r(2) m(2)])
  have "budget (dp_maxAttempts d) (queueOf d db') (si_key stored) < budget (dp_maxAttempts d) (queueOf d db) (si_key stored)"
    unfolding m(3)
    by (rule budget_item_step [where q = "queueOf d db", OF m(2) r(2) ready_count(1) [OF assms(2)]])
  then have "sentFor key (map (Pair (si_key stored)) requests) + budget (dp_maxAttempts d) (queueOf d db') key
      \<le> budget (dp_maxAttempts d) (queueOf d db) key"
    using queue_step_budget [OF step r(1)] assms(3) by (cases "si_key stored = key") auto
  then show ?thesis
    using m(1) queue_step_inv [OF step r(1) limits] step Inr by (auto simp: advances_def)
qed

lemma moved_ready:
  assumes "itemMoved d dbinv stored db (r, db')" and "ready d dbinv stored db" and "ready d dbinv other db"
    and "si_key other \<noteq> si_key stored"
  shows "ready d dbinv other db'"
  using moved_advance [OF assms(1,2), of "[]"] assms
  by (cases r) (auto simp: ready_def itemMoved_def advances_def)

lemma deliverOne_moved:
  assumes "deliverOne d answers stored now db = (requests, r, db')" and "ready d dbinv stored db"
  shows "itemMoved d dbinv stored db (r, db')" and "length requests \<le> 1"
proof -
  have stay: "itemMoved d dbinv stored db (Inl e, db)" for e by (simp add: itemMoved_def)
  note retry = retryOrFail_moved [OF assms(2), of "ia_AuditID answers" now]
  show "itemMoved d dbinv stored db (r, db')"
    using assms(1) stay retry [of "''payload_unavailable''"] retry [of "''endpoint_failed''"]
      markDelivered_moved [OF assms(2), of now]
    by (auto simp: deliverOne_def Let_def split: option.splits sum.splits if_splits)
  show "length requests \<le> 1"
    using assms(1) by (auto simp: deliverOne_def Let_def split: option.splits sum.splits if_splits)
qed

text \<open>One round of the loop: it ends the call with an error or goes on with the other items.\<close>

lemma deliverItems_Cons:
  assumes "ready d dbinv stored db1" and "db1 = enqueues d (ia_Concurrent (answers (si_key stored))) db"
  obtains (stops) e requests where
    "deliverItems d answers now (stored # items) results sent db
       = (\<lparr>oc_Error = Some e, oc_Results = results, oc_Sent = sent @ map (Pair (si_key stored)) requests\<rparr>, db1)"
    "length requests \<le> 1"
  | (skips) "deliverItems d answers now (stored # items) results sent db = deliverItems d answers now items results sent db1"
    "now < dq_NextAttemptAt (si_item stored)"
  | (moves) result requests db2 where
    "deliverItems d answers now (stored # items) results sent db
       = deliverItems d answers now items (results @ [result]) (sent @ map (Pair (si_key stored)) requests) db2"
    "itemMoved d dbinv stored db1 (Inr result, db2)" "length requests \<le> 1"
proof -
  let ?a = "answers (si_key stored)"
  obtain x db2 where e: "expireItem d (ia_AuditID ?a) stored now ''expired'' db1 = (x, db2)" by fastforce
  have m: "itemMoved d dbinv stored db1 (x, db2)"
    using markTerminal_moved [OF assms(1), of DeliveryExpired] e unfolding expireItem_def by (metis insertCI)
  obtain requests y db3 where o: "deliverOne d ?a stored now db1 = (requests, y, db3)" by (metis prod_cases3)
  note n = deliverOne_moved [OF o assms(1)]
  consider c where "ia_Ctx ?a = Some c" | "ia_Ctx ?a = None" "\<not> now < dq_ExpiresAt (si_item stored)"
    | "ia_Ctx ?a = None" "now < dq_ExpiresAt (si_item stored)" "now < dq_NextAttemptAt (si_item stored)"
    | "ia_Ctx ?a = None" "now < dq_ExpiresAt (si_item stored)" "\<not> now < dq_NextAttemptAt (si_item stored)"
    by (cases "ia_Ctx ?a") blast+
  then show thesis
  proof cases
    case (1 c)
    then show ?thesis by (intro stops [of c "[]"]) (simp_all add: Let_def assms(2))
  next
    case 2
    then show ?thesis using e m stops [of _ "[]"] moves [of _ "[]"]
      by (cases x) (auto simp: Let_def itemMoved_def simp flip: assms(2))
  next
    case 3
    then show ?thesis by (intro skips) (simp_all add: Let_def assms(2))
  next
    case 4
    then show ?thesis using o n stops [of _ requests] moves [of _ requests]
      by (cases y) (auto simp: Let_def itemMoved_def simp flip: assms(2))
  qed
qed

lemma deliverItems_advances:
  assumes "deliverItems d answers now items results sent db = (result, db')"
    and "\<And>key. list_all (call_ok d dbinv) (ia_Concurrent (answers key))"
    and "dbinv db" and "queue_inv d (queueOf d db)" and "distinct (map si_key items)"
    and "\<And>stored. stored \<in> set items \<Longrightarrow> ready d dbinv stored db"
  shows "\<exists>new. oc_Sent result = sent @ new
    \<and> advances d dbinv key (sentFor key new) (if oc_Error result = None then 0 else 1) db db'"
  using assms
proof (induction items arbitrary: results sent db)
  case Nil
  then show ?case by (intro exI [of _ "[]"]) (auto simp: advances_def)
next
  case (Cons stored items)
  define db1 where "db1 = enqueues d (ia_Concurrent (answers (si_key stored))) db"
  note before = enqueues_advance [OF Cons.prems(2-4), of key "si_key stored", folded db1_def]
  have ready: "ready d dbinv other db1" if "other \<in> set (stored # items)" for other
    unfolding db1_def by (rule enqueues_ready [OF Cons.prems(2) Cons.prems(6) [OF that]])
  then have r: "ready d dbinv stored db1" by simp
  have ok: "dbinv db1" "queue_inv d (queueOf d db1)" "distinct (map si_key items)"
    using r Cons.prems(5) by (simp_all add: ready_def)
  from r db1_def show ?case
  proof (cases rule: deliverItems_Cons [where items = items and results = results and sent = sent and now = now])
    case (stops e requests)
    then have "sentFor key (map (Pair (si_key stored)) requests) \<le> 1" by simp
    then have "advances d dbinv key (sentFor key (map (Pair (si_key stored)) requests)) 1 db db1"
      using before by (simp add: advances_def)
    with stops Cons.prems(1) show ?thesis by auto
  next
    case skips
    then have "deliverItems d answers now items results sent db1 = (result, db')" using Cons.prems(1) by simp
    from Cons.IH [OF this Cons.prems(2) ok ready] advances_trans [OF before] show ?thesis by fastforce
  next
    case (moves x requests db2)
    note adv = moved_advance [OF moves(2) r moves(3), of key]
    have "ready d dbinv other db2" if "other \<in> set items" for other
      using moved_ready [OF moves(2) r ready] that Cons.prems(5) by (auto simp: image_iff)
    then obtain new where "oc_Sent result = (sent @ map (Pair (si_key stored)) requests) @ new"
      "advances d dbinv key (sentFor key new) (if oc_Error result = None then 0 else 1) db2 db'"
      using Cons.IH [OF _ Cons.prems(2) _ _ ok(3), of _ _ db2] moves(1) Cons.prems(1) adv
      unfolding advances_def by metis
    with advances_trans [OF before advances_trans [OF adv]] show ?thesis
      by (intro exI [of _ "map (Pair (si_key stored)) requests @ new"]) (simp del: sentFor_item)
  qed
qed

lemma deliverItems_serves:
  assumes "deliverItems d answers now items results sent db = (result, db')"
    and "\<And>key. list_all (call_ok d dbinv) (ia_Concurrent (answers key))"
    and "dbinv db" and "queue_inv d (queueOf d db)" and "distinct (map si_key items)"
    and "\<And>stored. stored \<in> set items \<Longrightarrow> ready d dbinv stored db"
    and "served \<in> set items" and "\<not> now < dq_NextAttemptAt (si_item served)" and "oc_Error result = None"
  shows "advances d dbinv (si_key served) 1 0 db db'"
  using assms(1,3-7)
proof (induction items arbitrary: results sent db)
  case (Cons stored items)
  define db1 where "db1 = enqueues d (ia_Concurrent (answers (si_key stored))) db"
  note before = enqueues_advance [OF assms(2) Cons.prems(2,3), of "si_key served" "si_key stored", folded db1_def]
  have ready: "ready d dbinv other db1" if "other \<in> set (stored # items)" for other
    unfolding db1_def by (rule enqueues_ready [OF assms(2) Cons.prems(5) [OF that]])
  then have r: "ready d dbinv stored db1" by simp
  have ok: "dbinv db1" "queue_inv d (queueOf d db1)" "distinct (map si_key items)"
    using r Cons.prems(4) by (simp_all add: ready_def)
  from r db1_def show ?case
  proof (cases rule: deliverItems_Cons [where items = items and results = results and sent = sent and now = now])
    case (stops e requests)
    then show ?thesis using Cons.prems(1) assms(9) by auto
  next
    case skips
    then have "deliverItems d answers now items results sent db1 = (result, db')" "served \<in> set items"
      using Cons.prems(1,6) assms(8) by auto
    from Cons.IH [OF this(1) ok ready this(2)] advances_trans [OF before] show ?thesis by fastforce
  next
    case (moves x requests db2)
    have rest: "deliverItems d answers now items (results @ [x]) (sent @ map (Pair (si_key stored)) requests) db2
        = (result, db')"
      using moves(1) Cons.prems(1) by simp
    note adv = moved_advance [OF moves(2) r, of "[]"]
    have ok2: "dbinv db2" "queue_inv d (queueOf d db2)" using adv by (simp_all add: advances_def)
    have ready2: "ready d dbinv other db2" if "other \<in> set items" for other
      using moved_ready [OF moves(2) r ready] that Cons.prems(4) by (auto simp: image_iff)
    have after: "advances d dbinv (si_key served) 0 0 db2 db'"
      using deliverItems_advances [OF rest assms(2) ok2 ok(3) ready2, of "si_key served"] assms(9)
      by (auto simp: advances_def)
    show ?thesis
    proof (cases "served = stored")
      case True
      then have "advances d dbinv (si_key served) 1 0 db1 db2"
        using moved_advance [OF moves(2) r, of "[undefined]" "si_key served"]
        by (simp add: sentFor_def)
      from advances_trans [OF before advances_trans [OF this after]] show ?thesis by simp
    next
      case False
      then have "served \<in> set items" using Cons.prems(6) by simp
      from Cons.IH [OF rest ok2 ok(3) ready2 this] show ?thesis
        using advances_trans [OF before advances_trans [OF adv [of "si_key served"]]] by fastforce
    qed
  qed
qed simp

end

text \<open>The requests for an item and the failed calls of a history.\<close>

definition sentIn :: "string \<Rightarrow> outcome list \<Rightarrow> nat" where
  "sentIn key outcomes = sum_list (map (\<lambda>result. sentFor key (oc_Sent result)) outcomes)"

definition failedCalls :: "outcome list \<Rightarrow> nat" where
  "failedCalls outcomes = length (filter (\<lambda>result. oc_Error result \<noteq> None) outcomes)"

text \<open>
  The calls that serve an item: calls of \<open>DeliverDue\<close> that return without error and that find the
  item pending and due.
\<close>

definition isDue :: "Time \<Rightarrow> DeliveryQueueItem option \<Rightarrow> bool" where
  "isDue now entry =
     (case entry of
        None \<Rightarrow> False
      | Some item \<Rightarrow> dq_State item = DeliveryPending \<and> \<not> now < dq_NextAttemptAt item)"

fun servedCalls :: "'db Dispatcher \<Rightarrow> string \<Rightarrow> 'db dispatch list \<Rightarrow> 'db \<Rightarrow> nat" where
  "servedCalls d key [] db = 0"
| "servedCalls d key (Queue c # ops) db = servedCalls d key ops (enqueues d [c] db)"
| "servedCalls d key (Due a # ops) db =
     (let (result, db') = DeliverDue d a db
      in (if oc_Error result = None \<and> isDue (du_Now a) (queueOf d db key) then 1 else 0)
         + servedCalls d key ops db')"

context dispatching
begin

lemma DeliverDue_advances:
  assumes "DeliverDue d a db = (result, db')" and "due_ok d dbinv a" and "dbinv db"
    and "queue_inv d (queueOf d db)"
  shows "advances d dbinv key (sentFor key (oc_Sent result)) (if oc_Error result = None then 0 else 1) db db'"
    and "oc_Error result = None \<Longrightarrow> isDue (du_Now a) (queueOf d db key) \<Longrightarrow> advances d dbinv key 1 0 db db'"
proof -
  have conc: "list_all (call_ok d dbinv) (ia_Concurrent (du_Item a key))" for key
    using assms(2) by (simp add: due_ok_def list_all_iff)
  have ready: "ready d dbinv stored db" if "pendingItems d db = Inr items" "stored \<in> set items" for stored items
    using pendingItems_facts(2) [OF that(1) assms(3) that(2)] assms(3,4) by (simp add: ready_def)
  note distinct = pendingItems_facts(1) [OF _ assms(3)]
  show "advances d dbinv key (sentFor key (oc_Sent result)) (if oc_Error result = None then 0 else 1) db db'"
  proof (cases "\<exists>now items. dispatcherNow (du_Now a) = Inr now \<and> pendingItems d db = Inr items")
    case True
    then obtain now items where run: "pendingItems d db = Inr items"
      "deliverItems d (du_Item a) now items [] [] db = (result, db')"
      using assms(1) by (auto simp: DeliverDue_def)
    from deliverItems_advances [OF run(2) conc assms(3,4) distinct [OF run(1)] ready [OF run(1)], of key]
    show ?thesis by auto
  next
    case False
    then show ?thesis using assms(1,3,4) by (auto simp: DeliverDue_def advances_def split: sum.splits)
  qed
  show "advances d dbinv key 1 0 db db'" if ok: "oc_Error result = None" and due: "isDue (du_Now a) (queueOf d db key)"
  proof -
    obtain items where run: "pendingItems d db = Inr items"
      "deliverItems d (du_Item a) (du_Now a) items [] [] db = (result, db')"
      using assms(1) ok by (auto simp: DeliverDue_def dispatcherNow_def split: sum.splits if_splits)
    from due obtain item where item: "queueOf d db key = Some item" "dq_State item = DeliveryPending"
      "\<not> du_Now a < dq_NextAttemptAt item"
      by (auto simp: isDue_def split: option.splits)
    from deliverItems_serves [OF run(2) conc assms(3,4) distinct [OF run(1)] ready [OF run(1)]
        pendingItems_complete [OF run(1) assms(3) item(1,2)] _ ok] item(3)
    show ?thesis by simp
  qed
qed

lemma run_advances:
  assumes "list_all (dispatch_ok d dbinv) ops" and "dbinv db" and "queue_inv d (queueOf d db)"
    and "dispatch_run d ops db = (outcomes, db')"
  shows "advances d dbinv key (sentIn key outcomes) (failedCalls outcomes) db db'"
    and "advances d dbinv key (servedCalls d key ops db) 0 db db'"
proof -
  have "advances d dbinv key (sentIn key outcomes) (failedCalls outcomes) db db'
      \<and> advances d dbinv key (servedCalls d key ops db) 0 db db'"
    using assms
  proof (induction ops arbitrary: db outcomes)
    case Nil
    then show ?case by (auto simp: advances_def sentIn_def failedCalls_def)
  next
    case (Cons op ops)
    have rest: "list_all (dispatch_ok d dbinv) ops" using Cons.prems(1) by simp
    show ?case
    proof (cases op)
      case (Queue c)
      then have c: "list_all (call_ok d dbinv) [c]" using Cons.prems(1) by simp
      note adv = enqueues_advance [OF c Cons.prems(2,3)]
      have "dispatch_run d ops (enqueues d [c] db) = (outcomes, db')" using Cons.prems(4) Queue by simp
      moreover have "dbinv (enqueues d [c] db)" "queue_inv d (queueOf d (enqueues d [c] db))"
        using adv by (simp_all add: advances_def)
      ultimately have tail: "advances d dbinv key (sentIn key outcomes) (failedCalls outcomes) (enqueues d [c] db) db'"
        "advances d dbinv key (servedCalls d key ops (enqueues d [c] db)) 0 (enqueues d [c] db) db'"
        using Cons.IH [OF rest] by blast+
      from advances_trans [OF adv tail(1)] advances_trans [OF adv tail(2)] Queue show ?thesis by simp
    next
      case (Due a)
      obtain result db1 others where due: "DeliverDue d a db = (result, db1)"
        and run: "dispatch_run d ops db1 = (others, db')" and out: "outcomes = result # others"
        using Cons.prems(4) Due by (auto split: prod.splits)
      have "due_ok d dbinv a" using Cons.prems(1) Due by simp
      note adv = DeliverDue_advances [OF due this Cons.prems(2,3), of key]
      have ok: "dbinv db1" "queue_inv d (queueOf d db1)" using adv(1) by (simp_all add: advances_def)
      note tail = Cons.IH [OF rest ok run]
      have "advances d dbinv key (if oc_Error result = None \<and> isDue (du_Now a) (queueOf d db key) then 1 else 0) 0 db db1"
        using adv(2) advances_idle [OF adv(1) Cons.prems(3)] by simp
      from advances_trans [OF this conjunct2 [OF tail]] advances_trans [OF adv(1) conjunct1 [OF tail]] show ?thesis
        by (auto simp: Due due out sentIn_def failedCalls_def split: if_splits)
    qed
  qed
  then show "advances d dbinv key (sentIn key outcomes) (failedCalls outcomes) db db'"
    "advances d dbinv key (servedCalls d key ops db) 0 db db'" by blast+
qed

end

lemma new_dispatching:
  assumes "newDispatcher options = Inr d" and "op_MaxBackoff options \<le> maxInt64"
    and "bbolt (dp_eng d) dbinv" and "item_codec (dp_lib d)"
  shows "dispatching d dbinv"
  using newDispatcher_ok [OF assms(1,2)] assms(3,4) by (simp add: dispatching_def dispatching_axioms_def)

section \<open>A concrete dispatcher\<close>

definition queueNow :: Time where "queueNow = unixEpoch + Second"

definition queueRequest :: EnqueueRequest where
  "queueRequest =
     \<lparr>eq_PayloadType = DeliveryPayloadLifecycleEvent, eq_PayloadRef = ''event-1'', eq_DestinationRef = ''ops'',
      eq_ExpiresAt = queueNow + Minute\<rparr>"

definition demoQueued :: DeliveryQueueItem where
  "demoQueued = newItem queueRequest ''dl-1'' ''msg-1'' queueNow"

definition demoRetried :: DeliveryQueueItem where
  "demoRetried = demoQueued\<lparr>dq_AttemptCount := 1, dq_NextAttemptAt := queueNow + Second\<rparr>"

definition demoDelivered :: DeliveryQueueItem where
  "demoDelivered = demoRetried\<lparr>dq_AttemptCount := 2, dq_State := DeliveryDelivered\<rparr>"

definition demoDeliveryLib :: delivery_lib where
  "demoDeliveryLib =
     \<lparr>dl_json = tableLib,
      dl_item = tableType [(demoQueued, ''queued''), (demoRetried, ''retried''), (demoDelivered, ''delivered'')],
      dl_valid = (\<lambda>_. True), dl_sha = (\<lambda>s. s),
      dl_url = (\<lambda>s. Inr \<lparr>url_Scheme = ''https'', url_Host = s, url_User = False, url_RawQuery = [],
                        url_Fragment = [], url_String = ''https://'' @ s\<rparr>),
      dl_hmac = demoMac\<rparr>"

definition demoOptions :: "mem_db DispatcherOptions" where
  "demoOptions =
     \<lparr>op_State = mem_engine, op_Audit = demoAuditLib, op_Lib = demoDeliveryLib, op_Keyring = rotated,
      op_Destinations = [(''ops'', ''hooks'')], op_MaxQueueItems = 2, op_MaxAttempts = 2,
      op_InitialBackoff = Second, op_MaxBackoff = 3 * Second, op_RequestTimeout = Second, op_MaxPayloadBytes = 100\<rparr>"

definition demoDispatcher :: "mem_db Dispatcher" where
  "demoDispatcher =
     \<lparr>dp_eng = mem_engine, dp_audit = demoAuditLib, dp_lib = demoDeliveryLib, dp_keyring = rotated,
      dp_destinations = [(''ops'', ''https://hooks'')], dp_maxQueueItems = 2, dp_maxAttempts = 2,
      dp_initialBackoff = Second, dp_maxBackoff = 3 * Second, dp_requestTimeout = Second,
      dp_maxPayloadBytes = 100\<rparr>"

definition demoCall :: "mem_db enqueue_call" where
  "demoCall =
     \<lparr>ec_Answers = \<lparr>ea_Now = queueNow, ea_DeliveryID = Inr ''dl-1'', ea_WebhookID = Inr ''msg-1''\<rparr>,
      ec_Request = queueRequest, ec_Mutation = None\<rparr>"

text \<open>A call at a time, with the status code the endpoint answers and the state of the context after it.\<close>

definition demoDue :: "Time \<Rightarrow> int \<Rightarrow> error option \<Rightarrow> mem_db due_answers" where
  "demoDue now status cancelled =
     \<lparr>du_Now = now,
      du_Item = (\<lambda>_. \<lparr>ia_Concurrent = [], ia_Ctx = None, ia_Load = (\<lambda>_ _. Inr ''{}''), ia_CtxLoaded = None,
        ia_NewRequest = (\<lambda>_. None), ia_Do = (\<lambda>_. (Some \<lparr>rs_StatusCode = status, rs_Close = None\<rparr>, None)),
        ia_CtxDone = cancelled, ia_AuditID = Inr ''audit-1''\<rparr>)\<rparr>"

definition demoQueue :: "string list \<Rightarrow> mem_db" where
  "demoQueue documents = [(''delivery_queue'', map (Pair ''delivery/dl-1'') documents)]"

definition demoOps :: "mem_db dispatch list" where
  "demoOps = [Queue demoCall, Due (demoDue queueNow 500 None), Due (demoDue (queueNow + Second) 200 None)]"

lemma demo_token: "validToken ''ops'' maxDestinationRefLength"
  by code_simp

lemma demo_new: "newDispatcher demoOptions = Inr demoDispatcher"
  by (simp add: newDispatcher_def demoOptions_def demoDispatcher_def demoDeliveryLib_def validatedDestinations_def
      validDestination_def maxQueueItems_def maxAttempts_def maxPayloadBytes_def Second_def Millisecond_def
      Minute_def demo_token result_simps)

lemma demo_backoff: "op_MaxBackoff demoOptions \<le> maxInt64"
  by (simp add: demoOptions_def Second_def Millisecond_def maxInt64_def)

lemma table_item_codec:
  assumes "dl_json lib = tableLib" and "dl_item lib = tableType table" and "distinct (map snd table)"
    and "\<And>v. v \<in> set (map fst table) \<Longrightarrow> dq_SchemaVersion v = ''v1''"
    and "\<And>document. document \<in> set (map snd table) \<Longrightarrow> int (length document) \<le> MaxDocumentBytes"
  shows "item_codec lib"
  unfolding item_codec_def assms(1,2)
proof (intro conjI allI impI)
  show "json_codec tableLib (tableType table) dq_SchemaVersion
      (\<lambda>item. DeliveryQueueItem_Validate item = None \<and> itemText lib item \<and> itemSmall item)"
    by (rule json_codec_mono [OF tableType_codec [OF assms(3,4)]]) simp_all
  show "itemText lib item" for item by (simp add: itemText_def assms(1) tableLib_def)
  show "int (length document) \<le> MaxDocumentBytes"
    if "DeliveryQueueItem_Validate item = None \<and> itemSmall item \<and> jt_marshal (tableType table) item = Inr document"
    for item document
    using that by (intro assms(5) table_document [of table item]) simp
qed

lemma demo_item_codec: "item_codec (dp_lib demoDispatcher)"
  by (rule table_item_codec [where table = "[(demoQueued, ''queued''), (demoRetried, ''retried''), (demoDelivered, ''delivered'')]"])
    (auto simp: demoDispatcher_def demoDeliveryLib_def demoDelivered_def demoRetried_def demoQueued_def newItem_def
      SchemaVersionV1_def MaxDocumentBytes_def)

lemma demo_engine: "bbolt (dp_eng demoDispatcher) mem_inv"
  using mem.bbolt_axioms by (simp add: demoDispatcher_def)

interpretation queued: dispatching demoDispatcher mem_inv
  by (rule new_dispatching [OF demo_new demo_backoff demo_engine demo_item_codec])

lemma demo_queue_inv: "mem_inv (demoQueue [])"
  by (simp add: demoQueue_def mem_inv_def keys_sorted_def)

lemma demo_empty: "queueOf demoDispatcher (demoQueue []) = (\<lambda>_. None)"
  by (rule ext) (simp add: queueOf_def demoDispatcher_def demoQueue_def)

lemma demo_calls: "call_ok demoDispatcher mem_inv demoCall" "due_ok demoDispatcher mem_inv (demoDue now status cancelled)"
  by (simp_all add: call_ok_def due_ok_def demoCall_def demoDue_def demoDispatcher_def demoDeliveryLib_def tableLib_def)

lemma demo_ops: "list_all (dispatch_ok demoDispatcher mem_inv) demoOps"
  by (simp add: demoOps_def demo_calls)

lemma demo_run: "snd (dispatch_run demoDispatcher demoOps (demoQueue [])) = demoQueue [''delivered'']"
  by code_simp

lemma demo_decoded: "queueOf demoDispatcher (demoQueue [''delivered'']) ''delivery/dl-1'' = Some demoDelivered"
  by code_simp

section \<open>Properties\<close>

text \<open>
  C32: the dispatcher refines its specification. Whatever the order of calls, the answers of clock,
  payload source, HTTP client and context, and the calls of other callers that interleave with a
  delivery, the queue only changes by accepting a new item below the capacity or by moving one
  pending item to its next attempt or to an end; and every entry keeps its identity, counts its
  attempts up and never changes again once it is delivered, failed or expired.
\<close>

theorem dispatcher_refines:
  assumes "newDispatcher options = Inr d" and "op_MaxBackoff options \<le> maxInt64"
    and "bbolt (dp_eng d) dbinv" and "item_codec (dp_lib d)"
    and "list_all (dispatch_ok d dbinv) ops" and "dbinv db" and "queue_inv d (queueOf d db)"
    and "dispatch_run d ops db = (outcomes, db')"
  shows "(queue_step (itemKey (dp_lib d)) (dp_maxQueueItems d) (dp_maxAttempts d))\<^sup>*\<^sup>* (queueOf d db) (queueOf d db')
    \<and> (\<forall>key item. queueOf d db key = Some item \<longrightarrow>
         (\<exists>item'. queueOf d db' key = Some item' \<and> progresses item item'))"
proof -
  have "(dispatcher_step d)\<^sup>*\<^sup>* (queueOf d db) (queueOf d db')"
    using dispatching.run_advances(1) [OF new_dispatching [OF assms(1-4)], OF assms(5-8)]
    by (simp add: advances_def)
  with queue_steps_progress [OF this] show ?thesis by blast
qed

theorem dispatcher_refines_witness:
  "(queue_step (itemKey (dp_lib demoDispatcher)) (dp_maxQueueItems demoDispatcher) (dp_maxAttempts demoDispatcher))\<^sup>*\<^sup>*
     (queueOf demoDispatcher (demoQueue [])) (queueOf demoDispatcher (demoQueue [''delivered'']))
   \<and> queueOf demoDispatcher (demoQueue [''delivered'']) ''delivery/dl-1'' = Some demoDelivered"
proof -
  have run: "dispatch_run demoDispatcher demoOps (demoQueue [])
      = (fst (dispatch_run demoDispatcher demoOps (demoQueue [])), demoQueue [''delivered''])"
    using demo_run by (metis prod.collapse)
  have inv: "queue_inv demoDispatcher (queueOf demoDispatcher (demoQueue []))"
    unfolding demo_empty by (rule queue_inv_empty [OF queued.limits])
  show ?thesis
    using dispatcher_refines [OF demo_new demo_backoff demo_engine demo_item_codec demo_ops demo_queue_inv inv run]
      demo_decoded by blast
qed

text \<open>
  C33: the queue stays well formed. From an empty queue, after any history every entry is a valid
  item stored under the key of its own identifier, its fields are bounded, its attempts are
  between zero and the limit and below the limit while it is pending, no two entries share a
  webhook identifier, and at most the configured number of entries is pending.
\<close>

theorem queue_wellformed:
  assumes "newDispatcher options = Inr d" and "op_MaxBackoff options \<le> maxInt64"
    and "bbolt (dp_eng d) dbinv" and "item_codec (dp_lib d)"
    and "list_all (dispatch_ok d dbinv) ops" and "dbinv db" and "queueOf d db = (\<lambda>_. None)"
    and "q = queueOf d (snd (dispatch_run d ops db))"
  shows "(\<forall>key item. q key = Some item \<longrightarrow> key = itemKey (dp_lib d) (dq_DeliveryID item)
        \<and> DeliveryQueueItem_Validate item = None \<and> itemSmall item
        \<and> 0 \<le> dq_AttemptCount item \<and> dq_AttemptCount item \<le> dp_maxAttempts d
        \<and> (dq_State item = DeliveryPending \<longrightarrow> dq_AttemptCount item < dp_maxAttempts d))
    \<and> (\<forall>key other item item'. q key = Some item \<and> q other = Some item'
         \<and> dq_WebhookID item = dq_WebhookID item' \<longrightarrow> key = other)
    \<and> finite (pendingKeys q) \<and> int (card (pendingKeys q)) \<le> dp_maxQueueItems d"
proof -
  have disp: "dispatching d dbinv" by (rule new_dispatching [OF assms(1-4)])
  have "queue_inv d (queueOf d db)"
    unfolding assms(7) by (rule queue_inv_empty [OF dispatching.limits [OF disp]])
  then have inv: "queue_inv d q"
    using dispatching.run_advances(1) [OF disp, OF assms(5,6)] unfolding assms(8)
    by (metis advances_def prod.collapse)
  then show ?thesis
    using dispatching.queueOf_text(1) [OF disp] unfolding queue_inv_def assms(8) by blast
qed

theorem queue_wellformed_witness:
  "''delivery/dl-1'' = itemKey (dp_lib demoDispatcher) (dq_DeliveryID demoDelivered)
   \<and> dq_AttemptCount demoDelivered \<le> dp_maxAttempts demoDispatcher
   \<and> finite (pendingKeys (queueOf demoDispatcher (demoQueue [''delivered''])))"
  using queue_wellformed [OF demo_new demo_backoff demo_engine demo_item_codec demo_ops demo_queue_inv demo_empty refl]
    demo_decoded unfolding demo_run by blast

text \<open>
  C34: deliveries end. For every item and every history, the number of requests sent for the item is at
  most the configured number of attempts plus the number of calls of \<open>DeliverDue\<close> that returned an
  error, and at most the configured number of error-free calls finds the item pending and due:
  after that many the item is delivered, failed or expired.
\<close>

theorem delivery_terminates:
  assumes "newDispatcher options = Inr d" and "op_MaxBackoff options \<le> maxInt64"
    and "bbolt (dp_eng d) dbinv" and "item_codec (dp_lib d)"
    and "list_all (dispatch_ok d dbinv) ops" and "dbinv db" and "queue_inv d (queueOf d db)"
    and "dispatch_run d ops db = (outcomes, db')"
  shows "sentIn key outcomes \<le> nat (dp_maxAttempts d) + failedCalls outcomes
    \<and> servedCalls d key ops db \<le> nat (dp_maxAttempts d)"
proof -
  note run = dispatching.run_advances [OF new_dispatching [OF assms(1-4)], OF assms(5-8), of key]
  have "budget (dp_maxAttempts d) (queueOf d db) key \<le> nat (dp_maxAttempts d)"
    using queue_inv_item(3) [OF assms(7)] by (auto simp: budget_def nat_mono split: option.splits)
  with run show ?thesis by (simp add: advances_def)
qed

theorem delivery_terminates_witness:
  "sentIn ''delivery/dl-1'' (fst (dispatch_run demoDispatcher demoOps (demoQueue []))) = 2
   \<and> sentIn ''delivery/dl-1'' (fst (dispatch_run demoDispatcher demoOps (demoQueue [])))
     \<le> nat (dp_maxAttempts demoDispatcher) + failedCalls (fst (dispatch_run demoDispatcher demoOps (demoQueue [])))
   \<and> servedCalls demoDispatcher ''delivery/dl-1'' demoOps (demoQueue []) \<le> nat (dp_maxAttempts demoDispatcher)"
proof -
  have inv: "queue_inv demoDispatcher (queueOf demoDispatcher (demoQueue []))"
    unfolding demo_empty by (rule queue_inv_empty [OF queued.limits])
  have "sentIn ''delivery/dl-1'' (fst (dispatch_run demoDispatcher demoOps (demoQueue []))) = 2" by code_simp
  with delivery_terminates [OF demo_new demo_backoff demo_engine demo_item_codec demo_ops demo_queue_inv inv
      prod.collapse [symmetric]] show ?thesis by blast
qed

text \<open>
  C35: the retry delay. The delay before the next attempt after \<open>attempt\<close> failures is the initial delay
  doubled for every failure but the first and cut off at the maximum; it is never below the
  initial delay, never above the maximum and never decreases, and no doubling overflows 64 bits.
\<close>

theorem backoff_bounds:
  assumes "newDispatcher options = Inr d" and "op_MaxBackoff options \<le> maxInt64" and "1 \<le> attempt"
  shows "backoff d attempt = min (op_InitialBackoff options * 2 ^ nat (attempt - 1)) (op_MaxBackoff options)
    \<and> op_InitialBackoff options \<le> backoff d attempt \<and> backoff d attempt \<le> op_MaxBackoff options
    \<and> backoff d attempt \<le> backoff d (attempt + 1)"
proof -
  note ok = newDispatcher_ok [OF assms(1,2)]
  have opt: "dp_initialBackoff d = op_InitialBackoff options" "dp_maxBackoff d = op_MaxBackoff options"
    using assms(1) by (auto simp: newDispatcher_def result_simps split: if_splits)
  have pos: "0 < op_InitialBackoff options" "op_InitialBackoff options \<le> op_MaxBackoff options"
    using ok unfolding dispatcher_ok_def opt by (auto simp: Millisecond_def)
  note closed = backoff_closed [OF ok, unfolded opt]
  have "(2 :: int) ^ nat (attempt - 1) \<le> 2 ^ nat (attempt + 1 - 1)" by (intro power_increasing) auto
  then have "backoff d attempt \<le> backoff d (attempt + 1)"
    using closed [of attempt] closed [of "attempt + 1"] assms(3) pos(1) by (auto simp: min_le_iff_disj)
  moreover have "op_InitialBackoff options * 1 \<le> op_InitialBackoff options * 2 ^ nat (attempt - 1)"
    using pos(1) by (intro mult_left_mono) auto
  ultimately show ?thesis using closed [OF assms(3)] pos(2) by simp
qed

theorem backoff_bounds_witness:
  "backoff demoDispatcher 2 = 2 * Second \<and> backoff demoDispatcher 3 = 3 * Second"
  using backoff_bounds [OF demo_new demo_backoff, of 2] backoff_bounds [OF demo_new demo_backoff, of 3]
  by (simp add: demoOptions_def Second_def Millisecond_def)


text \<open>
  C37: identifiers that no audit event accepts. \<open>enqueue\<close> accepts identifiers of 256 arbitrary bytes, an audit field has at most 128 bytes of a small
  alphabet: an item whose identifier is not an audit field can neither fail nor expire, every
  attempt to end it returns an error and changes nothing.
\<close>

theorem unauditable_item_stays:
  assumes "queueOf d db (si_key stored) = Some item" and "dq_State item = DeliveryPending"
    and "\<not> validAuditField (dq_DeliveryID item)" and "state \<noteq> DeliveryPending"
  shows "\<exists>e. markTerminal d drawn stored now state reason db = (Inl e, db)"
proof (cases "\<exists>auditID. drawn = Inr auditID \<and> validToken auditID maxPayloadRefLength")
  case False
  then show ?thesis by (auto simp: markTerminal_def split: sum.splits)
next
  case True
  then obtain auditID where drawn: "drawn = Inr auditID" "validToken auditID maxPayloadRefLength" by blast
  show ?thesis
  proof (cases rule: Update_cases
      [where eng = "dp_eng d" and fn = "terminalTx d stored now state reason auditID" and db = db])
    case (failed e)
    then show ?thesis by (simp add: markTerminal_def drawn)
  next
    case (committed item' db')
    obtain current where load: "loadItem d (si_key stored) db = Inr current"
      using committed(1) by (auto simp: terminalTx_def result_simps)
    then have "current = item"
      using assms(1) by (auto simp: loadItem_def tx_Get_def result_simps queueOf_def split: option.splits if_splits sum.splits)
    then have "\<exists>event. Append (dp_eng d) (dp_audit d) (failureEvent auditID (item\<lparr>dq_State := state\<rparr>) now reason)
        (Some (putItem d (si_key stored) (item\<lparr>dq_State := state\<rparr>))) db = Inr (event, db')"
      using committed(1) load assms(2,4)
      by (auto simp: terminalTx_def auditDeliveryFailure_def result_simps Let_def split: if_splits)
    then have False
      using assms(3)
      by (auto simp: Append_def result_simps validateEventFields_def auditFields_def failureEvent_def
          split: if_splits option.splits)
    then show ?thesis ..
  qed
qed

text \<open>An accepted item of this kind.\<close>

definition spacedItem :: DeliveryQueueItem where
  "spacedItem = newItem queueRequest ''dl 1'' ''msg-1'' queueNow"

definition spacedDispatcher :: "mem_db Dispatcher" where
  "spacedDispatcher = demoDispatcher\<lparr>dp_lib := demoDeliveryLib\<lparr>dl_item := tableType [(spacedItem, ''spaced'')]\<rparr>\<rparr>"

definition spacedStore :: mem_db where
  "spacedStore = [(''delivery_queue'', [(''delivery/dl 1'', ''spaced'')])]"

theorem unauditable_item_stays_witness:
  "Enqueue spacedDispatcher \<lparr>ea_Now = queueNow, ea_DeliveryID = Inr ''dl 1'', ea_WebhookID = Inr ''msg-1''\<rparr>
     queueRequest (demoQueue []) = (Inr spacedItem, spacedStore)
   \<and> (\<exists>e. markTerminal spacedDispatcher (Inr ''audit-1'') \<lparr>si_key = ''delivery/dl 1'', si_item = spacedItem\<rparr>
        (queueNow + Hour) DeliveryExpired ''expired'' spacedStore = (Inl e, spacedStore))"
proof -
  have accepted: "Enqueue spacedDispatcher \<lparr>ea_Now = queueNow, ea_DeliveryID = Inr ''dl 1'', ea_WebhookID = Inr ''msg-1''\<rparr>
      queueRequest (demoQueue []) = (Inr spacedItem, spacedStore)" by code_simp
  have q: "queueOf spacedDispatcher spacedStore (si_key \<lparr>si_key = ''delivery/dl 1'', si_item = spacedItem\<rparr>)
      = Some spacedItem" by code_simp
  have pending: "dq_State spacedItem = DeliveryPending" by code_simp
  have odd: "\<not> validAuditField (dq_DeliveryID spacedItem)"
    by (simp add: validAuditField_def spacedItem_def newItem_def auditChar_def inRange_def)
  have "DeliveryExpired \<noteq> DeliveryPending" by simp
  from unauditable_item_stays [OF q pending odd this] accepted show ?thesis by blast
qed

end
