(* ===== verification/Lifecycle_Events.thy ===== *)
theory Lifecycle_Events
  imports Delivery Journal
begin

text \<open>
  The lifecycle publisher, \<open>src/internal/lifecycle/publisher.go\<close>: events are stored in the
  transaction that queues their delivery, and the payload source reads them back. The clock, the
  context and the identifier generators are answers; transactions of other components between
  two steps of \<open>Publish\<close> are functions on the store. JSON, the hash and the Unicode tables are
  parameters.
\<close>

section \<open>Data\<close>

definition defaultDeliveryTTL :: Duration where "defaultDeliveryTTL = 24 * Hour"
definition maxDeliveryTTL :: Duration where "maxDeliveryTTL = 30 * 24 * Hour"
definition maxEventIDLength :: nat where "maxEventIDLength = 128"
definition maxReasonCodeLength :: nat where "maxReasonCodeLength = 96"
definition maxEvidenceRefLength :: nat where "maxEvidenceRefLength = 128"
definition lifecycleRecordPrefix :: string where "lifecycleRecordPrefix = ''event/''"

record lifecycle_lib =
  ll_json :: json_lib
  ll_event :: "LifecycleEvent json_type"
  ll_sha :: "string \<Rightarrow> string"
  ll_IsLetter :: "nat \<Rightarrow> bool"
  ll_IsDigit :: "nat \<Rightarrow> bool"

text \<open>The store of the publisher is the one of its dispatcher: \<open>New\<close> insists on it.\<close>

record 'db PublisherOptions =
  po_Queue :: "'db Dispatcher"
  po_UsesStore :: bool
  po_Lib :: lifecycle_lib
  po_DestinationRef :: string
  po_DeliveryTTL :: Duration

record 'db Publisher =
  pb_queue :: "'db Dispatcher"
  pb_lib :: lifecycle_lib
  pb_destinationRef :: string
  pb_deliveryTTL :: Duration

record LifecycleInput =
  li_EventID :: string
  li_EventType :: LifecycleEventType
  li_IncidentID :: string
  li_ReasonCode :: string
  li_EvidenceRefs :: "string list"
  li_OccurredAt :: Time

record PublishResult =
  pr_Event :: LifecycleEvent
  pr_QueueItem :: DeliveryQueueItem
  pr_Duplicate :: bool

definition zeroQueueItem :: DeliveryQueueItem where
  "zeroQueueItem =
     \<lparr>dq_SchemaVersion = [], dq_DeliveryID = [], dq_PayloadType = DeliveryPayloadOther [], dq_PayloadRef = [],
      dq_WebhookID = [], dq_DestinationRef = [], dq_AttemptCount = 0, dq_NextAttemptAt = 0, dq_ExpiresAt = 0,
      dq_State = DeliveryOther []\<rparr>"

section \<open>Validation\<close>

definition validEventIdentifier :: "string \<Rightarrow> nat \<Rightarrow> bool" where
  "validEventIdentifier v limit \<longleftrightarrow>
     v \<noteq> [] \<and> length v \<le> limit \<and> TrimSpace v = v \<and> NUL \<notin> set v \<and> \<not> ContainsSensitive v"

text \<open>All accepted characters are ASCII, so the bytes of the code are looked at one by one.\<close>

definition validReasonCode :: "string \<Rightarrow> bool" where
  "validReasonCode v \<longleftrightarrow>
     v \<noteq> [] \<and> length v \<le> maxReasonCodeLength \<and> \<not> ContainsSensitive v
     \<and> list_all (\<lambda>c. inRange CHR ''a'' CHR ''z'' c \<or> inRange CHR ''0'' CHR ''9'' c \<or> c \<in> set ''_-.'') v"

text \<open>
  The code points a \<open>range\<close> loop over a string visits: UTF-8 with the replacement character for a
  byte that starts no valid sequence.
\<close>

definition continuation :: "nat \<Rightarrow> bool" where
  "continuation b \<longleftrightarrow> 0x80 \<le> b \<and> b \<le> 0xBF"

fun multiByte :: "nat \<Rightarrow> nat list \<Rightarrow> (nat \<times> nat) option" where
  "multiByte b0 (b1 # b2 # b3 # _) =
     (if 0xC2 \<le> b0 \<and> b0 \<le> 0xDF \<and> continuation b1 then Some ((b0 - 0xC0) * 64 + (b1 - 0x80), 1)
      else if 0xE0 \<le> b0 \<and> b0 \<le> 0xEF \<and> (if b0 = 0xE0 then 0xA0 else 0x80) \<le> b1
        \<and> b1 \<le> (if b0 = 0xED then 0x9F else 0xBF) \<and> continuation b2
      then Some ((b0 - 0xE0) * 4096 + (b1 - 0x80) * 64 + (b2 - 0x80), 2)
      else if 0xF0 \<le> b0 \<and> b0 \<le> 0xF4 \<and> (if b0 = 0xF0 then 0x90 else 0x80) \<le> b1
        \<and> b1 \<le> (if b0 = 0xF4 then 0x8F else 0xBF) \<and> continuation b2 \<and> continuation b3
      then Some ((b0 - 0xF0) * 262144 + (b1 - 0x80) * 4096 + (b2 - 0x80) * 64 + (b3 - 0x80), 3)
      else None)"
| "multiByte b0 [b1, b2] =
     (if 0xC2 \<le> b0 \<and> b0 \<le> 0xDF \<and> continuation b1 then Some ((b0 - 0xC0) * 64 + (b1 - 0x80), 1)
      else if 0xE0 \<le> b0 \<and> b0 \<le> 0xEF \<and> (if b0 = 0xE0 then 0xA0 else 0x80) \<le> b1
        \<and> b1 \<le> (if b0 = 0xED then 0x9F else 0xBF) \<and> continuation b2
      then Some ((b0 - 0xE0) * 4096 + (b1 - 0x80) * 64 + (b2 - 0x80), 2)
      else None)"
| "multiByte b0 [b1] =
     (if 0xC2 \<le> b0 \<and> b0 \<le> 0xDF \<and> continuation b1 then Some ((b0 - 0xC0) * 64 + (b1 - 0x80), 1) else None)"
| "multiByte b0 [] = None"

fun rangeRunes :: "nat list \<Rightarrow> nat list" where
  "rangeRunes [] = []"
| "rangeRunes (b # bs) =
     (if b < 0x80 then b # rangeRunes bs
      else case multiByte b bs of
          None \<Rightarrow> 0xFFFD # rangeRunes bs
        | Some (r, n) \<Rightarrow> r # rangeRunes (drop n bs))"

definition evidenceRune :: "lifecycle_lib \<Rightarrow> nat \<Rightarrow> bool" where
  "evidenceRune lib r \<longleftrightarrow>
     ll_IsLetter lib r \<or> ll_IsDigit lib r \<or> r \<in> of_char ` set ''-_.:''"

fun validEvidenceFrom :: "lifecycle_lib \<Rightarrow> string list \<Rightarrow> string list \<Rightarrow> bool" where
  "validEvidenceFrom lib seen [] = True"
| "validEvidenceFrom lib seen (r # rs) =
     (if \<not> validEventIdentifier r maxEvidenceRefLength then False
      else if \<not> list_all (evidenceRune lib) (rangeRunes (map of_char r)) then False
      else if r \<in> set seen then False
      else validEvidenceFrom lib (r # seen) rs)"

definition validEvidenceRefs :: "lifecycle_lib \<Rightarrow> string list \<Rightarrow> bool" where
  "validEvidenceRefs lib references =
     (if length references > 64 then False else validEvidenceFrom lib [] references)"

definition sameEvent :: "LifecycleEvent \<Rightarrow> LifecycleEvent \<Rightarrow> bool" where
  "sameEvent left right \<longleftrightarrow>
     le_SchemaVersion left = le_SchemaVersion right \<and> le_EventID left = le_EventID right
     \<and> le_EventType left = le_EventType right \<and> le_IncidentID left = le_IncidentID right
     \<and> le_OccurredAt left = le_OccurredAt right \<and> le_ReasonCode left = le_ReasonCode right
     \<and> le_EvidenceRefs left = le_EvidenceRefs right"

definition newPublisher :: "'db PublisherOptions \<Rightarrow> error + 'db Publisher" where
  "newPublisher options =
     (let ttl = (if po_DeliveryTTL options = 0 then defaultDeliveryTTL else po_DeliveryTTL options) in
      if \<not> po_UsesStore options \<or> \<not> validEventIdentifier (po_DestinationRef options) maxEventIDLength
         \<or> ttl < Second \<or> ttl > maxDeliveryTTL
      then Inl (Lifecycle ErrLifecycleOptions)
      else Inr \<lparr>pb_queue = po_Queue options, pb_lib = po_Lib options,
             pb_destinationRef = po_DestinationRef options, pb_deliveryTTL = ttl\<rparr>)"

definition lifecycleEvent :: "lifecycle_lib \<Rightarrow> LifecycleInput \<Rightarrow> error + LifecycleEvent" where
  "lifecycleEvent lib input =
     (if \<not> validEventIdentifier (li_EventID input) maxEventIDLength
         \<or> \<not> validEventIdentifier (li_IncidentID input) maxEventIDLength
         \<or> \<not> validReasonCode (li_ReasonCode input) \<or> IsZero (li_OccurredAt input)
         \<or> \<not> validEvidenceRefs lib (li_EvidenceRefs input)
      then Inl (Lifecycle ErrLifecycleEvent)
      else
        let event = \<lparr>le_SchemaVersion = SchemaVersionV1, le_EventID = li_EventID input,
              le_EventType = li_EventType input, le_IncidentID = li_IncidentID input,
              le_OccurredAt = li_OccurredAt input, le_ReasonCode = li_ReasonCode input,
              le_EvidenceRefs = li_EvidenceRefs input\<rparr>
        in if LifecycleEvent_Validate event \<noteq> None then Inl (Lifecycle ErrLifecycleEvent) else Inr event)"

section \<open>Stored events\<close>

definition lifecycleKey :: "lifecycle_lib \<Rightarrow> string \<Rightarrow> string" where
  "lifecycleKey lib eventID = lifecycleRecordPrefix @ ll_sha lib eventID"

definition lifecycleDecodeOptions :: "LifecycleEvent DecodeOptions" where
  "lifecycleDecodeOptions =
     \<lparr>do_MaxBytes = MaxDocumentBytes, do_SchemaVersion = SchemaVersionV1,
      do_Validate = Some LifecycleEvent_Validate\<rparr>"

definition decodeLifecycleEvent :: "lifecycle_lib \<Rightarrow> string \<Rightarrow> error + LifecycleEvent" where
  "decodeLifecycleEvent lib document =
     (case Decode (ll_json lib) (ll_event lib) document lifecycleDecodeOptions of
        Inl _ \<Rightarrow> Inl (Lifecycle ErrCorruptPayload)
      | Inr event \<Rightarrow>
          if \<not> validEventIdentifier (le_EventID event) maxEventIDLength
             \<or> \<not> validEventIdentifier (le_IncidentID event) maxEventIDLength
             \<or> \<not> validReasonCode (le_ReasonCode event) \<or> \<not> validEvidenceRefs lib (le_EvidenceRefs event)
          then Inl (Lifecycle ErrCorruptPayload)
          else Inr event)"

definition loadEvent :: "'db Publisher \<Rightarrow> string \<Rightarrow> 'db \<Rightarrow> error + LifecycleEvent option" where
  "loadEvent p eventID db =
     bindR (View (dp_eng (pb_queue p))
         (tx_Get (dp_eng (pb_queue p)) BucketLifecycleEvents (lifecycleKey (pb_lib p) eventID)) db) (\<lambda>found.
       case found of
         None \<Rightarrow> Inr None
       | Some document \<Rightarrow>
           (case decodeLifecycleEvent (pb_lib p) document of
              Inl _ \<Rightarrow> Inl (Lifecycle ErrCorruptPayload)
            | Inr event \<Rightarrow>
                if le_EventID event \<noteq> eventID then Inl (Lifecycle ErrCorruptPayload) else Inr (Some event)))"

text \<open>\<open>Source.Load\<close>; the context is an answer.\<close>

definition Source_Load :: "'db engine \<Rightarrow> lifecycle_lib \<Rightarrow> error option \<Rightarrow> 'db \<Rightarrow> PayloadSource" where
  "Source_Load eng lib ctx db payloadType payloadRef =
     (if payloadType \<noteq> DeliveryPayloadLifecycleEvent \<or> \<not> validEventIdentifier payloadRef maxEventIDLength
      then Inl (Lifecycle ErrLifecycleEvent)
      else case ctx of
          Some e \<Rightarrow> Inl e
        | None \<Rightarrow>
            bindR (View eng (tx_Get eng BucketLifecycleEvents (lifecycleKey lib payloadRef)) db) (\<lambda>found.
              case found of
                None \<Rightarrow> Inl (Lifecycle ErrPayloadNotFound)
              | Some document \<Rightarrow>
                  (case decodeLifecycleEvent lib document of
                     Inl _ \<Rightarrow> Inl (Lifecycle ErrCorruptPayload)
                   | Inr event \<Rightarrow>
                       if le_EventID event \<noteq> payloadRef then Inl (Lifecycle ErrCorruptPayload)
                       else Inr document)))"

section \<open>Publishing\<close>

definition storeEvent :: "'db Publisher \<Rightarrow> LifecycleEvent \<Rightarrow> string \<Rightarrow> 'db \<Rightarrow> error + 'db" where
  "storeEvent p event document tx =
     (let key = lifecycleKey (pb_lib p) (le_EventID event) in
      bindR (tx_Get (dp_eng (pb_queue p)) BucketLifecycleEvents key tx) (\<lambda>present.
        if present \<noteq> None then Inl (Lifecycle errEventExists)
        else tx_Put (dp_eng (pb_queue p)) BucketLifecycleEvents key document tx))"

text \<open>
  The answers of one call. Its mutex orders the calls of one publisher only: \<open>pa_Between\<close> and
  \<open>pa_After\<close> are what other components commit before its transaction and before it reads again.
\<close>

record 'db publish_answers =
  pa_Ctx :: "error option"
  pa_Enqueue :: enqueue_answers
  pa_Between :: "'db \<Rightarrow> 'db"
  pa_After :: "'db \<Rightarrow> 'db"

definition eventRequest :: "'db Publisher \<Rightarrow> LifecycleEvent \<Rightarrow> EnqueueRequest" where
  "eventRequest p event =
     \<lparr>eq_PayloadType = DeliveryPayloadLifecycleEvent, eq_PayloadRef = le_EventID event,
      eq_DestinationRef = pb_destinationRef p, eq_ExpiresAt = le_OccurredAt event + pb_deliveryTTL p\<rparr>"

definition duplicateResult :: "LifecycleEvent \<Rightarrow> PublishResult" where
  "duplicateResult existing = \<lparr>pr_Event = existing, pr_QueueItem = zeroQueueItem, pr_Duplicate = True\<rparr>"

definition publishNew ::
    "'db Publisher \<Rightarrow> 'db publish_answers \<Rightarrow> LifecycleEvent \<Rightarrow> string \<Rightarrow> 'db \<Rightarrow> (error + PublishResult) \<times> 'db" where
  "publishNew p a event document db =
     (case EnqueueWithMutation (pb_queue p) (pa_Enqueue a) (eventRequest p event)
             (Some (storeEvent p event document)) (pa_Between a db) of
        (Inr item, db1) \<Rightarrow> (Inr \<lparr>pr_Event = event, pr_QueueItem = item, pr_Duplicate = False\<rparr>, db1)
      | (Inl e, db1) \<Rightarrow>
          if e = Lifecycle errEventExists then
            (let db2 = pa_After a db1 in
             case loadEvent p (le_EventID event) db2 of
               Inl e' \<Rightarrow> (Inl e', db2)
             | Inr None \<Rightarrow> (Inl (Lifecycle ErrCorruptPayload), db2)
             | Inr (Some existing) \<Rightarrow>
                 if sameEvent existing event then (Inr (duplicateResult existing), db2)
                 else (Inl (Lifecycle ErrCorruptPayload), db2))
          else (Inl e, db1))"

definition publishEventInput ::
    "'db Publisher \<Rightarrow> 'db publish_answers \<Rightarrow> LifecycleInput \<Rightarrow> 'db \<Rightarrow> (error + PublishResult) \<times> 'db" where
  "publishEventInput p a input db =
     (case pa_Ctx a of
        Some e \<Rightarrow> (Inl e, db)
      | None \<Rightarrow>
          (case lifecycleEvent (pb_lib p) input of
             Inl e \<Rightarrow> (Inl e, db)
           | Inr event \<Rightarrow>
               (case jt_marshal (ll_event (pb_lib p)) event of
                  Inl e \<Rightarrow> (Inl e, db)
                | Inr document \<Rightarrow>
                    (case loadEvent p (le_EventID event) db of
                       Inl e \<Rightarrow> (Inl e, db)
                     | Inr (Some existing) \<Rightarrow>
                         if \<not> sameEvent existing event then (Inl (Lifecycle ErrLifecycleEvent), db)
                         else (Inr (duplicateResult existing), db)
                     | Inr None \<Rightarrow> publishNew p a event document db))))"

fun eventTypeName :: "LifecycleEventType \<Rightarrow> string" where
  "eventTypeName LifecycleIncidentConfirmed = ''incident.confirmed''"
| "eventTypeName LifecycleAnalysisUnavailable = ''analysis.unavailable''"
| "eventTypeName LifecyclePolicyDenied = ''policy.denied''"
| "eventTypeName LifecycleApprovalRequested = ''approval.requested''"
| "eventTypeName LifecycleRecoveryStarted = ''recovery.started''"
| "eventTypeName LifecycleIncidentClosed = ''incident.closed''"
| "eventTypeName LifecycleIncidentFailed = ''incident.failed''"
| "eventTypeName (LifecycleOther s) = s"

definition StableEventID :: "lifecycle_lib \<Rightarrow> LifecycleEventType \<Rightarrow> string \<Rightarrow> string \<Rightarrow> string" where
  "StableEventID lib eventType incidentID idempotencyKey =
     ''lifecycle-'' @ ll_sha lib (eventTypeName eventType @ NUL # incidentID @ NUL # idempotencyKey)"

text \<open>The inputs the coordinator's calls publish; \<open>now\<close> is what the clock returns.\<close>

definition transitionInput ::
    "lifecycle_lib \<Rightarrow> LifecycleEventType \<Rightarrow> string \<Rightarrow> string \<Rightarrow> string \<Rightarrow> Time \<Rightarrow> LifecycleInput" where
  "transitionInput lib eventType incidentID idempotencyKey reasonCode occurredAt =
     \<lparr>li_EventID = StableEventID lib eventType incidentID idempotencyKey, li_EventType = eventType,
      li_IncidentID = incidentID, li_ReasonCode = reasonCode, li_EvidenceRefs = [], li_OccurredAt = occurredAt\<rparr>"

definition errorOf :: "(error + 'a) \<times> 'db \<Rightarrow> error option \<times> 'db" where
  "errorOf = (\<lambda>(r, db). (case r of Inl e \<Rightarrow> Some e | Inr _ \<Rightarrow> None, db))"

definition publishAnalysisUnavailableEvent ::
    "'db Publisher \<Rightarrow> 'db publish_answers \<Rightarrow> Time \<Rightarrow> string \<Rightarrow> string \<Rightarrow> string \<Rightarrow> 'db \<Rightarrow> error option \<times> 'db" where
  "publishAnalysisUnavailableEvent p a now incidentID idempotencyKey reasonCode db =
     errorOf (publishEventInput p a
       (transitionInput (pb_lib p) LifecycleAnalysisUnavailable incidentID idempotencyKey reasonCode now) db)"

definition publishPolicyDeniedEvent ::
    "'db Publisher \<Rightarrow> 'db publish_answers \<Rightarrow> Time \<Rightarrow> string \<Rightarrow> string \<Rightarrow> string \<Rightarrow> 'db \<Rightarrow> error option \<times> 'db" where
  "publishPolicyDeniedEvent p a now incidentID idempotencyKey reasonCode db =
     errorOf (publishEventInput p a
       (transitionInput (pb_lib p) LifecyclePolicyDenied incidentID idempotencyKey reasonCode now) db)"

definition publishApprovalRequestedEvent ::
    "'db Publisher \<Rightarrow> 'db publish_answers \<Rightarrow> RecoveryCommand \<Rightarrow> 'db \<Rightarrow> error option \<times> 'db" where
  "publishApprovalRequestedEvent p a command db =
     errorOf (publishEventInput p a
       (transitionInput (pb_lib p) LifecycleApprovalRequested (rc_IncidentID command) (rc_CommandID command)
         ''approval_required'' (rc_IssuedAt command)) db)"

definition publishRecoveryStartedEvent ::
    "'db Publisher \<Rightarrow> 'db publish_answers \<Rightarrow> Time \<Rightarrow> RecoveryCommand \<Rightarrow> 'db \<Rightarrow> error option \<times> 'db" where
  "publishRecoveryStartedEvent p a now command db =
     errorOf (publishEventInput p a
       (transitionInput (pb_lib p) LifecycleRecoveryStarted (rc_IncidentID command) (rc_CommandID command)
         ''recovery_started'' now) db)"

section \<open>What the publisher relies on\<close>

definition eventText :: "lifecycle_lib \<Rightarrow> LifecycleEvent \<Rightarrow> bool" where
  "eventText lib event \<longleftrightarrow>
     list_all (jl_text (ll_json lib)) (le_EventID event # le_IncidentID event # le_EvidenceRefs event)"

text \<open>The bounds of an event: identifiers, reason code and at most 64 references.\<close>

definition eventBounded :: "lifecycle_lib \<Rightarrow> LifecycleEvent \<Rightarrow> bool" where
  "eventBounded lib event \<longleftrightarrow>
     validEventIdentifier (le_EventID event) maxEventIDLength
     \<and> validEventIdentifier (le_IncidentID event) maxEventIDLength
     \<and> validReasonCode (le_ReasonCode event) \<and> validEvidenceRefs lib (le_EvidenceRefs event)
     \<and> LifecycleEvent_Validate event = None"

definition event_codec :: "lifecycle_lib \<Rightarrow> bool" where
  "event_codec lib \<longleftrightarrow>
     json_codec (ll_json lib) (ll_event lib) le_SchemaVersion (\<lambda>event. eventBounded lib event \<and> eventText lib event)
     \<and> (\<forall>event document. eventBounded lib event \<and> jt_marshal (ll_event lib) event = Inr document
          \<longrightarrow> int (length document) \<le> MaxDocumentBytes)"

lemma lifecycleEvent_Inr:
  assumes "lifecycleEvent lib input = Inr event"
  shows "eventBounded lib event" and "le_EventID event = li_EventID input"
    and "le_OccurredAt event = li_OccurredAt input" and "le_IncidentID event = li_IncidentID input"
    and "le_EvidenceRefs event = li_EvidenceRefs input"
  using assms by (auto simp: lifecycleEvent_def eventBounded_def Let_def split: if_splits)

lemma decodeLifecycleEvent_marshal:
  assumes "event_codec lib" and "eventBounded lib event" and "eventText lib event"
    and "jt_marshal (ll_event lib) event = Inr document"
  shows "decodeLifecycleEvent lib document = Inr event"
proof -
  have "Decode (ll_json lib) (ll_event lib) document lifecycleDecodeOptions = Inr event"
  proof (rule Decode_marshal [where validate = LifecycleEvent_Validate])
    show "json_codec (ll_json lib) (ll_event lib) le_SchemaVersion
        (\<lambda>event. eventBounded lib event \<and> eventText lib event)"
      using assms(1) by (simp add: event_codec_def)
    show "int (length document) \<le> decodeLimit lifecycleDecodeOptions"
      using assms(1,2,4) by (auto simp: event_codec_def lifecycleDecodeOptions_def decodeLimit_def MaxDocumentBytes_def)
    show "le_SchemaVersion event = do_SchemaVersion lifecycleDecodeOptions"
      using assms(2) by (simp add: eventBounded_def LifecycleEvent_Validate_def lifecycleDecodeOptions_def
          result_simps validateVersion_def split: if_splits)
  qed (use assms in \<open>simp_all add: lifecycleDecodeOptions_def eventBounded_def SchemaVersionV1_def\<close>)
  with assms(2) show ?thesis by (simp add: decodeLifecycleEvent_def eventBounded_def)
qed

text \<open>The publisher on a dispatcher and a store with their laws.\<close>

abbreviation eventsOf :: "'db Publisher \<Rightarrow> 'db \<Rightarrow> string \<Rightarrow> string option" where
  "eventsOf p db \<equiv> holds (dp_eng (pb_queue p)) db BucketLifecycleEvents"

definition publishText :: "'db Publisher \<Rightarrow> 'db publish_answers \<Rightarrow> LifecycleInput \<Rightarrow> bool" where
  "publishText p a input \<longleftrightarrow>
     list_all (jl_text (ll_json (pb_lib p))) (li_EventID input # li_IncidentID input # li_EvidenceRefs input)
     \<and> list_all (jl_text (dl_json (dp_lib (pb_queue p)))) [li_EventID input, pb_destinationRef p]
     \<and> (\<forall>drawn. Inr drawn \<in> {ea_DeliveryID (pa_Enqueue a), ea_WebhookID (pa_Enqueue a)}
          \<longrightarrow> jl_text (dl_json (dp_lib (pb_queue p))) drawn)"

lemma lifecycleKey_nonempty: "lifecycleKey lib eventID \<noteq> []"
  by (simp add: lifecycleKey_def lifecycleRecordPrefix_def)

lemma loadEvent_Some:
  assumes "loadEvent p eventID db = Inr (Some event)"
  shows "\<exists>document. eventsOf p db (lifecycleKey (pb_lib p) eventID) = Some document
    \<and> decodeLifecycleEvent (pb_lib p) document = Inr event \<and> le_EventID event = eventID"
proof -
  obtain found where view: "View (dp_eng (pb_queue p)) (tx_Get (dp_eng (pb_queue p)) BucketLifecycleEvents
      (lifecycleKey (pb_lib p) eventID)) db = Inr found"
    and rest: "(case found of None \<Rightarrow> Inr None
       | Some document \<Rightarrow>
           (case decodeLifecycleEvent (pb_lib p) document of
              Inl _ \<Rightarrow> Inl (Lifecycle ErrCorruptPayload)
            | Inr event \<Rightarrow>
                if le_EventID event \<noteq> eventID then Inl (Lifecycle ErrCorruptPayload) else Inr (Some event)))
      = Inr (Some event)"
    using assms unfolding loadEvent_def bindR_eq_Inr by blast
  from rest obtain document where found: "found = Some document" by (cases found) simp_all
  with rest have dec: "decodeLifecycleEvent (pb_lib p) document = Inr event" "le_EventID event = eventID"
    by (cases "decodeLifecycleEvent (pb_lib p) document"; simp split: if_splits)+
  have "eventsOf p db (lifecycleKey (pb_lib p) eventID) = Some document"
    using View_Inr [OF view] found by (auto simp: tx_Get_def result_simps split: if_splits)
  with dec show ?thesis by blast
qed

locale publishing = dispatching "pb_queue p" dbinv
  for p :: "'db Publisher" and dbinv :: "'db \<Rightarrow> bool" +
  assumes events: "event_codec (pb_lib p)"
begin

lemma storeEvent_ok:
  assumes "storeEvent p event document tx = Inr tx'" and "dbinv tx"
  shows "dbinv tx'" and "same_bucket (dp_eng (pb_queue p)) BucketDeliveryQueue tx tx'"
    and "eventsOf p tx (lifecycleKey (pb_lib p) (le_EventID event)) = None"
    and "eventsOf p tx' = (eventsOf p tx)(lifecycleKey (pb_lib p) (le_EventID event) \<mapsto> document)"
proof -
  have put: "tx_Put (dp_eng (pb_queue p)) BucketLifecycleEvents (lifecycleKey (pb_lib p) (le_EventID event)) document tx = Inr tx'"
    and free: "tx_Get (dp_eng (pb_queue p)) BucketLifecycleEvents (lifecycleKey (pb_lib p) (le_EventID event)) tx = Inr None"
    using assms(1) by (auto simp: storeEvent_def result_simps Let_def split: if_splits)
  show "dbinv tx'" by (rule tx_Put_ok(1) [OF put assms(2)])
  show "same_bucket (dp_eng (pb_queue p)) BucketDeliveryQueue tx tx'"
    by (rule tx_Put_other [OF put assms(2)]) (simp_all add: dataBuckets_def initialDataBuckets_def)
  show "eventsOf p tx (lifecycleKey (pb_lib p) (le_EventID event)) = None"
    using free by (auto simp: tx_Get_def result_simps split: if_splits)
  show "eventsOf p tx' = (eventsOf p tx)(lifecycleKey (pb_lib p) (le_EventID event) \<mapsto> document)"
    by (rule tx_Put_holds [OF put assms(2)])
qed

lemma putItem_events:
  assumes "putItem (pb_queue p) key item tx = Inr tx'" and "dbinv tx"
  shows "eventsOf p tx' = eventsOf p tx"
proof -
  obtain document where "tx_Put (dp_eng (pb_queue p)) BucketDeliveryQueue key document tx = Inr tx'"
    using assms(1) by (auto simp: putItem_def result_simps split: if_splits)
  from tx_Put_other [OF this assms(2), of BucketLifecycleEvents] show ?thesis
    by (simp add: same_bucket_def dataBuckets_def initialDataBuckets_def)
qed

text \<open>A new event and its delivery are written together.\<close>

lemma publishNew_stores:
  assumes "publishNew p a event document db = (Inr result, db')" and "\<not> pr_Duplicate result"
    and "dbinv (pa_Between a db)"
    and "list_all (jl_text (dl_json (dp_lib (pb_queue p)))) [le_EventID event, pb_destinationRef p]"
    and "\<forall>drawn. Inr drawn \<in> {ea_DeliveryID (pa_Enqueue a), ea_WebhookID (pa_Enqueue a)}
          \<longrightarrow> jl_text (dl_json (dp_lib (pb_queue p))) drawn"
  shows "dbinv db'" and "pr_Event result = event"
    and "eventsOf p (pa_Between a db) (lifecycleKey (pb_lib p) (le_EventID event)) = None"
    and "eventsOf p db' = (eventsOf p (pa_Between a db))(lifecycleKey (pb_lib p) (le_EventID event) \<mapsto> document)"
    and "queueOf (pb_queue p) db' = (queueOf (pb_queue p) (pa_Between a db))
      (itemKey (dp_lib (pb_queue p)) (dq_DeliveryID (pr_QueueItem result)) \<mapsto> pr_QueueItem result)"
    and "dq_PayloadType (pr_QueueItem result) = DeliveryPayloadLifecycleEvent"
    and "dq_PayloadRef (pr_QueueItem result) = le_EventID event"
proof -
  define c where "c = \<lparr>ec_Answers = pa_Enqueue a, ec_Request = eventRequest p event,
    ec_Mutation = Some (storeEvent p event document)\<rparr>"
  have enq: "enqueue (pb_queue p) (ec_Answers c) (ec_Request c) (ec_Mutation c) (pa_Between a db)
      = (Inr (pr_QueueItem result), db')" and ev: "pr_Event result = event"
    using assms(1,2) unfolding c_def
    by (auto simp: publishNew_def EnqueueWithMutation_def duplicateResult_def Let_def
        split: prod.splits sum.splits option.splits if_splits)
  have ok: "call_ok (pb_queue p) dbinv c"
    using assms(4,5) storeEvent_ok(1,2) by (auto simp: call_ok_def c_def eventRequest_def)
  obtain tx where acc: "dbinv db'" "queueOf (pb_queue p) db' = (queueOf (pb_queue p) (pa_Between a db))
      (itemKey (dp_lib (pb_queue p)) (dq_DeliveryID (pr_QueueItem result)) \<mapsto> pr_QueueItem result)"
    "dq_PayloadType (pr_QueueItem result) = eq_PayloadType (ec_Request c)"
    "dq_PayloadRef (pr_QueueItem result) = eq_PayloadRef (ec_Request c)"
    and mut: "(case ec_Mutation c of None \<Rightarrow> Inr (pa_Between a db) | Some mutate \<Rightarrow> mutate (pa_Between a db)) = Inr tx"
    and put: "putItem (pb_queue p) (itemKey (dp_lib (pb_queue p)) (dq_DeliveryID (pr_QueueItem result)))
      (pr_QueueItem result) tx = Inr db'"
    by (rule enqueue_accepts [OF enq ok assms(3)])
  have "storeEvent p event document (pa_Between a db) = Inr tx" using mut by (simp add: c_def)
  note st = storeEvent_ok [OF this assms(3)]
  show "dbinv db'" "pr_Event result = event" by (fact acc(1), fact ev)
  show "eventsOf p (pa_Between a db) (lifecycleKey (pb_lib p) (le_EventID event)) = None" by (fact st(3))
  show "eventsOf p db' = (eventsOf p (pa_Between a db))(lifecycleKey (pb_lib p) (le_EventID event) \<mapsto> document)"
    using putItem_events [OF put st(1)] st(4) by simp
  show "queueOf (pb_queue p) db' = (queueOf (pb_queue p) (pa_Between a db))
      (itemKey (dp_lib (pb_queue p)) (dq_DeliveryID (pr_QueueItem result)) \<mapsto> pr_QueueItem result)" by (fact acc(2))
  show "dq_PayloadType (pr_QueueItem result) = DeliveryPayloadLifecycleEvent"
    "dq_PayloadRef (pr_QueueItem result) = le_EventID event"
    using acc(3,4) by (simp_all add: c_def eventRequest_def)
qed

text \<open>A held entry is what both readers find.\<close>

lemma held_Get:
  assumes "eventsOf p db (lifecycleKey (pb_lib p) eventID) = Some document" and "dbinv db"
    and "eng_begin (dp_eng (pb_queue p)) db = None"
  shows "View (dp_eng (pb_queue p)) (tx_Get (dp_eng (pb_queue p)) BucketLifecycleEvents
      (lifecycleKey (pb_lib p) eventID)) db = Inr (Some document)"
proof -
  have "eng_bucket (dp_eng (pb_queue p)) db (bucketName BucketLifecycleEvents)"
    using get_no_bucket [OF assms(2)] assms(1) by fastforce
  moreover have "BucketLifecycleEvents \<in> set dataBuckets" by (simp add: dataBuckets_def)
  ultimately have "tx_Get (dp_eng (pb_queue p)) BucketLifecycleEvents (lifecycleKey (pb_lib p) eventID) db = Inr (Some document)"
    using assms(1) lifecycleKey_nonempty by (simp add: tx_Get_def tx_bucket_def)
  then show ?thesis using assms(3) by (simp add: View_def dbView_def normalized_def)
qed

lemma held_load:
  assumes "eventsOf p db (lifecycleKey (pb_lib p) eventID) = Some document" and "dbinv db"
    and "eng_begin (dp_eng (pb_queue p)) db = None"
    and "decodeLifecycleEvent (pb_lib p) document = Inr event" and "le_EventID event = eventID"
  shows "loadEvent p eventID db = Inr (Some event)"
    and "Source_Load (dp_eng (pb_queue p)) (pb_lib p) None db DeliveryPayloadLifecycleEvent eventID = Inr document"
proof -
  show "loadEvent p eventID db = Inr (Some event)"
    using held_Get [OF assms(1-3)] assms(4,5) by (simp add: loadEvent_def)
  have "validEventIdentifier eventID maxEventIDLength"
    using assms(4,5) by (auto simp: decodeLifecycleEvent_def split: sum.splits if_splits)
  then show "Source_Load (dp_eng (pb_queue p)) (pb_lib p) None db DeliveryPayloadLifecycleEvent eventID = Inr document"
    using held_Get [OF assms(1-3)] assms(4,5) by (simp add: Source_Load_def)
qed

lemma publish_failed:
  assumes "publishEventInput p a input db = (Inl e, db')"
  shows "db' \<in> {db, pa_Between a db, pa_After a (pa_Between a db)}"
proof -
  have enq: "db1 = pa_Between a db"
    if "EnqueueWithMutation (pb_queue p) (pa_Enqueue a) request (Some mutation) (pa_Between a db) = (Inl e1, db1)"
    for request mutation e1 db1
    using that enqueue_failed by (fastforce simp: EnqueueWithMutation_def)
  show ?thesis
    using assms
    by (auto simp: publishEventInput_def publishNew_def Let_def dest!: enq
        split: option.splits sum.splits if_splits prod.splits)
qed

lemma publish_cases:
  assumes "publishEventInput p a input db = (Inr result, db')"
  obtains event document where "pa_Ctx a = None" "lifecycleEvent (pb_lib p) input = Inr event"
    "jt_marshal (ll_event (pb_lib p)) event = Inr document"
    "(loadEvent p (le_EventID event) db = Inr (Some (pr_Event result)) \<and> pr_Duplicate result \<and> db' = db
        \<and> sameEvent (pr_Event result) event)
      \<or> publishNew p a event document db = (Inr result, db')"
  using assms
  by (auto simp: publishEventInput_def duplicateResult_def split: option.splits sum.splits if_splits)

lemma publishNew_duplicate:
  assumes "publishNew p a event document db = (Inr result, db')" and "pr_Duplicate result"
  shows "loadEvent p (le_EventID event) db' = Inr (Some (pr_Event result)) \<and> sameEvent (pr_Event result) event"
  using assms
  by (auto simp: publishNew_def duplicateResult_def Let_def split: prod.splits sum.splits option.splits if_splits)

lemma published_held:
  assumes "publishEventInput p a input db = (Inr result, db')" and "dbinv (pa_Between a db)"
    and "publishText p a input"
  obtains event document where "lifecycleEvent (pb_lib p) input = Inr event"
    "eventsOf p db' (lifecycleKey (pb_lib p) (li_EventID input)) = Some document"
    "decodeLifecycleEvent (pb_lib p) document = Inr (pr_Event result)" "sameEvent (pr_Event result) event"
    "\<not> pr_Duplicate result \<Longrightarrow> pr_Event result = event"
proof -
  obtain event document where ev: "lifecycleEvent (pb_lib p) input = Inr event"
    and doc: "jt_marshal (ll_event (pb_lib p)) event = Inr document"
    and run: "(loadEvent p (le_EventID event) db = Inr (Some (pr_Event result)) \<and> pr_Duplicate result \<and> db' = db
        \<and> sameEvent (pr_Event result) event)
      \<or> publishNew p a event document db = (Inr result, db')"
    by (rule publish_cases [OF assms(1)])
  note id = lifecycleEvent_Inr [OF ev]
  show ?thesis
  proof (cases "pr_Duplicate result")
    case True
    have same: "loadEvent p (le_EventID event) db' = Inr (Some (pr_Event result)) \<and> sameEvent (pr_Event result) event"
      using run publishNew_duplicate [OF _ True] by blast
    with loadEvent_Some [OF conjunct1 [OF same]] id(2) that [OF ev] True show ?thesis by auto
  next
    case False
    with run have new: "publishNew p a event document db = (Inr result, db')" by blast
    have texts: "list_all (jl_text (dl_json (dp_lib (pb_queue p)))) [le_EventID event, pb_destinationRef p]"
      "\<forall>drawn. Inr drawn \<in> {ea_DeliveryID (pa_Enqueue a), ea_WebhookID (pa_Enqueue a)}
          \<longrightarrow> jl_text (dl_json (dp_lib (pb_queue p))) drawn" "eventText (pb_lib p) event"
      using assms(3) id by (simp_all add: publishText_def eventText_def)
    note st = publishNew_stores [OF new False assms(2) texts(1,2)]
    show ?thesis
      using st(2,4) id(2) decodeLifecycleEvent_marshal [OF events id(1) texts(3) doc]
      by (intro that [OF ev, of document]) (simp_all add: sameEvent_def)
  qed
qed

end

section \<open>A concrete publisher\<close>

definition startedEvent :: LifecycleEvent where
  "startedEvent =
     \<lparr>le_SchemaVersion = SchemaVersionV1, le_EventID = ''lifecycle-h'', le_EventType = LifecycleRecoveryStarted,
      le_IncidentID = rc_IncidentID demoCommand, le_OccurredAt = queueNow, le_ReasonCode = ''recovery_started'',
      le_EvidenceRefs = []\<rparr>"

definition laterEvent :: LifecycleEvent where
  "laterEvent = startedEvent\<lparr>le_OccurredAt := queueNow + Second\<rparr>"

definition startedItem :: DeliveryQueueItem where
  "startedItem = newItem \<lparr>eq_PayloadType = DeliveryPayloadLifecycleEvent, eq_PayloadRef = ''lifecycle-h'',
     eq_DestinationRef = ''ops'', eq_ExpiresAt = queueNow + Hour\<rparr> ''dl-1'' ''msg-1'' queueNow"

definition eventLib :: lifecycle_lib where
  "eventLib =
     \<lparr>ll_json = tableLib, ll_event = tableType [(startedEvent, ''started''), (laterEvent, ''later'')],
      ll_sha = (\<lambda>_. ''h''), ll_IsLetter = (\<lambda>_. False), ll_IsDigit = (\<lambda>_. False)\<rparr>"

definition eventDispatcher :: "mem_db Dispatcher" where
  "eventDispatcher = demoDispatcher\<lparr>dp_lib := demoDeliveryLib\<lparr>dl_item := tableType [(startedItem, ''item'')]\<rparr>\<rparr>"

definition demoPublisher :: "mem_db Publisher" where
  "demoPublisher =
     \<lparr>pb_queue = eventDispatcher, pb_lib = eventLib, pb_destinationRef = ''ops'', pb_deliveryTTL = Hour\<rparr>"

definition publishAnswers :: "mem_db publish_answers" where
  "publishAnswers =
     \<lparr>pa_Ctx = None,
      pa_Enqueue = \<lparr>ea_Now = queueNow, ea_DeliveryID = Inr ''dl-1'', ea_WebhookID = Inr ''msg-1''\<rparr>,
      pa_Between = (\<lambda>db. db), pa_After = (\<lambda>db. db)\<rparr>"

definition startedInput :: "Time \<Rightarrow> LifecycleInput" where
  "startedInput now =
     transitionInput eventLib LifecycleRecoveryStarted (rc_IncidentID demoCommand) (rc_CommandID demoCommand)
       ''recovery_started'' now"

definition eventStore :: "(string \<times> string) list \<Rightarrow> (string \<times> string) list \<Rightarrow> mem_db" where
  "eventStore items docs = [(''delivery_queue'', items), (''lifecycle_events'', docs)]"

abbreviation publishedStore :: mem_db where
  "publishedStore \<equiv> eventStore [(''delivery/dl-1'', ''item'')] [(''event/h'', ''started'')]"

lemma demo_published:
  "publishEventInput demoPublisher publishAnswers (startedInput queueNow) (eventStore [] [])
     = (Inr \<lparr>pr_Event = startedEvent, pr_QueueItem = startedItem, pr_Duplicate = False\<rparr>, publishedStore)"
  by code_simp

lemma event_item_codec: "item_codec (dp_lib eventDispatcher)"
  by (rule table_item_codec [where table = "[(startedItem, ''item'')]"])
    (simp_all add: eventDispatcher_def demoDeliveryLib_def startedItem_def newItem_def SchemaVersionV1_def MaxDocumentBytes_def)

lemma event_codec_demo: "event_codec eventLib"
  unfolding event_codec_def
proof (intro conjI allI impI)
  let ?table = "[(startedEvent, ''started''), (laterEvent, ''later'')]"
  have parts: "ll_json eventLib = tableLib" "ll_event eventLib = tableType ?table" by (simp_all add: eventLib_def)
  have "json_codec tableLib (tableType ?table) le_SchemaVersion (\<lambda>_. True)"
    by (rule tableType_codec) (auto simp: laterEvent_def startedEvent_def SchemaVersionV1_def)
  then show "json_codec (ll_json eventLib) (ll_event eventLib) le_SchemaVersion
      (\<lambda>event. eventBounded eventLib event \<and> eventText eventLib event)"
    unfolding parts by (rule json_codec_mono) simp
  show "int (length document) \<le> MaxDocumentBytes"
    if "eventBounded eventLib event \<and> jt_marshal (ll_event eventLib) event = Inr document" for event document
    using table_document [of ?table event document] that unfolding parts by (auto simp: MaxDocumentBytes_def)
qed

lemma event_parts: "pb_queue demoPublisher = eventDispatcher" "pb_lib demoPublisher = eventLib"
  "dp_eng eventDispatcher = mem_engine" "pb_destinationRef demoPublisher = ''ops''"
  by (simp_all add: demoPublisher_def eventDispatcher_def demoDispatcher_def)

interpretation published: publishing demoPublisher mem_inv
proof -
  have "dispatcher_ok eventDispatcher"
    using queued.limits by (simp add: dispatcher_ok_def eventDispatcher_def)
  then show "publishing demoPublisher mem_inv"
    using mem.bbolt_axioms event_item_codec event_codec_demo
    by (simp add: publishing_def publishing_axioms_def dispatching_def dispatching_axioms_def event_parts)
qed

lemma demo_publish_text: "publishText demoPublisher publishAnswers (startedInput now)"
  by (simp add: publishText_def event_parts eventLib_def eventDispatcher_def demoDeliveryLib_def tableLib_def
      startedInput_def transitionInput_def)

lemma demo_event_stores: "mem_inv (eventStore [] [])" "mem_inv publishedStore"
  by (simp_all add: eventStore_def mem_inv_def keys_sorted_def)

section \<open>Properties\<close>



text \<open>
  C39: a transition cannot be published twice. The identifier of the event that announces the start of a
  recovery is a function of the command, but its time is the time of the call: after a successful
  call, a second call for the same command at any other time is refused as an invalid event and
  changes nothing, so a recovery that stopped between the announcement and the start is not
  started by a later attempt.
\<close>

theorem republish_refused:
  assumes "publishing p dbinv" and "dbinv (pa_Between a db)"
    and "input = transitionInput (pb_lib p) LifecycleRecoveryStarted (rc_IncidentID command) (rc_CommandID command)
      ''recovery_started''"
    and "publishText p a (input now)"
    and "publishRecoveryStartedEvent p a now command db = (None, db')"
    and "dbinv later" and "eng_begin (dp_eng (pb_queue p)) later = None" and "eventsOf p later = eventsOf p db'"
    and "pa_Ctx a' = None" and "now' \<noteq> now"
    and "lifecycleEvent (pb_lib p) (input now') = Inr second"
    and "jt_marshal (ll_event (pb_lib p)) second = Inr document"
  shows "publishRecoveryStartedEvent p a' now' command later = (Some (Lifecycle ErrLifecycleEvent), later)"
proof -
  obtain result where run: "publishEventInput p a (input now) db = (Inr result, db')"
    using assms(5) unfolding assms(3)
    by (auto simp: publishRecoveryStartedEvent_def errorOf_def split: prod.splits sum.splits)
  obtain event doc where h: "lifecycleEvent (pb_lib p) (input now) = Inr event"
    "eventsOf p db' (lifecycleKey (pb_lib p) (li_EventID (input now))) = Some doc"
    "decodeLifecycleEvent (pb_lib p) doc = Inr (pr_Event result)" "sameEvent (pr_Event result) event"
    using publishing.published_held [OF assms(1) run assms(2,4)] by metis
  have first: "le_EventID (pr_Event result) = li_EventID (input now)" "le_OccurredAt (pr_Event result) = now"
    using lifecycleEvent_Inr(2,3) [OF h(1)] h(4) by (simp_all add: sameEvent_def assms(3) transitionInput_def)
  have again: "le_EventID second = li_EventID (input now)" "le_OccurredAt second = now'"
    using lifecycleEvent_Inr(2,3) [OF assms(11)] by (simp_all add: assms(3) transitionInput_def)
  have "eventsOf p later (lifecycleKey (pb_lib p) (li_EventID (input now))) = Some doc"
    using h(2) by (simp only: assms(8))
  from publishing.held_load(1) [OF assms(1), OF this assms(6,7) h(3) first(1)]
  have "loadEvent p (le_EventID second) later = Inr (Some (pr_Event result))" by (simp only: again(1))
  moreover have "\<not> sameEvent (pr_Event result) second"
    using first(2) again(2) assms(10) by (simp add: sameEvent_def)
  ultimately have "publishEventInput p a' (input now') later = (Inl (Lifecycle ErrLifecycleEvent), later)"
    using assms(9,11,12) by (simp add: publishEventInput_def)
  then show ?thesis by (simp add: publishRecoveryStartedEvent_def errorOf_def assms(3))
qed

theorem republish_refused_witness:
  "publishRecoveryStartedEvent demoPublisher publishAnswers queueNow demoCommand (eventStore [] []) = (None, publishedStore)
   \<and> publishRecoveryStartedEvent demoPublisher publishAnswers (queueNow + Second) demoCommand publishedStore
     = (Some (Lifecycle ErrLifecycleEvent), publishedStore)"
proof -
  have input: "startedInput = transitionInput (pb_lib demoPublisher) LifecycleRecoveryStarted
      (rc_IncidentID demoCommand) (rc_CommandID demoCommand) ''recovery_started''"
    by (rule ext) (simp add: startedInput_def event_parts)
  have first: "publishRecoveryStartedEvent demoPublisher publishAnswers queueNow demoCommand (eventStore [] [])
      = (None, publishedStore)"
    using demo_published by (simp add: publishRecoveryStartedEvent_def errorOf_def input)
  have inv: "mem_inv (pa_Between publishAnswers (eventStore [] []))"
    using demo_event_stores(1) by (simp add: publishAnswers_def)
  have free: "eng_begin (dp_eng (pb_queue demoPublisher)) publishedStore = None" by (simp add: event_parts)
  have ctx: "pa_Ctx publishAnswers = None" by (simp add: publishAnswers_def)
  have other: "queueNow + Second \<noteq> queueNow" by (simp add: Second_def Millisecond_def)
  have event: "lifecycleEvent (pb_lib demoPublisher) (startedInput (queueNow + Second)) = Inr laterEvent" by code_simp
  have document: "jt_marshal (ll_event (pb_lib demoPublisher)) laterEvent = Inr ''later''" by code_simp
  from republish_refused [OF published.publishing_axioms inv input demo_publish_text first demo_event_stores(2) free refl
      ctx other event document] first
  show ?thesis by blast
qed

end
