(* ===== verification/Target_Registry.thy ===== *)
theory Target_Registry
  imports Audit_Chain
begin

text \<open>
  The registry of monitoring targets, \<open>src/internal/target/registry.go\<close>: validation against the
  configuration, audited registration, and the snapshot observers read, which is recovered from
  the store at start. The clock and the identifier generator are answers of each call; the JSON
  encoder is a parameter. Reading target documents from files is left out.
\<close>

section \<open>Data\<close>

definition maxTargets :: int where "maxTargets = 10000"
definition maxTargetIDBytes :: nat where "maxTargetIDBytes = 96"
definition maxProbeRules :: nat where "maxProbeRules = 64"
definition maxTargetDuration :: Duration where "maxTargetDuration = 24 * Hour"
definition maxTargetSamples :: int where "maxTargetSamples = 100"

definition targetAggregateType :: string where "targetAggregateType = ''service_target''"
definition targetAuditAction :: string where "targetAuditAction = ''target.register''"
definition auditResultAccepted :: string where "auditResultAccepted = ''accepted''"
definition auditResultRejected :: string where "auditResultRejected = ''rejected''"
definition auditReasonInvalid :: string where "auditReasonInvalid = ''invalid_target''"
definition auditReasonDuplicate :: string where "auditReasonDuplicate = ''duplicate_target''"
definition auditReasonLimit :: string where "auditReasonLimit = ''target_limit_reached''"

record AllowedTarget =
  at_TargetID :: string
  at_AdapterType :: string

record TargetRegistration =
  rn_Target :: ServiceTarget
  rn_ActorIdentity :: string
  rn_RequestID :: string
  rn_ReasonCode :: string

text \<open>A \<open>uint64\<close> is a natural number below \<open>2 ^ 64\<close>; its increment wraps around.\<close>

definition uint64Succ :: "nat \<Rightarrow> nat" where
  "uint64Succ v = nat ((int v + 1) mod 2 ^ 64)"

lemma uint64Succ_small: "int v < 2 ^ 64 - 1 \<Longrightarrow> uint64Succ v = v + 1"
  by (simp add: uint64Succ_def nat_add_distrib)

record TargetSnapshot =
  ts_SchemaVersion :: string
  ts_Version :: nat
  ts_Targets :: "ServiceTarget list"

record persistedTarget =
  pt_SchemaVersion :: string
  pt_Version :: nat
  pt_Target :: ServiceTarget

record target_lib =
  tl_json :: json_lib
  tl_target :: "ServiceTarget json_type"
  tl_persisted :: "persistedTarget json_type"

record 'db TargetOptions =
  to_State :: "'db engine"
  to_Audit :: audit_lib
  to_Lib :: target_lib
  to_AllowedTargets :: "AllowedTarget list"
  to_MaxTargets :: int
  to_MaxEvidenceBytes :: int

text \<open>The fixed part of a registry; its mutable snapshot is passed along.\<close>

record 'db TargetRegistry =
  tr_eng :: "'db engine"
  tr_audit :: audit_lib
  tr_lib :: target_lib
  tr_allowed :: "(string \<times> string) list"
  tr_maxTargets :: int
  tr_maxEvidenceBytes :: int

section \<open>Validation\<close>

definition alnum :: "char \<Rightarrow> bool" where
  "alnum c \<longleftrightarrow> inRange CHR ''a'' CHR ''z'' c \<or> inRange CHR ''A'' CHR ''Z'' c \<or> inRange CHR ''0'' CHR ''9'' c"

text \<open>The pattern \<open>^[A-Za-z0-9][A-Za-z0-9._-]{0,95}$\<close>.\<close>

fun identifierPattern :: "string \<Rightarrow> bool" where
  "identifierPattern [] = False"
| "identifierPattern (c # cs) \<longleftrightarrow> alnum c \<and> length cs \<le> 95 \<and> list_all (\<lambda>x. alnum x \<or> x \<in> set ''._-'') cs"

definition selectorPattern :: "string \<Rightarrow> bool" where
  "selectorPattern s \<longleftrightarrow>
     (HasPrefix s ''container:'' \<and> identifierPattern (drop (length ''container:'') s))
     \<or> (HasPrefix s ''compose_service:'' \<and> identifierPattern (drop (length ''compose_service:'') s))"

fun containsDots :: "string \<Rightarrow> bool" where
  "containsDots (a # b # rest) \<longleftrightarrow> (a = CHR ''.'' \<and> b = CHR ''.'') \<or> containsDots (b # rest)"
| "containsDots _ = False"

definition validTargetIdentifier :: "string \<Rightarrow> bool" where
  "validTargetIdentifier v \<longleftrightarrow> length v \<le> maxTargetIDBytes \<and> identifierPattern v \<and> \<not> containsDots v"

definition validAuditValue :: "string \<Rightarrow> bool" where
  "validAuditValue v \<longleftrightarrow> v \<noteq> [] \<and> length v \<le> 128 \<and> list_all auditChar v"

definition validRegistrationContext :: "TargetRegistration \<Rightarrow> bool" where
  "validRegistrationContext registration \<longleftrightarrow>
     validAuditValue (rn_ActorIdentity registration) \<and> validAuditValue (rn_RequestID registration)
     \<and> validAuditValue (rn_ReasonCode registration)"

definition auditAggregateID :: "string \<Rightarrow> string" where
  "auditAggregateID targetID = (if validTargetIdentifier targetID then targetID else ''target-unknown'')"

definition validateProbeRule :: "ProbeRule \<Rightarrow> error option" where
  "validateProbeRule rule =
     (if \<not> validTargetIdentifier (pr_RuleID rule)
         \<or> pr_SignalType rule \<notin> {''availability'', ''error_rate'', ''latency_ms''}
         \<or> pr_Interval rule < Second \<or> pr_Interval rule > Hour
         \<or> pr_Timeout rule < Millisecond \<or> pr_Timeout rule > pr_Interval rule
         \<or> pr_Threshold rule \<in> {NaN, PosInf, NegInf}
         \<or> \<not> float_less (Fin 0) (pr_Threshold rule) \<or> float_less (Fin 1000000) (pr_Threshold rule)
         \<or> pr_ConsecutiveFailures rule < 1 \<or> pr_ConsecutiveFailures rule > maxTargetSamples
         \<or> pr_RecoverySamples rule < 1 \<or> pr_RecoverySamples rule > maxTargetSamples
         \<or> pr_SLOWindow rule < pr_Interval rule \<or> pr_SLOWindow rule > maxTargetDuration
      then Some (Target ErrInvalidTarget)
      else if pr_Severity rule \<notin> {SeverityInfo, SeverityWarning, SeverityCritical}
      then Some (Target ErrInvalidTarget)
      else None)"

fun validateRules :: "string list \<Rightarrow> ProbeRule list \<Rightarrow> error option" where
  "validateRules seen [] = None"
| "validateRules seen (rule # rules) =
     (case validateProbeRule rule of
        Some e \<Rightarrow> Some e
      | None \<Rightarrow>
          if pr_RuleID rule \<in> set seen then Some (Target ErrInvalidTarget)
          else validateRules (pr_RuleID rule # seen) rules)"

definition validateTarget :: "'db TargetRegistry \<Rightarrow> ServiceTarget \<Rightarrow> error option" where
  "validateTarget r candidate =
     (if st_SchemaVersion candidate \<noteq> SchemaVersionV1 \<or> \<not> validTargetIdentifier (st_TargetID candidate)
      then Some (Target ErrInvalidTarget)
      else case map_of (tr_allowed r) (st_TargetID candidate) of
          None \<Rightarrow> Some (Target ErrTargetNotAllowed)
        | Some allowedAdapter \<Rightarrow>
            if st_AdapterType candidate \<noteq> allowedAdapter \<or> st_AdapterType candidate \<noteq> ''docker''
            then Some (Target ErrUnknownAdapter)
            else if \<not> selectorPattern (st_Selector candidate) \<or> containsDots (st_Selector candidate)
            then Some (Target ErrInvalidTarget)
            else if st_ProbeRules candidate = [] \<or> length (st_ProbeRules candidate) > maxProbeRules
            then Some (Target ErrInvalidTarget)
            else case validateRules [] (st_ProbeRules candidate) of
                Some e \<Rightarrow> Some e
              | None \<Rightarrow>
                  let policy = st_EvidencePolicy candidate; stabilization = st_StabilizationPolicy candidate in
                  if ep_RedactionProfile policy \<notin> {''default'', ''strict''} \<or> ep_MaxBytes policy < 1
                     \<or> ep_MaxBytes policy > tr_maxEvidenceBytes r
                  then Some (Target ErrInvalidTarget)
                  else if sp_RecoverySamples stabilization < 1 \<or> sp_RecoverySamples stabilization > maxTargetSamples
                     \<or> sp_Window stabilization < Second \<or> sp_Window stabilization > maxTargetDuration
                  then Some (Target ErrInvalidTarget)
                  else None)"

fun allowedTargetMap :: "AllowedTarget list \<Rightarrow> (string \<times> string) list \<Rightarrow> error + (string \<times> string) list" where
  "allowedTargetMap [] allowed = Inr allowed"
| "allowedTargetMap (candidate # rest) allowed =
     (if \<not> validTargetIdentifier (at_TargetID candidate) \<or> at_AdapterType candidate \<noteq> ''docker''
      then Inl (Target ErrTargetOptions)
      else if map_of allowed (at_TargetID candidate) \<noteq> None then Inl (Target ErrTargetOptions)
      else allowedTargetMap rest ((at_TargetID candidate, at_AdapterType candidate) # allowed))"

section \<open>Documents\<close>

definition targetDecodeOptions :: "ServiceTarget DecodeOptions" where
  "targetDecodeOptions =
     \<lparr>do_MaxBytes = MaxDocumentBytes, do_SchemaVersion = SchemaVersionV1,
      do_Validate = Some (\<lambda>v. if st_SchemaVersion v \<noteq> SchemaVersionV1 then Some (Target ErrInvalidTarget) else None)\<rparr>"

definition decodeTarget :: "target_lib \<Rightarrow> string \<Rightarrow> error + ServiceTarget" where
  "decodeTarget lib document =
     (case Decode (tl_json lib) (tl_target lib) document targetDecodeOptions of
        Inl _ \<Rightarrow> Inl (Target ErrInvalidTarget)
      | Inr target \<Rightarrow> Inr target)"

definition validatePersisted :: "persistedTarget \<Rightarrow> error option" where
  "validatePersisted v =
     (if pt_SchemaVersion v \<noteq> SchemaVersionV1 \<or> st_SchemaVersion (pt_Target v) \<noteq> SchemaVersionV1
      then Some (Target ErrInvalidTarget) else None)"

definition persistedDecodeOptions :: "persistedTarget DecodeOptions" where
  "persistedDecodeOptions =
     \<lparr>do_MaxBytes = MaxDocumentBytes, do_SchemaVersion = SchemaVersionV1, do_Validate = Some validatePersisted\<rparr>"

definition decodePersistedTarget :: "target_lib \<Rightarrow> string \<Rightarrow> error + persistedTarget" where
  "decodePersistedTarget lib document =
     (case Decode (tl_json lib) (tl_persisted lib) document persistedDecodeOptions of
        Inl _ \<Rightarrow> Inl (Target ErrInvalidTarget)
      | Inr stored \<Rightarrow> Inr stored)"

definition encodePersistedTarget :: "target_lib \<Rightarrow> persistedTarget \<Rightarrow> error + string" where
  "encodePersistedTarget lib stored = jt_marshal (tl_persisted lib) stored"

section \<open>Registration\<close>

text \<open>What the identifier generator and the clock answer when the audit event is written.\<close>

record target_answers =
  tg_AuditID :: "error + string"
  tg_Now :: Time

definition registrationEvent ::
    "TargetRegistration \<Rightarrow> string \<Rightarrow> Time \<Rightarrow> string \<Rightarrow> string \<Rightarrow> string \<Rightarrow> AuditEvent" where
  "registrationEvent registration eventID occurredAt aggregateID result reason =
     \<lparr>ae_SchemaVersion = SchemaVersionV1, ae_EventID = eventID, ae_AggregateType = targetAggregateType,
      ae_AggregateID = aggregateID, ae_ActorIdentity = rn_ActorIdentity registration,
      ae_Action = targetAuditAction, ae_Result = result, ae_ReasonCode = reason, ae_OccurredAt = occurredAt,
      ae_PreviousDigest = [], ae_Digest = []\<rparr>"

definition appendTargetAudit ::
    "'db TargetRegistry \<Rightarrow> target_answers \<Rightarrow> TargetRegistration \<Rightarrow> string \<Rightarrow> string \<Rightarrow> string
      \<Rightarrow> ('db \<Rightarrow> error + 'db) option \<Rightarrow> 'db \<Rightarrow> error + 'db" where
  "appendTargetAudit r answers registration aggregateID result reason change tx =
     bindR (tg_AuditID answers) (\<lambda>eventID.
       if IsZero (tg_Now answers) then Inl (Target ErrTargetOptions)
       else bindR (Append (tr_eng r) (tr_audit r)
           (registrationEvent registration eventID (tg_Now answers) aggregateID result reason) change tx)
         (\<lambda>(event, tx'). Inr tx'))"

definition recordTargetRejected ::
    "'db TargetRegistry \<Rightarrow> target_answers \<Rightarrow> TargetRegistration \<Rightarrow> string \<Rightarrow> string \<Rightarrow> 'db \<Rightarrow> (error + unit) \<times> 'db" where
  "recordTargetRejected r answers registration aggregateID reason db =
     Update (tr_eng r) (\<lambda>tx.
       bindR (appendTargetAudit r answers registration aggregateID auditResultRejected reason None tx)
         (\<lambda>tx'. Inr ((), tx'))) db"

text \<open>The transaction returns the rejection it recorded, if any.\<close>

definition registerTx ::
    "'db TargetRegistry \<Rightarrow> target_answers \<Rightarrow> TargetRegistration \<Rightarrow> TargetSnapshot \<Rightarrow> 'db
      \<Rightarrow> error + (error option \<times> 'db)" where
  "registerTx r answers registration snapshot tx =
     (let target = rn_Target registration; aggregate = auditAggregateID (st_TargetID target) in
      bindR (tx_Get (tr_eng r) BucketServiceTargets (st_TargetID target) tx) (\<lambda>found.
        if found \<noteq> None then
          bindR (appendTargetAudit r answers registration aggregate auditResultRejected auditReasonDuplicate None tx)
            (\<lambda>tx'. Inr (Some (Target ErrDuplicateTarget), tx'))
        else if int (length (ts_Targets snapshot)) \<ge> tr_maxTargets r then
          bindR (appendTargetAudit r answers registration aggregate auditResultRejected auditReasonLimit None tx)
            (\<lambda>tx'. Inr (Some (Target ErrTargetLimit), tx'))
        else
          bindR (encodePersistedTarget (tr_lib r)
              \<lparr>pt_SchemaVersion = SchemaVersionV1, pt_Version = uint64Succ (ts_Version snapshot),
               pt_Target = target\<rparr>) (\<lambda>document.
          bindR (appendTargetAudit r answers registration aggregate auditResultAccepted (rn_ReasonCode registration)
              (Some (tx_Put (tr_eng r) BucketServiceTargets (st_TargetID target) document)) tx)
            (\<lambda>tx'. Inr (None, tx')))))"

text \<open>
  \<open>Register\<close> returns the snapshot with the error. Identifiers are unique, so every sort by
  identifier gives the same list.
\<close>

definition RegisterTarget ::
    "'db TargetRegistry \<Rightarrow> target_answers \<Rightarrow> TargetRegistration \<Rightarrow> TargetSnapshot \<times> 'db
      \<Rightarrow> (TargetSnapshot \<times> error option) \<times> (TargetSnapshot \<times> 'db)" where
  "RegisterTarget r answers registration = (\<lambda>(snapshot, db).
     if \<not> validRegistrationContext registration then
       ((\<lparr>ts_SchemaVersion = [], ts_Version = 0, ts_Targets = []\<rparr>, Some (Target ErrTargetOptions)), (snapshot, db))
     else case validateTarget r (rn_Target registration) of
       Some e \<Rightarrow>
         (case recordTargetRejected r answers registration
                 (auditAggregateID (st_TargetID (rn_Target registration))) auditReasonInvalid db of
            (Inl auditErr, db') \<Rightarrow> ((snapshot, Some auditErr), (snapshot, db'))
          | (Inr _, db') \<Rightarrow> ((snapshot, Some e), (snapshot, db')))
     | None \<Rightarrow>
         (case Update (tr_eng r) (registerTx r answers registration snapshot) db of
            (Inl e, db') \<Rightarrow> ((snapshot, Some e), (snapshot, db'))
          | (Inr (Some e), db') \<Rightarrow> ((snapshot, Some e), (snapshot, db'))
          | (Inr None, db') \<Rightarrow>
              let snapshot' = \<lparr>ts_SchemaVersion = SchemaVersionV1, ts_Version = uint64Succ (ts_Version snapshot),
                    ts_Targets = sort_key st_TargetID (ts_Targets snapshot @ [rn_Target registration])\<rparr>
              in ((snapshot', None), (snapshot', db'))))"

section \<open>Recovery\<close>

definition loadTargetStep ::
    "'db TargetRegistry \<Rightarrow> TargetSnapshot \<Rightarrow> string \<Rightarrow> string \<Rightarrow> error + TargetSnapshot" where
  "loadTargetStep r loaded key document =
     (case decodePersistedTarget (tr_lib r) document of
        Inl _ \<Rightarrow> Inl (Target ErrInvalidTarget)
      | Inr stored \<Rightarrow>
          if key \<noteq> st_TargetID (pt_Target stored) \<or> pt_Version stored = 0 then Inl (Target ErrInvalidTarget)
          else case validateTarget r (pt_Target stored) of
              Some e \<Rightarrow> Inl e
            | None \<Rightarrow>
                Inr (loaded\<lparr>ts_Targets := ts_Targets loaded @ [pt_Target stored],
                      ts_Version := (if pt_Version stored > ts_Version loaded then pt_Version stored
                                     else ts_Version loaded)\<rparr>))"

definition emptySnapshot :: TargetSnapshot where
  "emptySnapshot = \<lparr>ts_SchemaVersion = SchemaVersionV1, ts_Version = 0, ts_Targets = []\<rparr>"

definition loadTargets :: "'db TargetRegistry \<Rightarrow> 'db \<Rightarrow> error + TargetSnapshot" where
  "loadTargets r db =
     bindR (View (tr_eng r) (tx_ForEach (tr_eng r) BucketServiceTargets (loadTargetStep r) emptySnapshot) db) (\<lambda>loaded.
       if int (length (ts_Targets loaded)) > tr_maxTargets r then Inl (Target ErrTargetLimit)
       else Inr (loaded\<lparr>ts_Targets := sort_key st_TargetID (ts_Targets loaded)\<rparr>))"

definition newTargetRegistry :: "'db TargetOptions \<Rightarrow> 'db \<Rightarrow> error + ('db TargetRegistry \<times> TargetSnapshot)" where
  "newTargetRegistry options db =
     (case allowedTargetMap (to_AllowedTargets options) [] of
        Inl _ \<Rightarrow> Inl (Target ErrTargetOptions)
      | Inr allowed \<Rightarrow>
          if to_MaxTargets options < 1 \<or> to_MaxTargets options > maxTargets \<or> to_MaxEvidenceBytes options < 1
          then Inl (Target ErrTargetOptions)
          else
            let r = \<lparr>tr_eng = to_State options, tr_audit = to_Audit options, tr_lib = to_Lib options,
                  tr_allowed = allowed, tr_maxTargets = to_MaxTargets options,
                  tr_maxEvidenceBytes = to_MaxEvidenceBytes options\<rparr>
            in bindR (loadTargets r db) (\<lambda>snapshot. Inr (r, snapshot)))"

section \<open>What the registry relies on\<close>

text \<open>Validated targets hold short ASCII strings only; they survive the encoder and fit the size limit.\<close>

definition target_codec :: "'db TargetRegistry \<Rightarrow> bool" where
  "target_codec r \<longleftrightarrow>
     json_codec (tl_json (tr_lib r)) (tl_persisted (tr_lib r)) pt_SchemaVersion
       (\<lambda>v. pt_SchemaVersion v = SchemaVersionV1 \<and> pt_Version v < 2 ^ 64 \<and> validateTarget r (pt_Target v) = None)
     \<and> (\<forall>v document. validateTarget r (pt_Target v) = None \<and> pt_SchemaVersion v = SchemaVersionV1
          \<and> pt_Version v < 2 ^ 64 \<and> jt_marshal (tl_persisted (tr_lib r)) v = Inr document
          \<longrightarrow> int (length document) \<le> MaxDocumentBytes)"

lemma validateTarget_version: "validateTarget r target = None \<Longrightarrow> st_SchemaVersion target = SchemaVersionV1"
  by (simp add: validateTarget_def split: if_splits)

lemma validateTarget_id: "validateTarget r target = None \<Longrightarrow> st_TargetID target \<noteq> []"
  by (auto simp: validateTarget_def validTargetIdentifier_def split: if_splits)

lemma decodePersisted_marshal:
  assumes "target_codec r" and "pt_SchemaVersion v = SchemaVersionV1" and "pt_Version v < 2 ^ 64"
    and "validateTarget r (pt_Target v) = None"
    and "encodePersistedTarget (tr_lib r) v = Inr document"
  shows "decodePersistedTarget (tr_lib r) document = Inr v"
proof -
  have "Decode (tl_json (tr_lib r)) (tl_persisted (tr_lib r)) document persistedDecodeOptions = Inr v"
  proof (rule Decode_marshal [where validate = validatePersisted])
    show "json_codec (tl_json (tr_lib r)) (tl_persisted (tr_lib r)) pt_SchemaVersion
       (\<lambda>v. pt_SchemaVersion v = SchemaVersionV1 \<and> pt_Version v < 2 ^ 64 \<and> validateTarget r (pt_Target v) = None)"
      using assms(1) by (simp add: target_codec_def)
    show "int (length document) \<le> decodeLimit persistedDecodeOptions"
      using assms by (auto simp: target_codec_def encodePersistedTarget_def persistedDecodeOptions_def decodeLimit_def
          MaxDocumentBytes_def)
  qed (use assms validateTarget_version [OF assms(4)] in
      \<open>simp_all add: persistedDecodeOptions_def validatePersisted_def encodePersistedTarget_def SchemaVersionV1_def\<close>)
  then show ?thesis by (simp add: decodePersistedTarget_def)
qed

section \<open>The snapshot and the store\<close>

text \<open>A stored pair and the target it stands for.\<close>

definition represents :: "'db TargetRegistry \<Rightarrow> string \<times> string \<Rightarrow> persistedTarget \<Rightarrow> bool" where
  "represents r = (\<lambda>(key, document) stored.
     decodePersistedTarget (tr_lib r) document = Inr stored \<and> key = st_TargetID (pt_Target stored)
     \<and> pt_Version stored \<noteq> 0 \<and> validateTarget r (pt_Target stored) = None)"

definition snapshotOf :: "TargetSnapshot \<Rightarrow> persistedTarget list \<Rightarrow> TargetSnapshot" where
  "snapshotOf s stored =
     s\<lparr>ts_Targets := ts_Targets s @ map pt_Target stored,
       ts_Version := fold max (map pt_Version stored) (ts_Version s)\<rparr>"

lemma loadTargetStep_represents:
  "represents r (key, document) stored \<Longrightarrow> loadTargetStep r s key document = Inr (snapshotOf s [stored])"
  by (auto simp: represents_def loadTargetStep_def snapshotOf_def max_def)

lemma fold_loadTargetStep:
  "list_all2 (represents r) pairs stored \<Longrightarrow> foldR (loadTargetStep r) s pairs = Inr (snapshotOf s stored)"
proof (induction pairs stored arbitrary: s rule: list_all2_induct)
  case Nil
  then show ?case by (simp add: snapshotOf_def)
next
  case (Cons p pairs stored ss)
  then show ?case
    by (cases p) (simp add: loadTargetStep_represents, simp add: snapshotOf_def)
qed

lemma loadTargetStep_Inr:
  assumes "loadTargetStep r s key document = Inr s'"
  shows "\<exists>stored. represents r (key, document) stored \<and> s' = snapshotOf s [stored]"
proof -
  obtain stored where dec: "decodePersistedTarget (tr_lib r) document = Inr stored"
    using assms by (cases "decodePersistedTarget (tr_lib r) document") (simp_all add: loadTargetStep_def)
  moreover have "key = st_TargetID (pt_Target stored)" "pt_Version stored \<noteq> 0" "validateTarget r (pt_Target stored) = None"
    using assms dec by (auto simp: loadTargetStep_def split: if_splits option.splits)
  ultimately have rep: "represents r (key, document) stored" by (simp add: represents_def)
  from loadTargetStep_represents [OF rep, of s] assms have "s' = snapshotOf s [stored]" by simp
  with rep show ?thesis by blast
qed

lemma represents_valid:
  "list_all2 (represents r) pairs stored \<Longrightarrow> t \<in> set stored \<Longrightarrow> validateTarget r (pt_Target t) = None"
  by (induction rule: list_all2_induct) (auto simp: represents_def)

lemma fold_loadTargetStep_Inr:
  "foldR (loadTargetStep r) s pairs = Inr loaded \<Longrightarrow> \<exists>stored. list_all2 (represents r) pairs stored \<and> loaded = snapshotOf s stored"
proof (induction pairs arbitrary: s)
  case Nil
  then show ?case by (simp add: snapshotOf_def)
next
  case (Cons p pairs)
  obtain key document where p: "p = (key, document)" by fastforce
  obtain s' where first: "loadTargetStep r s key document = Inr s'" and rest: "foldR (loadTargetStep r) s' pairs = Inr loaded"
    using Cons.prems p by (auto simp: result_simps)
  obtain t where t: "represents r (key, document) t" "s' = snapshotOf s [t]" using loadTargetStep_Inr [OF first] by blast
  obtain stored where "list_all2 (represents r) pairs stored" "loaded = snapshotOf s' stored"
    using Cons.IH [OF rest] by blast
  then show ?case using t p by (intro exI [of _ "t # stored"]) (simp add: snapshotOf_def)
qed

lemma upsert_new:
  "k \<notin> fst ` set xs \<Longrightarrow> \<exists>before_k after_k. xs = before_k @ after_k \<and> upsert k v xs = before_k @ (k, v) # after_k"
proof (induction k v xs rule: upsert.induct)
  case (2 k v j w rest)
  then show ?case
    by (cases "k < j") (auto intro: exI [of _ "[]"], metis append_Cons)
qed simp

lemma represents_keys: "list_all2 (represents r) pairs stored \<Longrightarrow> map fst pairs = map (st_TargetID \<circ> pt_Target) stored"
  by (induction rule: list_all2_induct) (auto simp: represents_def)

lemma fold_max: "fold max xs (a :: nat) = Max (insert a (set xs))"
  using Max.set_eq_fold [of a xs] by simp

lemma sort_key_unique:
  assumes "set ys = set xs" and "sorted (map f ys)" and "distinct (map f ys)" and "distinct (map f xs)"
  shows "sort_key f xs = ys"
proof (rule map_sorted_distinct_set_unique [of f])
  show "inj_on f (set (sort_key f xs) \<union> set ys)" using assms(1,3) by (simp add: distinct_map)
  show "distinct (map f (sort_key f xs))" using assms(4) by (simp add: distinct_map)
qed (use assms in simp_all)

text \<open>
  The registry is consistent: the store holds valid targets, the snapshot lists them in the order
  of the store, and its version is the highest of theirs and at most their number.
\<close>

definition registry_inv :: "'db TargetRegistry \<Rightarrow> ('db \<Rightarrow> bool) \<Rightarrow> TargetSnapshot \<times> 'db \<Rightarrow> bool" where
  "registry_inv r dbinv = (\<lambda>(snapshot, db).
     dbinv db \<and> eng_bucket (tr_eng r) db (bucketName BucketServiceTargets)
     \<and> (\<exists>stored. list_all2 (represents r) (eng_each (tr_eng r) db (bucketName BucketServiceTargets)) stored
          \<and> snapshot = snapshotOf emptySnapshot stored)
     \<and> int (length (ts_Targets snapshot)) \<le> tr_maxTargets r
     \<and> ts_Version snapshot \<le> length (ts_Targets snapshot))"

locale registering = bbolt "tr_eng r" dbinv
  for r :: "'db TargetRegistry" and dbinv :: "'db \<Rightarrow> bool" +
  assumes codec: "target_codec r" and small: "tr_maxTargets r \<le> maxTargets"
begin

lemma stored_sorted:
  assumes "list_all2 (represents r) (eng_each (tr_eng r) db n) stored" and "dbinv db"
  shows "sorted (map st_TargetID (map pt_Target stored))" and "distinct (map st_TargetID (map pt_Target stored))"
proof -
  have "map st_TargetID (map pt_Target stored) = map fst (eng_each (tr_eng r) db n)"
    using represents_keys [OF assms(1)] by simp
  then show "sorted (map st_TargetID (map pt_Target stored))" "distinct (map st_TargetID (map pt_Target stored))"
    using each_sorted [OF assms(2), of n] by (simp_all add: keys_sorted_def strict_sorted_iff)
qed

lemma inv_loads:
  assumes "registry_inv r dbinv (snapshot, db)" and "eng_begin (tr_eng r) db = None"
  shows "loadTargets r db = Inr snapshot"
proof -
  obtain stored where st: "list_all2 (represents r) (eng_each (tr_eng r) db (bucketName BucketServiceTargets)) stored"
    "snapshot = snapshotOf emptySnapshot stored" and inv: "dbinv db"
    "eng_bucket (tr_eng r) db (bucketName BucketServiceTargets)" "int (length (ts_Targets snapshot)) \<le> tr_maxTargets r"
    using assms(1) by (auto simp: registry_inv_def)
  have "tx_ForEach (tr_eng r) BucketServiceTargets (loadTargetStep r) emptySnapshot db = Inr snapshot"
    using fold_loadTargetStep [OF st(1)] inv(2) st(2)
    by (simp add: tx_ForEach_def tx_bucket_def dataBuckets_def del: bucketName.simps)
  then have view: "View (tr_eng r) (tx_ForEach (tr_eng r) BucketServiceTargets (loadTargetStep r) emptySnapshot) db = Inr snapshot"
    using assms(2) by (simp add: View_def dbView_def normalized_def)
  have "sorted (map st_TargetID (ts_Targets snapshot))"
    using stored_sorted(1) [OF st(1) inv(1)] st(2) by (simp add: snapshotOf_def emptySnapshot_def)
  then have "sort_key st_TargetID (ts_Targets snapshot) = ts_Targets snapshot" by (rule sort_key_id_if_sorted)
  with view inv(3) show ?thesis by (simp add: loadTargets_def)
qed

lemma inv_same:
  assumes "registry_inv r dbinv (snapshot, db)" and "same_bucket (tr_eng r) BucketServiceTargets db db'" and "dbinv db'"
  shows "registry_inv r dbinv (snapshot, db')"
  using same_bucket_each [OF assms(2) _ assms(3)] assms
  by (auto simp: registry_inv_def same_bucket_def simp del: bucketName.simps)

lemma inv_put:
  assumes "registry_inv r dbinv (snapshot, db)" and "validateTarget r target = None"
    and "holds (tr_eng r) db BucketServiceTargets (st_TargetID target) = None"
    and "int (length (ts_Targets snapshot)) < tr_maxTargets r"
    and "encodePersistedTarget (tr_lib r) \<lparr>pt_SchemaVersion = SchemaVersionV1,
      pt_Version = uint64Succ (ts_Version snapshot), pt_Target = target\<rparr> = Inr document"
    and "tx_Put (tr_eng r) BucketServiceTargets (st_TargetID target) document db = Inr db'"
  shows "registry_inv r dbinv (\<lparr>ts_SchemaVersion = SchemaVersionV1, ts_Version = uint64Succ (ts_Version snapshot),
      ts_Targets = sort_key st_TargetID (ts_Targets snapshot @ [target])\<rparr>, db')"
proof -
  let ?B = "bucketName BucketServiceTargets"
  obtain stored where st: "list_all2 (represents r) (eng_each (tr_eng r) db ?B) stored"
    "snapshot = snapshotOf emptySnapshot stored" and inv: "dbinv db" "eng_bucket (tr_eng r) db ?B"
    "ts_Version snapshot \<le> length (ts_Targets snapshot)"
    using assms(1) by (auto simp: registry_inv_def)
  have inv': "dbinv db'" by (rule tx_Put_ok(1) [OF assms(6) inv(1)])
  have wrap: "uint64Succ (ts_Version snapshot) = ts_Version snapshot + 1"
    using inv(3) assms(4) small by (intro uint64Succ_small) (simp add: maxTargets_def)
  define new where "new = \<lparr>pt_SchemaVersion = SchemaVersionV1, pt_Version = ts_Version snapshot + 1, pt_Target = target\<rparr>"
  have rep: "represents r (st_TargetID target, document) new"
    using decodePersisted_marshal [OF codec, of new document] assms(2,5) inv(3) assms(4) small
    by (simp add: represents_def new_def wrap maxTargets_def)
  have each: "eng_each (tr_eng r) db' ?B = upsert (st_TargetID target) document (eng_each (tr_eng r) db ?B)"
    using each_sorted [OF inv(1)] each_sorted [OF inv'] tx_Put_holds [OF assms(6) inv(1)]
    by (intro keys_sorted_unique) (simp_all add: keys_sorted_upsert map_of_upsert each_get inv(1) inv' del: bucketName.simps)
  have "st_TargetID target \<notin> fst ` set (eng_each (tr_eng r) db ?B)"
    using assms(3) each_get [OF inv(1), of ?B] by (metis map_of_eq_None_iff)
  then obtain xs ys where xy: "eng_each (tr_eng r) db ?B = xs @ ys" "eng_each (tr_eng r) db' ?B = xs @ (st_TargetID target, document) # ys"
    using upsert_new each by metis
  obtain sx sy where s: "stored = sx @ sy" "list_all2 (represents r) xs sx" "list_all2 (represents r) ys sy"
    using st(1) xy(1) by (auto simp: list_all2_append1)
  have all': "list_all2 (represents r) (eng_each (tr_eng r) db' ?B) (sx @ new # sy)"
    unfolding xy(2) using s(2,3) rep by (simp add: list_all2_appendI)
  have targets: "sort_key st_TargetID (ts_Targets snapshot @ [target]) = map pt_Target (sx @ new # sy)"
    using stored_sorted [OF all' inv'] by (intro sort_key_unique) (auto simp: st(2) s(1) snapshotOf_def emptySnapshot_def new_def)
  have v: "ts_Version snapshot = Max (insert 0 (set (map pt_Version stored)))"
    by (simp add: st(2) snapshotOf_def emptySnapshot_def fold_max)
  have "fold max (map pt_Version (sx @ new # sy)) 0 = Max (insert (ts_Version snapshot + 1) (insert 0 (set (map pt_Version stored))))"
    unfolding fold_max by (rule arg_cong [of _ _ Max]) (auto simp: s(1) new_def)
  also have "\<dots> = ts_Version snapshot + 1" by (subst Max_insert) (use v in simp_all)
  finally have version: "fold max (map pt_Version (sx @ new # sy)) 0 = ts_Version snapshot + 1" .
  have len: "length (map pt_Target (sx @ new # sy)) = Suc (length (ts_Targets snapshot))"
    by (simp add: st(2) s(1) snapshotOf_def emptySnapshot_def)
  show ?thesis
    unfolding wrap targets registry_inv_def
    using inv' tx_Put_ok(5) [OF assms(6) inv(1)] inv(2,3) all' version assms(4) len
    by (auto simp: snapshotOf_def emptySnapshot_def simp del: bucketName.simps)
qed

lemma appendTargetAudit_writes:
  assumes "appendTargetAudit r answers registration aggregate result reason change tx = Inr tx'" and "dbinv tx"
    and "\<And>mutation db1. change = Some mutation \<Longrightarrow> mutation tx = Inr db1 \<Longrightarrow> dbinv db1"
  obtains db1 where "case change of None \<Rightarrow> db1 = tx | Some mutation \<Rightarrow> mutation tx = Inr db1"
    "dbinv tx'" "same_bucket (tr_eng r) BucketServiceTargets db1 tx'"
proof -
  obtain event eventID where app: "Append (tr_eng r) (tr_audit r)
      (registrationEvent registration eventID (tg_Now answers) aggregate result reason) change tx = Inr (event, tx')"
    using assms(1) by (auto simp: appendTargetAudit_def result_simps split: if_splits)
  show ?thesis
  proof (rule Append_writes [OF app assms(2)])
    show "dbinv db1" if "change = Some mutation" and "mutation tx = Inr db1" for mutation db1
      by (rule assms(3) [OF that])
  qed (auto intro: that simp: dataBuckets_def)
qed

lemma reject_inv:
  assumes "appendTargetAudit r answers registration aggregate result reason None tx = Inr tx'"
    and "registry_inv r dbinv (snapshot, tx)"
  shows "registry_inv r dbinv (snapshot, tx')"
proof -
  have inv: "dbinv tx" using assms(2) by (simp add: registry_inv_def)
  show ?thesis
    by (rule appendTargetAudit_writes [OF assms(1) inv]) (use inv_same [OF assms(2)] in auto)
qed

lemma registerTx_inv:
  assumes "registerTx r answers registration snapshot tx = Inr (outcome, tx')"
    and "registry_inv r dbinv (snapshot, tx)" and "validateTarget r (rn_Target registration) = None"
  shows "registry_inv r dbinv ((case outcome of Some e \<Rightarrow> snapshot
    | None \<Rightarrow> \<lparr>ts_SchemaVersion = SchemaVersionV1, ts_Version = uint64Succ (ts_Version snapshot),
        ts_Targets = sort_key st_TargetID (ts_Targets snapshot @ [rn_Target registration])\<rparr>), tx')"
proof (cases outcome)
  case (Some e)
  then show ?thesis
    using assms(1) reject_inv [OF _ assms(2)]
    by (auto simp: registerTx_def Let_def result_simps split: if_splits)
next
  case None
  let ?target = "rn_Target registration"
  obtain document where free: "tx_Get (tr_eng r) BucketServiceTargets (st_TargetID ?target) tx = Inr None"
    and room: "int (length (ts_Targets snapshot)) < tr_maxTargets r"
    and enc: "encodePersistedTarget (tr_lib r) \<lparr>pt_SchemaVersion = SchemaVersionV1,
      pt_Version = uint64Succ (ts_Version snapshot), pt_Target = ?target\<rparr> = Inr document"
    and app: "appendTargetAudit r answers registration (auditAggregateID (st_TargetID ?target)) auditResultAccepted
      (rn_ReasonCode registration) (Some (tx_Put (tr_eng r) BucketServiceTargets (st_TargetID ?target) document)) tx = Inr tx'"
    using assms(1) None by (auto simp: registerTx_def Let_def result_simps not_le split: if_splits)
  have inv: "dbinv tx" using assms(2) by (simp add: registry_inv_def)
  obtain db1 where put: "tx_Put (tr_eng r) BucketServiceTargets (st_TargetID ?target) document tx = Inr db1"
    and same: "dbinv tx'" "same_bucket (tr_eng r) BucketServiceTargets db1 tx'"
    by (rule appendTargetAudit_writes [OF app inv]) (auto intro: tx_Put_ok(1) [OF _ inv])
  have "holds (tr_eng r) tx BucketServiceTargets (st_TargetID ?target) = None"
    using free by (auto simp: tx_Get_def result_simps split: if_splits)
  from inv_same [OF inv_put [OF assms(2,3) this room enc put] same(2,1)] None show ?thesis by simp
qed

lemma Register_inv:
  assumes "registry_inv r dbinv state" and "RegisterTarget r answers registration state = (result, state')"
  shows "registry_inv r dbinv state'"
proof -
  obtain snapshot db where st: "state = (snapshot, db)" by fastforce
  show ?thesis
  proof (cases "\<not> validRegistrationContext registration")
    case True
    then show ?thesis using assms by (auto simp: RegisterTarget_def st)
  next
    case ctx: False
    show ?thesis
    proof (cases "validateTarget r (rn_Target registration)")
      case (Some e)
      obtain x db' where rec: "recordTargetRejected r answers registration
          (auditAggregateID (st_TargetID (rn_Target registration))) auditReasonInvalid db = (x, db')" by fastforce
      have "registry_inv r dbinv (snapshot, db')"
        using rec assms(1) unfolding recordTargetRejected_def st
        by (cases x) (auto dest!: Update_Inl Update_Inr simp: result_simps intro: reject_inv)
      then show ?thesis
        using assms(2) ctx Some rec by (cases x) (auto simp: RegisterTarget_def st)
    next
      case None
      show ?thesis
      proof (cases rule: Update_cases [where eng = "tr_eng r" and fn = "registerTx r answers registration snapshot" and db = db])
        case (failed e)
        then show ?thesis using assms ctx None by (auto simp: RegisterTarget_def st)
      next
        case (committed outcome db')
        from registerTx_inv [OF committed(1) assms(1) [unfolded st] None] committed(2) assms(2) ctx None show ?thesis
          by (cases outcome) (auto simp: RegisterTarget_def st Let_def)
      qed
    qed
  qed
qed

lemma loaded_inv:
  assumes "loadTargets r db = Inr snapshot" and "dbinv db" and "ts_Version snapshot \<le> length (ts_Targets snapshot)"
  shows "registry_inv r dbinv (snapshot, db)"
proof -
  let ?B = "bucketName BucketServiceTargets"
  obtain loaded where view: "View (tr_eng r) (tx_ForEach (tr_eng r) BucketServiceTargets (loadTargetStep r) emptySnapshot) db = Inr loaded"
    and len: "int (length (ts_Targets loaded)) \<le> tr_maxTargets r"
    and snap: "snapshot = loaded\<lparr>ts_Targets := sort_key st_TargetID (ts_Targets loaded)\<rparr>"
    using assms(1) by (auto simp: loadTargets_def result_simps split: if_splits)
  from View_Inr [OF view] have bucket: "eng_bucket (tr_eng r) db ?B"
    and fold: "foldR (loadTargetStep r) emptySnapshot (eng_each (tr_eng r) db ?B) = Inr loaded"
    by (auto simp: tx_ForEach_def result_simps simp del: bucketName.simps)
  obtain stored where st: "list_all2 (represents r) (eng_each (tr_eng r) db ?B) stored" "loaded = snapshotOf emptySnapshot stored"
    using fold_loadTargetStep_Inr [OF fold] by blast
  have "sorted (map st_TargetID (ts_Targets loaded))"
    using stored_sorted(1) [OF st(1) assms(2)] st(2) by (simp add: snapshotOf_def emptySnapshot_def)
  then have "snapshot = loaded" unfolding snap by (simp add: sort_key_id_if_sorted)
  then show ?thesis using assms(2,3) bucket st len by (auto simp: registry_inv_def simp del: bucketName.simps)
qed

lemma inv_targets:
  assumes "registry_inv r dbinv (snapshot, db)" and "target \<in> set (ts_Targets snapshot)"
  shows "validateTarget r target = None"
proof -
  obtain stored where st: "list_all2 (represents r) (eng_each (tr_eng r) db (bucketName BucketServiceTargets)) stored"
    "snapshot = snapshotOf emptySnapshot stored"
    using assms(1) by (auto simp: registry_inv_def)
  then obtain t where "t \<in> set stored" "target = pt_Target t"
    using assms(2) by (auto simp: snapshotOf_def emptySnapshot_def)
  with represents_valid [OF st(1)] show ?thesis by simp
qed

end

fun registerAll ::
    "'db TargetRegistry \<Rightarrow> (target_answers \<times> TargetRegistration) list \<Rightarrow> TargetSnapshot \<times> 'db \<Rightarrow> TargetSnapshot \<times> 'db" where
  "registerAll r [] state = state"
| "registerAll r ((answers, registration) # calls) state =
     registerAll r calls (snd (RegisterTarget r answers registration state))"

lemma registerAll_inv:
  assumes "registering r dbinv" and "registry_inv r dbinv state"
  shows "registry_inv r dbinv (registerAll r calls state)"
  using assms(2)
proof (induction calls arbitrary: state)
  case (Cons call calls)
  obtain answers registration where call: "call = (answers, registration)" by fastforce
  have "registry_inv r dbinv (snd (RegisterTarget r answers registration state))"
    using registering.Register_inv [OF assms(1) Cons.prems] by (metis prod.collapse)
  then show ?case using Cons.IH by (simp add: call)
qed simp

lemma newTargetRegistry_Inr:
  "newTargetRegistry options db = Inr (r, snapshot) \<longleftrightarrow>
     (\<exists>allowed. allowedTargetMap (to_AllowedTargets options) [] = Inr allowed
        \<and> 1 \<le> to_MaxTargets options \<and> to_MaxTargets options \<le> maxTargets \<and> 1 \<le> to_MaxEvidenceBytes options
        \<and> r = \<lparr>tr_eng = to_State options, tr_audit = to_Audit options, tr_lib = to_Lib options, tr_allowed = allowed,
            tr_maxTargets = to_MaxTargets options, tr_maxEvidenceBytes = to_MaxEvidenceBytes options\<rparr>
        \<and> loadTargets r db = Inr snapshot)"
  by (auto simp: newTargetRegistry_def Let_def result_simps not_less split: sum.splits)

section \<open>A concrete registry\<close>

definition webRule :: ProbeRule where
  "webRule =
     \<lparr>pr_RuleID = ''up'', pr_SignalType = ''availability'', pr_Interval = Minute, pr_Timeout = Second,
      pr_Threshold = Fin 1, pr_ConsecutiveFailures = 3, pr_RecoverySamples = 2, pr_SLOWindow = Hour,
      pr_Severity = SeverityCritical\<rparr>"

definition webTarget :: ServiceTarget where
  "webTarget =
     \<lparr>st_SchemaVersion = SchemaVersionV1, st_TargetID = ''web'', st_AdapterType = ''docker'',
      st_Selector = ''container:web'', st_ProbeRules = [webRule],
      st_EvidencePolicy = \<lparr>ep_RedactionProfile = ''default'', ep_MaxBytes = 100\<rparr>,
      st_StabilizationPolicy = \<lparr>sp_RecoverySamples = 1, sp_Window = Minute\<rparr>, st_Enabled = True\<rparr>"

definition webRegistration :: TargetRegistration where
  "webRegistration =
     \<lparr>rn_Target = webTarget, rn_ActorIdentity = ''uid:0'', rn_RequestID = ''q1'', rn_ReasonCode = ''setup''\<rparr>"

definition webStored :: persistedTarget where
  "webStored = \<lparr>pt_SchemaVersion = SchemaVersionV1, pt_Version = 1, pt_Target = webTarget\<rparr>"

definition webEvent :: AuditEvent where
  "webEvent = registrationEvent webRegistration ''e1'' 7 ''web'' auditResultAccepted ''setup''"

definition targetOptions :: "mem_db TargetOptions" where
  "targetOptions =
     \<lparr>to_State = mem_engine,
      to_Audit = \<lparr>al_json = tableLib, al_event = tableType [(webEvent\<lparr>ae_Digest := demoDigest\<rparr>, ''event'')],
        al_canonical = (\<lambda>c. Inr (ce_EventID c)), al_format = Itoa, al_sha = (\<lambda>_. demoDigest)\<rparr>,
      to_Lib = \<lparr>tl_json = tableLib, tl_target = tableType [], tl_persisted = tableType [(webStored, ''web'')]\<rparr>,
      to_AllowedTargets = [\<lparr>at_TargetID = ''web'', at_AdapterType = ''docker''\<rparr>],
      to_MaxTargets = 5, to_MaxEvidenceBytes = 1000\<rparr>"

definition webRegistry :: "mem_db TargetRegistry" where
  "webRegistry =
     \<lparr>tr_eng = mem_engine, tr_audit = to_Audit targetOptions, tr_lib = to_Lib targetOptions,
      tr_allowed = [(''web'', ''docker'')], tr_maxTargets = 5, tr_maxEvidenceBytes = 1000\<rparr>"

definition targetStore :: "(string \<times> string) list \<Rightarrow> (string \<times> string) list \<Rightarrow> mem_db" where
  "targetStore events targets = [(''audit'', events), (''service_targets'', targets)]"

definition webCalls :: "(target_answers \<times> TargetRegistration) list" where
  "webCalls = [(\<lparr>tg_AuditID = Inr ''e1'', tg_Now = 7\<rparr>, webRegistration)]"

lemma demo_load_empty: "loadTargets webRegistry (targetStore [] []) = Inr emptySnapshot"
  by code_simp

lemma demo_registry: "newTargetRegistry targetOptions (targetStore [] []) = Inr (webRegistry, emptySnapshot)"
proof -
  have "allowedTargetMap (to_AllowedTargets targetOptions) [] = Inr [(''web'', ''docker'')]" by code_simp
  then show ?thesis
    using demo_load_empty by (simp add: newTargetRegistry_Inr webRegistry_def targetOptions_def maxTargets_def)
qed

lemma demo_registered:
  "registerAll webRegistry webCalls (emptySnapshot, targetStore [] [])
     = (\<lparr>ts_SchemaVersion = SchemaVersionV1, ts_Version = 1, ts_Targets = [webTarget]\<rparr>,
        targetStore [(eventKey 0, ''event'')] [(''web'', ''web'')])"
  by code_simp

lemma demo_target_codec: "target_codec webRegistry"
  unfolding target_codec_def
proof (intro conjI allI impI)
  have parts: "tl_json (tr_lib webRegistry) = tableLib" "tl_persisted (tr_lib webRegistry) = tableType [(webStored, ''web'')]"
    by (simp_all add: webRegistry_def targetOptions_def)
  have "json_codec tableLib (tableType [(webStored, ''web'')]) pt_SchemaVersion (\<lambda>_. True)"
    by (rule tableType_codec) (simp_all add: webStored_def SchemaVersionV1_def)
  then show "json_codec (tl_json (tr_lib webRegistry)) (tl_persisted (tr_lib webRegistry)) pt_SchemaVersion
      (\<lambda>v. pt_SchemaVersion v = SchemaVersionV1 \<and> pt_Version v < 2 ^ 64 \<and> validateTarget webRegistry (pt_Target v) = None)"
    unfolding parts by (rule json_codec_mono) simp
  show "int (length document) \<le> MaxDocumentBytes"
    if "validateTarget webRegistry (pt_Target v) = None \<and> pt_SchemaVersion v = SchemaVersionV1 \<and> pt_Version v < 2 ^ 64
      \<and> jt_marshal (tl_persisted (tr_lib webRegistry)) v = Inr document" for v document
    using table_document [of "[(webStored, ''web'')]" v document] that unfolding parts by (simp add: MaxDocumentBytes_def)
qed

lemma demo_target_engine: "bbolt (tr_eng webRegistry) mem_inv"
  using mem.bbolt_axioms by (simp add: webRegistry_def)

interpretation web: registering webRegistry mem_inv
proof -
  have "tr_maxTargets webRegistry \<le> maxTargets" by (simp add: webRegistry_def maxTargets_def)
  then show "registering webRegistry mem_inv"
    using demo_target_engine demo_target_codec by (simp add: registering_def registering_axioms_def)
qed

section \<open>Properties\<close>

text \<open>
  C40: the registry survives a restart. After any sequence of registrations, accepted, rejected or
  failed, a registry created anew on the same store and options starts with exactly the snapshot
  the running one has; that snapshot holds at most the configured number of targets, each of them
  allowed by the configuration and valid, in strict order of their identifiers. The store the
  first registry starts on is any it can load whose version is at most its number of targets,
  which holds of an empty store and is kept by every registration.
\<close>

theorem registry_recovers:
  assumes "newTargetRegistry options db = Inr (r, snapshot)" and "bbolt (to_State options) dbinv" and "target_codec r"
    and "dbinv db" and "ts_Version snapshot \<le> length (ts_Targets snapshot)"
    and "registerAll r calls (snapshot, db) = (snapshot', db')" and "eng_begin (to_State options) db' = None"
  shows "newTargetRegistry options db' = Inr (r, snapshot')
    \<and> int (length (ts_Targets snapshot')) \<le> to_MaxTargets options
    \<and> sorted_wrt (<) (map st_TargetID (ts_Targets snapshot'))
    \<and> (\<forall>target \<in> set (ts_Targets snapshot'). validateTarget r target = None)"
proof -
  have parts: "tr_eng r = to_State options" "tr_maxTargets r = to_MaxTargets options" "tr_maxTargets r \<le> maxTargets"
    "loadTargets r db = Inr snapshot"
    using assms(1) by (auto simp: newTargetRegistry_Inr)
  have reg: "registering r dbinv"
    using assms(2,3) parts by (simp add: registering_def registering_axioms_def)
  have inv: "registry_inv r dbinv (snapshot', db')"
    using registerAll_inv [OF reg registering.loaded_inv [OF reg parts(4) assms(4,5)], of calls] assms(6) by simp
  obtain stored where st: "list_all2 (represents r) (eng_each (tr_eng r) db' (bucketName BucketServiceTargets)) stored"
    "snapshot' = snapshotOf emptySnapshot stored" "dbinv db'" "int (length (ts_Targets snapshot')) \<le> tr_maxTargets r"
    using inv by (auto simp: registry_inv_def)
  have "sorted_wrt (<) (map st_TargetID (ts_Targets snapshot'))"
    using registering.stored_sorted [OF reg st(1,3)] st(2)
    by (simp add: strict_sorted_iff snapshotOf_def emptySnapshot_def)
  moreover have "loadTargets r db' = Inr snapshot'"
    by (rule registering.inv_loads [OF reg inv]) (simp add: parts(1) assms(7))
  then have "newTargetRegistry options db' = Inr (r, snapshot')"
    using assms(1) unfolding newTargetRegistry_Inr by blast
  ultimately show ?thesis using st(4) parts(2) registering.inv_targets [OF reg inv] by auto
qed

theorem registry_recovers_witness:
  "newTargetRegistry targetOptions (targetStore [(eventKey 0, ''event'')] [(''web'', ''web'')])
     = Inr (webRegistry, \<lparr>ts_SchemaVersion = SchemaVersionV1, ts_Version = 1, ts_Targets = [webTarget]\<rparr>)"
proof -
  have parts: "to_State targetOptions = mem_engine" by (simp add: targetOptions_def)
  have inv: "mem_inv (targetStore [] [])" by (simp add: targetStore_def mem_inv_def keys_sorted_def)
  have "ts_Version emptySnapshot \<le> length (ts_Targets emptySnapshot)" by (simp add: emptySnapshot_def)
  from registry_recovers [where dbinv = mem_inv, OF demo_registry _ demo_target_codec inv this demo_registered] mem.bbolt_axioms
  show ?thesis by (simp add: parts)
qed

end
