(* ===== verification/Spec2Isabelle.thy ===== *)
theory Spec2Isabelle
  imports Coordinator Approvals Correlation Stabilizing Lifecycle_Events Target_Registry
begin

text \<open>
  Pulse Agent is a daemon that watches services on one host, correlates health signals into
  incidents, and restarts a container when a registered runbook, the policy and, where needed, a
  human approval allow it. This development models the part of it that decides and records, and
  proves what makes that part safe to run unattended. The sources are under \<open>src/internal\<close>.

  \<^bold>\<open>Parts and theories.\<close>

  \<^item> \<open>Prelude\<close>: errors as one datatype (one constructor per package), the result idiom \<open>bindR\<close>, time
    and duration as nanoseconds with Go's saturation and wrap-around written out, \<open>TrimSpace\<close>,
    \<open>Itoa\<close>, byte-ordered association lists.
  \<^item> \<open>Contracts\<close> (\<open>contract/contracts.go\<close>): the shared records and enums, their \<open>Validate\<close> methods and
    the incident and recovery lifecycles. A string-typed Go enum is a datatype with the constants
    of the source and one constructor for every other string.
  \<^item> \<open>Json_Decode\<close> (\<open>contract/decode.go\<close>): strict decoding and the duplicate-field scan. The JSON
    library itself is a parameter.
  \<^item> \<open>Local_Store\<close> (\<open>store/store.go\<close>): buckets, transactions, migrations, integrity check. The bbolt
    engine is a parameter, \<open>engine\<close>; its documented behaviour is the locale \<open>bbolt\<close>, with
    \<open>roomy_bbolt\<close> for an engine that never runs out of space. A sorted in-memory engine
    interprets both.
  \<^item> \<open>Policy\<close> (\<open>policy/policy.go\<close>): the authorization function \<open>Evaluate\<close>.
  \<^item> \<open>Redaction\<close> and \<open>Audit_Chain\<close> (\<open>redaction/redaction.go\<close>, \<open>audit/chain.go\<close>): detection of secrets, and
    the digest-linked chain of audit events.
  \<^item> \<open>Journal\<close> (\<open>recovery/journal.go\<close>): command records, their keys and every transaction on them.
  \<^item> \<open>Effects\<close>: operations that mix transactions with calls of injected dependencies, as resumptions,
    and systems of such operations that interleave, crash and restart.
  \<^item> \<open>Coordinator\<close> and \<open>Approvals\<close> (\<open>recovery/coordinator.go\<close>, \<open>recovery/approval.go\<close>): \<open>Submit\<close>, \<open>Resume\<close>,
    \<open>Reconcile\<close>, \<open>CompleteStabilization\<close>, \<open>Decide\<close>, \<open>LoadApproval\<close> and the state source that adds
    the stored approval.
  \<^item> \<open>Correlation\<close> (\<open>correlator/correlator.go\<close>): \<open>Ingest\<close> and the incident state machine.
  \<^item> \<open>Stabilizing\<close> (\<open>stabilization/verifier.go\<close>): \<open>Verify\<close> and an abstract machine it refines.
  \<^item> \<open>Webhook_Signing\<close> (\<open>webhook/standard.go\<close>): the signed headers of a message and their verification.
  \<^item> \<open>Delivery_Queue\<close> and \<open>Delivery\<close> (\<open>delivery/delivery.go\<close>): the durable webhook queue, \<open>Enqueue\<close> and
    \<open>DeliverDue\<close>; its specification \<open>queue_step\<close> and the refinement.
  \<^item> \<open>Lifecycle_Events\<close> (\<open>lifecycle/publisher.go\<close>): the events the coordinator announces, stored and
    enqueued in one transaction, and the payload source that reads them back.
  \<^item> \<open>Target_Registry\<close> (\<open>target/registry.go\<close>): the validated, audited registry of monitoring targets.

  Every store is the same \<open>engine\<close>; a component's state is the contents of its buckets. A Go closure
  that runs in a transaction is a function from contents to an error or a result with new contents,
  and \<open>Update\<close> discards the new contents on an error. The coordinator calls the policy engine and
  the journal, the approval manager the journal and the audit chain, the verifier the policy
  engine and, as its finalizer, the coordinator, the dispatcher the signer and the audit chain, the
  event publisher the dispatcher, and the target registry the audit chain.

  \<^bold>\<open>What is shown.\<close> At the level of the whole recovery system (this theory): under any interleaving of
  coordinator and approval operations, with crashes, one recovery effect is executed at most once,
  and a resumed command executes only with a stored, unexpired grant. In the component theories:
  the exact acceptance condition of the policy and its independence of model advice; that every
  execution was preceded by two policy checks; that interrupted commands are never left or retried
  silently; that at most one decision is recorded per command, with its audit event, and read back
  unchanged; that the audit chain grows by exactly the appended event, detects tampering and holds
  no secret; that opening the store migrates without losing data; that decoding accepts exactly
  unique-field documents; that an incident follows its lifecycle under any sequence of signals; that
  a command succeeds only after the required samples over the whole window; that signed headers
  verify with exactly the signed bodies; that the delivery queue stays bounded and well formed
  under concurrent callers, delays its retries as configured and ends every delivery; that an event
  and its delivery are published together; that the target registry survives a restart; and the seven
  places in which the code departs from its own description or limits, listed as findings with the
  theorems that show them.

  \<^bold>\<open>Bounds and fuel.\<close> The recursion of the duplicate-field scan is bounded by twice the number of
  tokens plus one; the scan is proved never to stop for that reason. Every other loop is structural
  or has a termination proof. Counters that the code bounds are unbounded integers in the model,
  with the code's own limits as guards; 64-bit wrap-around is written out where a value can reach it.

  \<^bold>\<open>Parameters.\<close> The bbolt engine, \<open>encoding/json\<close> (laws: \<open>json_codec\<close> for values whose strings are valid
  UTF-8, \<open>phase_codec\<close>, \<open>state_codec\<close>, \<open>item_codec\<close>, \<open>event_codec\<close>, \<open>target_codec\<close>), the hash and
  HMAC, the URL parser, the Unicode letter and digit tables, the clock,
  identifier generators, the Docker adapter, the health probe, the retry-state source, the lifecycle
  publisher, payload sources and the HTTP client. Each law is instantiated by a concrete function
  where a property assumes it.

  \<^bold>\<open>Not modelled.\<close> The best-effort telemetry calls and the checks for nil receivers, contexts and
  dependencies; file handling of the store (lock, backup, restore); the transports (HTTP, the
  administrative socket, the Docker client) and the process boundary (command line, configuration,
  service loop), which are operating system I/O around the modelled operations; the language-model
  analysis, which reaches the policy only as advice; and the report publisher, the runbook registry,
  the observer, the alert ingress and the read-only views.
\<close>

section \<open>The recovery system\<close>

text \<open>
  The operations that share the command journal: those of the coordinator and the decisions of
  the approval manager.
\<close>

definition recoveryOperation :: "'db coordinator \<Rightarrow> 'db ApprovalManager \<Rightarrow> ('db, unit) prog \<Rightarrow> bool" where
  "recoveryOperation co m p \<longleftrightarrow> operation co p \<or> (\<exists>request. p = discard (Decide m request))"



subsection \<open>A concrete high-risk command\<close>








lemma demo_system:
  "\<exists>p. reaches (recoveryOperation demoCoordinator (demoManager\<lparr>am_lib := demoLib\<rparr>)) (\<lambda>_ _. False)
     demoJournal (demoStored ''stabilizing'') [p]
     (demoStart @ [EvExecute (recordKey demoLib demoCommand) demoTarget demoAction None, EvTransaction])"
proof -
  let ?allowed = "recoveryOperation demoCoordinator (demoManager\<lparr>am_lib := demoLib\<rparr>)"
  let ?p = "discard (Submit demoCoordinator demoRequest)"
  have run: "replay ?p
      (demoStart @ [EvExecute (recordKey demoLib demoCommand) demoTarget demoAction None, EvTransaction])
      demoJournal = Some (demoStored ''stabilizing'', Returned ())"
    by code_simp
  have "?allowed ?p" by (simp add: recoveryOperation_def op_submit)
  then have "reaches ?allowed (\<lambda>_ _. False) demoJournal demoJournal ([] @ [?p]) []"
    by (rule reach_spawn [OF reach_start])
  from reaches_replay [OF run this, of 0] show ?thesis by simp
qed

section \<open>Properties across components\<close>

text \<open>
  C1: no recovery effect is executed twice. Let any number of calls of \<open>Submit\<close>, \<open>Resume\<close>,
  \<open>Reconcile\<close>, \<open>CompleteStabilization\<close> and \<open>Decide\<close> run on one store, started at any time,
  interleaved at every transaction and every call of a dependency, with arbitrary answers of
  the dependencies, and possibly never resumed, as after a crash; and let other components
  change other buckets at any time. Then the calls of \<open>Adapter.Execute\<close> for one journal key,
  that is for one action of one runbook on one target in one incident, are at most one in the
  whole history, and none if the key had already reached the executing phase before, for
  example before a restart.
\<close>

theorem execute_at_most_once:
  assumes "bbolt (co_eng co) dbinv" and "phase_codec (co_lib co)"
    and "state_source (co_eng co) (co_lib co) dbinv (co_source co)"
    and "am_eng m = co_eng co" and "am_lib m = co_lib co"
    and "\<And>d d'. outside d d' \<Longrightarrow> dbinv d \<Longrightarrow> dbinv d' \<and> same_bucket (co_eng co) BucketCommandJournal d d'"
    and "dbinv db0" and "reaches (recoveryOperation co m) outside db0 db threads trace"
  shows "executions key trace \<le> (if 3 \<le> keyLevel (co_eng co) (co_lib co) db0 key then 0 else 1)"
proof -
  have co: "coordinated co dbinv"
    using assms(1-3) by (simp add: coordinated_def coordinated_axioms_def)
  have m: "approving m dbinv"
    using assms(1,2,4,5) by (simp add: approving_def approving_axioms_def)
  have decide: "guarded (co_eng co) (co_lib co) dbinv (discard (Decide m request))
      \<and> armed (discard (Decide m request)) = None" for request
    by (rule coordinated.safe_discard [OF co coordinated.tame_safe [OF co
            approving.tame_Decide [OF m, unfolded assms(4,5)]]])
  have ops: "guarded (co_eng co) (co_lib co) dbinv p \<and> armed p = None" if "recoveryOperation co m p" for p
    using that unfolding recoveryOperation_def
    by (elim disjE exE) (simp_all only: decide coordinated.safe_operation [OF co])
  have "once (co_eng co) (co_lib co) db0 db threads trace"
    using reaches_once [OF assms(8,7) ops assms(6)] by blast
  then show ?thesis unfolding once_def by (auto dest!: spec [of _ key] split: if_splits)
qed

theorem execute_at_most_once_witness:
  "executions (recordKey demoLib demoCommand)
     (demoStart @ [EvExecute (recordKey demoLib demoCommand) demoTarget demoAction None, EvTransaction]) \<le> 1"
proof -
  let ?m = "demoManager\<lparr>am_lib := demoLib\<rparr>"
  obtain p where sys: "reaches (recoveryOperation demoCoordinator ?m) (\<lambda>_ _. False)
     demoJournal (demoStored ''stabilizing'') [p]
     (demoStart @ [EvExecute (recordKey demoLib demoCommand) demoTarget demoAction None, EvTransaction])"
    using demo_system by blast
  have store: "bbolt (co_eng demoCoordinator) mem_inv" "phase_codec (co_lib demoCoordinator)"
    "state_source (co_eng demoCoordinator) (co_lib demoCoordinator) mem_inv (co_source demoCoordinator)"
    "am_eng ?m = co_eng demoCoordinator" "am_lib ?m = co_lib demoCoordinator"
    using mem.bbolt_axioms demoLib_codec external.state_source_axioms [of mem_engine demoLib mem_inv]
    by (simp_all add: demoCoordinator_def demoManager_def)
  have inv: "mem_inv demoJournal" by (simp add: mem_inv_def keys_sorted_def demoJournal_def)
  from execute_at_most_once [OF store _ inv sys, of "recordKey demoLib demoCommand"]
  show ?thesis by (simp split: if_splits)
qed



end
